theory Spec2Isabelle
  imports Complex_Main "HOL-Library.AList" "HOL-Library.Char_ord" "HOL-Library.List_Lexorder"
begin

section \<open>Churn prediction: the feature-encoding contract\<close>

text \<open>
  The development embeds \<^verbatim>\<open>api/main.py\<close> (the inference service) and
  \<^verbatim>\<open>src/preprocessing.py\<close> (the training-time pipeline) of the churn-prediction
  repository. Python \<^verbatim>\<open>float\<close> values are modelled as real numbers (comparisons and
  the bucket boundaries are exact on them; rounding error of the arithmetic is not modelled).
  The range of a float is modelled: a real number too large in magnitude to round to a finite
  double stands for an infinity (subsection \<open>The range of a float\<close>). Python
  \<^verbatim>\<open>int\<close> is \<open>int\<close>, and Python \<^verbatim>\<open>str\<close> is \<open>string\<close>, a character
  of which stands for a code point below 256.
\<close>

subsection \<open>Python string operations\<close>

text \<open>\<^verbatim>\<open>str.isspace\<close> on the code points below 256.\<close>

definition is_space :: "char \<Rightarrow> bool" where
  "is_space c = (let n = (of_char c :: nat) in
     (9 \<le> n \<and> n \<le> 13) \<or> (28 \<le> n \<and> n \<le> 32) \<or> n = 133 \<or> n = 160)"

text \<open>\<^verbatim>\<open>s.strip()\<close>: leading and trailing white space removed.\<close>

definition strip :: "string \<Rightarrow> string" where
  "strip s = rev (dropWhile is_space (rev (dropWhile is_space s)))"

text \<open>\<^verbatim>\<open>s.lower()\<close> on the code points below 256: A-Z and the accented capitals
  of Latin-1 (all of 192..222 but the multiplication sign 215) move up by 32.\<close>

definition lower_char :: "char \<Rightarrow> char" where
  "lower_char c = (let n = (of_char c :: nat) in
     if (65 \<le> n \<and> n \<le> 90) \<or> (192 \<le> n \<and> n \<le> 222 \<and> n \<noteq> 215)
     then char_of (n + 32) else c)"

definition lower :: "string \<Rightarrow> string" where
  "lower s = map lower_char s"

text \<open>\<^verbatim>\<open>s.startswith(p)\<close> and the substring test \<^verbatim>\<open>p in s\<close>.\<close>

fun startswith :: "string \<Rightarrow> string \<Rightarrow> bool" where
  "startswith s [] = True"
| "startswith [] (p # ps) = False"
| "startswith (c # cs) (p # ps) = (c = p \<and> startswith cs ps)"

fun str_in :: "string \<Rightarrow> string \<Rightarrow> bool" where
  "str_in p [] = (p = [])"
| "str_in p (c # cs) = (startswith (c # cs) p \<or> str_in p cs)"

subsection \<open>Values\<close>

text \<open>A number held in the feature row of the service: a Python int or float.\<close>

datatype number = I int | F real

text \<open>The value of a number as a float.\<close>

fun to_float :: "number \<Rightarrow> real" where
  "to_float (I n) = real_of_int n"
| "to_float (F x) = x"

subsection \<open>The request schema of the service\<close>

record PredictRequest =
  tenure :: int
  monthly_charges :: real
  contract :: string
  internet_service :: string
  payment_method :: string
  paperless_billing :: string
  tech_support :: string
  online_security :: string
  gender :: string
  senior_citizen :: int
  partner :: string
  dependents :: string
  phone_service :: string
  online_backup :: string
  device_protection :: string
  streaming_tv :: string
  streaming_movies :: string
  multiple_lines :: string

text \<open>The constraints of the schema's fields (\<^verbatim>\<open>ge=0\<close>, \<^verbatim>\<open>le=1\<close>): a request
  that violates them is rejected before \<^verbatim>\<open>predict\<close> runs.\<close>

definition valid_request :: "PredictRequest \<Rightarrow> bool" where
  "valid_request req =
     (0 \<le> tenure req \<and> 0 \<le> monthly_charges req \<and> 0 \<le> senior_citizen req \<and> senior_citizen req \<le> 1)"

text \<open>A request that gives the five required fields only; the others take the defaults of
  the schema.\<close>

definition request_with_defaults :: "int \<Rightarrow> real \<Rightarrow> string \<Rightarrow> string \<Rightarrow> string \<Rightarrow> PredictRequest" where
  "request_with_defaults t m c i p =
     \<lparr>tenure = t, monthly_charges = m, contract = c, internet_service = i, payment_method = p,
      paperless_billing = ''Yes'', tech_support = ''No'', online_security = ''No'',
      gender = ''Male'', senior_citizen = 0, partner = ''No'', dependents = ''No'',
      phone_service = ''Yes'', online_backup = ''No'', device_protection = ''No'',
      streaming_tv = ''No'', streaming_movies = ''No'', multiple_lines = ''No''\<rparr>"

subsection \<open>Bucketing at inference\<close>

definition bucket_tenure :: "int \<Rightarrow> string" where
  "bucket_tenure t =
     (if t < 13 then ''0-12''
      else if t < 25 then ''13-24''
      else if t < 49 then ''25-48''
      else if t < 61 then ''49-60''
      else ''60+'')"

definition bucket_monthly :: "real \<Rightarrow> real \<Rightarrow> real \<Rightarrow> string" where
  "bucket_monthly m q33 q66 =
     (if m \<le> q33 then ''low''
      else if m \<le> q66 then ''medium''
      else ''high'')"

subsection \<open>The feature row built at inference\<close>

text \<open>The row is a Python dict from column names to numbers. \<^verbatim>\<open>for c in [...]: row[c] = 0\<close>
  is \<open>zero_fill\<close>; \<^verbatim>\<open>key in row\<close> is \<open>row key \<noteq> None\<close>.\<close>

type_synonym row = "string \<rightharpoonup> number"

definition yes_no :: "string \<Rightarrow> number" where
  "yes_no s = I (if lower (strip s) = ''yes'' then 1 else 0)"

definition zero_fill :: "string list \<Rightarrow> row \<Rightarrow> row" where
  "zero_fill cs r = fold (\<lambda>c r'. r'(c \<mapsto> I 0)) cs r"

definition contract_columns :: "string list" where
  "contract_columns = [''Contract_Month-to-month'', ''Contract_One year'', ''Contract_Two year'']"

definition internet_columns :: "string list" where
  "internet_columns = [''InternetService_DSL'', ''InternetService_Fiber optic'', ''InternetService_No'']"

definition payment_columns :: "string list" where
  "payment_columns = [''PaymentMethod_Bank transfer (automatic)'', ''PaymentMethod_Credit card (automatic)'',
     ''PaymentMethod_Electronic check'', ''PaymentMethod_Mailed check'']"

definition lines_columns :: "string list" where
  "lines_columns = [''MultipleLines_No'', ''MultipleLines_No phone service'', ''MultipleLines_Yes'']"

definition tenure_group_columns :: "string list" where
  "tenure_group_columns = [''tenure_group_0-12'', ''tenure_group_13-24'', ''tenure_group_25-48'',
     ''tenure_group_49-60'', ''tenure_group_60+'']"

definition bucket_columns :: "string list" where
  "bucket_columns = [''monthly_charges_bucket_low'', ''monthly_charges_bucket_medium'',
     ''monthly_charges_bucket_high'']"

text \<open>The dict literal of \<^verbatim>\<open>build_feature_row\<close>, with the two products of lines 88
  and 89. A product too large for a float is an infinity, which the row holds as it is. The
  products are the only statements of the function that can raise; that is
  \<open>build_feature_row_result\<close> below.\<close>

definition base_row :: "PredictRequest \<Rightarrow> row" where
  "base_row req =
     (let total_charges = real_of_int (tenure req) * monthly_charges req;
          total_spend = real_of_int (tenure req) * monthly_charges req
      in [''gender'' \<mapsto> I (if lower (strip (gender req)) = ''male'' then 1 else 0),
          ''SeniorCitizen'' \<mapsto> I (senior_citizen req),
          ''Partner'' \<mapsto> yes_no (partner req),
          ''Dependents'' \<mapsto> yes_no (dependents req),
          ''tenure'' \<mapsto> I (tenure req),
          ''PhoneService'' \<mapsto> yes_no (phone_service req),
          ''OnlineSecurity'' \<mapsto> yes_no (online_security req),
          ''OnlineBackup'' \<mapsto> yes_no (online_backup req),
          ''DeviceProtection'' \<mapsto> yes_no (device_protection req),
          ''TechSupport'' \<mapsto> yes_no (tech_support req),
          ''StreamingTV'' \<mapsto> yes_no (streaming_tv req),
          ''StreamingMovies'' \<mapsto> yes_no (streaming_movies req),
          ''PaperlessBilling'' \<mapsto> yes_no (paperless_billing req),
          ''MonthlyCharges'' \<mapsto> F (monthly_charges req),
          ''TotalCharges'' \<mapsto> F total_charges,
          ''total_spend'' \<mapsto> F total_spend])"

definition encode_contract :: "PredictRequest \<Rightarrow> row \<Rightarrow> row" where
  "encode_contract req r =
     (let r1 = zero_fill contract_columns r;
          key = ''Contract_'' @ strip (contract req)
      in if r1 key \<noteq> None then r1(key \<mapsto> I 1) else r1)"

definition encode_internet :: "PredictRequest \<Rightarrow> row \<Rightarrow> row" where
  "encode_internet req r =
     (let r1 = zero_fill internet_columns r;
          key = ''InternetService_'' @ strip (internet_service req)
      in if r1 key \<noteq> None then r1(key \<mapsto> I 1) else r1)"

definition encode_payment :: "PredictRequest \<Rightarrow> row \<Rightarrow> row" where
  "encode_payment req r =
     (let pm = strip (payment_method req);
          r1 = zero_fill payment_columns r
      in if str_in ''Bank transfer'' pm \<or> (str_in ''automatic'' pm \<and> str_in ''Bank'' pm)
           then r1(''PaymentMethod_Bank transfer (automatic)'' \<mapsto> I 1)
         else if str_in ''Credit card'' pm \<or> str_in ''Credit card (automatic)'' pm
           then r1(''PaymentMethod_Credit card (automatic)'' \<mapsto> I 1)
         else if str_in ''Electronic'' pm
           then r1(''PaymentMethod_Electronic check'' \<mapsto> I 1)
         else if str_in ''Mailed'' pm
           then r1(''PaymentMethod_Mailed check'' \<mapsto> I 1)
         else r1(''PaymentMethod_Electronic check'' \<mapsto> I 1))"

definition encode_lines :: "PredictRequest \<Rightarrow> row \<Rightarrow> row" where
  "encode_lines req r =
     (let r1 = zero_fill lines_columns r;
          ml = lower (strip (multiple_lines req))
      in if str_in ''no phone'' ml then r1(''MultipleLines_No phone service'' \<mapsto> I 1)
         else if ml = ''yes'' then r1(''MultipleLines_Yes'' \<mapsto> I 1)
         else r1(''MultipleLines_No'' \<mapsto> I 1))"

definition encode_tenure_group :: "string \<Rightarrow> row \<Rightarrow> row" where
  "encode_tenure_group tenure_group r =
     (zero_fill tenure_group_columns r)(''tenure_group_'' @ tenure_group \<mapsto> I 1)"

definition encode_bucket :: "string \<Rightarrow> row \<Rightarrow> row" where
  "encode_bucket monthly_bucket r =
     (zero_fill bucket_columns r)(''monthly_charges_bucket_'' @ monthly_bucket \<mapsto> I 1)"

definition build_feature_row :: "PredictRequest \<Rightarrow> real \<Rightarrow> real \<Rightarrow> row" where
  "build_feature_row req q33 q66 =
     (let tenure_group = bucket_tenure (tenure req);
          monthly_bucket = bucket_monthly (monthly_charges req) q33 q66
      in encode_bucket monthly_bucket
           (encode_tenure_group tenure_group
             (encode_lines req
               (encode_payment req
                 (encode_internet req
                   (encode_contract req (base_row req)))))))"

subsection \<open>Errors\<close>

text \<open>Every exception the embedded code can raise is a value: the HTTP error of the service
  with its status code, and the Python exceptions by name.\<close>

datatype error =
  HTTPException nat | ValueError | TypeError | KeyError string | IndexError | FileNotFoundError
  | OverflowError

definition bind_err :: "error + 'a \<Rightarrow> ('a \<Rightarrow> error + 'b) \<Rightarrow> error + 'b" where
  "bind_err x f = (case x of Inl e \<Rightarrow> Inl e | Inr v \<Rightarrow> f v)"

subsection \<open>The range of a float\<close>

text \<open>A Python float is an IEEE double. The largest finite double is \<open>2^1024 - 2^971\<close>,
  and rounding to nearest takes every real number of magnitude \<open>2^1024 - 2^970\<close> or more
  to an infinity. A real number of that magnitude stands for an infinity here.\<close>

definition float_limit :: real where
  "float_limit = 2 ^ 1024 - 2 ^ 970"

definition finite_float :: "real \<Rightarrow> bool" where
  "finite_float x = (\<bar>x\<bar> < float_limit)"

text \<open>The conversion of a Python int to a float, as \<^verbatim>\<open>int * float\<close> and
  \<^verbatim>\<open>np.array(..., dtype=float)\<close> do it: \<^verbatim>\<open>OverflowError\<close> when the int is too
  large for a finite float.\<close>

definition int_to_float :: "int \<Rightarrow> error + real" where
  "int_to_float n =
     (if finite_float (real_of_int n) then Inr (real_of_int n) else Inl OverflowError)"

text \<open>\<^verbatim>\<open>n * x\<close> for an int and a float: the int is converted first, which may raise; the
  product of the two floats does not raise, it overflows to an infinity.\<close>

definition mul_int_float :: "int \<Rightarrow> real \<Rightarrow> error + real" where
  "mul_int_float n x = bind_err (int_to_float n) (\<lambda>y. Inr (y * x))"

text \<open>The call \<^verbatim>\<open>build_feature_row(request, q33, q66)\<close> with its exceptions. The two
  products are evaluated before the dict is built and raise when the tenure is too large for
  a float; when they return, the dict is \<open>build_feature_row\<close>, which holds their
  values.\<close>

definition build_feature_row_result :: "PredictRequest \<Rightarrow> real \<Rightarrow> real \<Rightarrow> error + row" where
  "build_feature_row_result req q33 q66 =
     bind_err (mul_int_float (tenure req) (monthly_charges req)) (\<lambda>total_charges.
     bind_err (mul_int_float (tenure req) (monthly_charges req)) (\<lambda>total_spend.
     Inr (build_feature_row req q33 q66)))"

text \<open>\<^verbatim>\<open>np.array(values, dtype=float)\<close> on a list of Python numbers: an int is converted,
  a float is taken as it is, infinite or not.\<close>

definition np_float :: "number \<Rightarrow> error + real" where
  "np_float v = (case v of I n \<Rightarrow> int_to_float n | F x \<Rightarrow> Inr x)"

fun np_array :: "number list \<Rightarrow> error + real list" where
  "np_array [] = Inr []"
| "np_array (v # vs) =
     bind_err (np_float v) (\<lambda>x.
     bind_err (np_array vs) (\<lambda>xs. Inr (x # xs)))"

subsection \<open>The prediction endpoint\<close>

text \<open>The fitted scaler is scikit-learn's \<^verbatim>\<open>StandardScaler\<close>, which is not part of the
  repository: \<^verbatim>\<open>transform\<close> replaces each value by (value - fitted mean) / fitted standard
  deviation. It raises \<^verbatim>\<open>ValueError\<close> when a value is an infinity, and when the number of
  values is not the number of columns it was fitted on. (It lets NaN through; the only NaN
  that can reach it here is the product of a zero tenure and an infinite charge, and then the
  charge itself is an infinity among the values.)\<close>

record StandardScaler =
  sc_mean :: "real list"  \<comment> \<open>the attribute \<^verbatim>\<open>mean_\<close>\<close>
  sc_scale :: "real list"  \<comment> \<open>the attribute \<^verbatim>\<open>scale_\<close>\<close>

definition transform :: "StandardScaler \<Rightarrow> real list \<Rightarrow> error + real list" where
  "transform sc xs =
     (if \<not> list_all finite_float xs then Inl ValueError
      else if length xs \<noteq> length (sc_mean sc) \<or> length (sc_scale sc) \<noteq> length (sc_mean sc) then Inl ValueError
      else Inr (map (\<lambda>(x, m, s). (x - m) / s) (zip xs (zip (sc_mean sc) (sc_scale sc)))))"

text \<open>The process-wide state loaded at start-up. The model is opaque: a function from the
  feature vector to the probability of the positive class, which may raise.\<close>

record app_state =
  st_model :: "(real list \<Rightarrow> error + real) option"
  st_scaler :: "StandardScaler option"
  st_feature_columns :: "string list option"
  st_q33 :: "real option"
  st_q66 :: "real option"

record PredictResponse =
  churn_probability :: real
  prediction :: string
  confidence :: string

definition numerical_cols :: "string list" where
  "numerical_cols = [''tenure'', ''MonthlyCharges'', ''TotalCharges'', ''total_spend'']"

text \<open>\<^verbatim>\<open>row[k]\<close> raises \<^verbatim>\<open>KeyError\<close> on a missing key; \<^verbatim>\<open>row.get(k, d)\<close>
  returns the default; \<^verbatim>\<open>xs.index(c)\<close> is the position of the first \<open>c\<close>.\<close>

definition row_item :: "row \<Rightarrow> string \<Rightarrow> error + number" where
  "row_item r k = (case r k of None \<Rightarrow> Inl (KeyError k) | Some v \<Rightarrow> Inr v)"

definition row_get :: "row \<Rightarrow> string \<Rightarrow> number \<Rightarrow> number" where
  "row_get r k d = (case r k of None \<Rightarrow> d | Some v \<Rightarrow> v)"

definition index_of :: "string \<Rightarrow> string list \<Rightarrow> nat" where
  "index_of c xs = length (takeWhile (\<lambda>x. x \<noteq> c) xs)"

text \<open>A value of the row that is absent, 0 or 1.\<close>

definition small :: "number option \<Rightarrow> bool" where
  "small v = (v = None \<or> v = Some (I 0) \<or> v = Some (I 1))"

text \<open>One entry of \<^verbatim>\<open>X_list\<close>: the scaled value for a numeric column, the row's value
  (0 when the row has no such key) for every other column.\<close>

definition vector_entry :: "row \<Rightarrow> real list \<Rightarrow> string \<Rightarrow> error + number" where
  "vector_entry r scaled_num c =
     (if c \<in> set numerical_cols
      then (let j = index_of c numerical_cols
            in if j < length scaled_num then Inr (F (scaled_num ! j)) else Inl IndexError)
      else Inr (row_get r c (I 0)))"

text \<open>The loop \<^verbatim>\<open>for c in feature_columns: X_list.append(...)\<close>.\<close>

fun assemble :: "row \<Rightarrow> real list \<Rightarrow> string list \<Rightarrow> error + number list" where
  "assemble r scaled_num [] = Inr []"
| "assemble r scaled_num (c # cs) =
     bind_err (vector_entry r scaled_num c) (\<lambda>v.
     bind_err (assemble r scaled_num cs) (\<lambda>vs. Inr (v # vs)))"

text \<open>The vector handed to the model: the row is built, its four numeric values are made an
  array and scaled, the manifest is walked in order, and the list is made an array.\<close>

definition feature_vector :: "StandardScaler \<Rightarrow> string list \<Rightarrow> real \<Rightarrow> real \<Rightarrow> PredictRequest \<Rightarrow> error + real list" where
  "feature_vector sc feature_cols q33 q66 req =
     bind_err (build_feature_row_result req q33 q66) (\<lambda>r.
     bind_err (row_item r ''tenure'') (\<lambda>v1.
     bind_err (row_item r ''MonthlyCharges'') (\<lambda>v2.
     bind_err (row_item r ''TotalCharges'') (\<lambda>v3.
     bind_err (row_item r ''total_spend'') (\<lambda>v4.
     bind_err (np_array [v1, v2, v3, v4]) (\<lambda>num_vals.
     bind_err (transform sc num_vals) (\<lambda>scaled_num.
     bind_err (assemble r scaled_num feature_cols) (\<lambda>X_list.
     np_array X_list))))))))"

text \<open>\<^verbatim>\<open>round(x, 2)\<close>: the nearest multiple of 1/100, a tie going to the even one.\<close>

definition round_half_even :: "real \<Rightarrow> int" where
  "round_half_even x =
     (let f = \<lfloor>x\<rfloor>; d = x - real_of_int f
      in if d < 1 / 2 then f else if 1 / 2 < d then f + 1 else if even f then f else f + 1)"

definition round2 :: "real \<Rightarrow> real" where
  "round2 x = real_of_int (round_half_even (x * 100)) / 100"

text \<open>What \<^verbatim>\<open>predict\<close> answers for the probability the model gave.\<close>

definition respond :: "real \<Rightarrow> PredictResponse" where
  "respond proba =
     (let prediction = (if proba \<ge> 0.5 then ''Likely to Churn'' else ''Not Likely'');
          confidence = (if proba \<ge> 0.8 \<or> proba \<le> 0.2 then ''High''
                        else if proba \<ge> 0.6 \<or> proba \<le> 0.4 then ''Medium''
                        else ''Low'')
      in \<lparr>churn_probability = round2 proba, prediction = prediction, confidence = confidence\<rparr>)"

text \<open>\<^verbatim>\<open>predict\<close> in three steps: the vector it assembles, the probability the model
  gives for it, and the answer. A state whose model, scaler or manifest is missing answers
  503. The thresholds are not checked: a missing one makes the comparison that reaches it in
  \<^verbatim>\<open>_bucket_monthly\<close> raise \<^verbatim>\<open>TypeError\<close>. With q33 present and q66 missing, a
  charge of at most q33 is "low" before q66 is looked at, and the row is the one built with any
  q66; q33 stands in for it.\<close>

definition predict_vector :: "app_state \<Rightarrow> PredictRequest \<Rightarrow> error + real list" where
  "predict_vector st req =
     (case (st_model st, st_scaler st, st_feature_columns st) of
        (Some m, Some sc, Some fc) \<Rightarrow>
          (case st_q33 st of
             None \<Rightarrow> Inl TypeError
           | Some q33 \<Rightarrow>
               (case st_q66 st of
                  Some q66 \<Rightarrow> feature_vector sc fc q33 q66 req
                | None \<Rightarrow>
                    if monthly_charges req \<le> q33 then feature_vector sc fc q33 q33 req
                    else Inl TypeError))
      | _ \<Rightarrow> Inl (HTTPException 503))"

definition model_proba :: "app_state \<Rightarrow> PredictRequest \<Rightarrow> error + real" where
  "model_proba st req =
     bind_err (predict_vector st req) (\<lambda>X.
     case st_model st of None \<Rightarrow> Inl (HTTPException 503) | Some m \<Rightarrow> m X)"

definition predict :: "app_state \<Rightarrow> PredictRequest \<Rightarrow> error + PredictResponse" where
  "predict st req = bind_err (model_proba st req) (\<lambda>proba. Inr (respond proba))"

subsection \<open>Tables of the training pipeline\<close>

text \<open>The pipeline works on pandas tables. pandas is not part of the repository; the
  operations the pipeline calls are modelled here by their documented behaviour. A table
  is the ordered list of its named columns; a column has a dtype and its cells; a cell holds
  a string, a number or is missing (NaN). A text column read from CSV has dtype \<open>Object\<close>
  and holds strings and missing cells; a column made by \<^verbatim>\<open>pd.cut\<close> has dtype
  \<open>Category\<close> with its ordered list of categories.\<close>

datatype cell = S string | N number | NA

datatype dtype = Object | Int64 | Float64 | Category "string list"

record series =
  dtype_of :: dtype
  cells :: "cell list"

type_synonym dataframe = "(string \<times> series) list"

text \<open>\<^verbatim>\<open>df[c]\<close> raises \<^verbatim>\<open>KeyError\<close> when the column is absent;
  \<^verbatim>\<open>c in df.columns\<close> is \<open>map_of df c \<noteq> None\<close>; the assignment
  \<^verbatim>\<open>df[c] = s\<close> is \<open>AList.update c s df\<close>: it replaces the column in place or
  appends it as the last one.\<close>

definition get_col :: "dataframe \<Rightarrow> string \<Rightarrow> error + series" where
  "get_col df c = (case map_of df c of None \<Rightarrow> Inl (KeyError c) | Some s \<Rightarrow> Inr s)"

text \<open>The cell of a column in a given row, when the table has both.\<close>

definition cell_at :: "dataframe \<Rightarrow> string \<Rightarrow> nat \<Rightarrow> cell option" where
  "cell_at df c i =
     (case map_of df c of
        None \<Rightarrow> None
      | Some s \<Rightarrow> if i < length (cells s) then Some (cells s ! i) else None)"

fun cell_real :: "cell \<Rightarrow> real option" where
  "cell_real (N n) = Some (to_float n)"
| "cell_real (S s) = None"
| "cell_real NA = None"

fun cell_label :: "cell \<Rightarrow> string option" where
  "cell_label (S s) = Some s"
| "cell_label (N n) = None"
| "cell_label NA = None"

definition is_numeric :: "dtype \<Rightarrow> bool" where
  "is_numeric d = (d = Int64 \<or> d = Float64)"

text \<open>\<^verbatim>\<open>(s == "Yes").astype(int)\<close>: 1 in the cells that hold exactly the string
  "Yes", 0 in every other cell.\<close>

definition eq_yes :: "series \<Rightarrow> series" where
  "eq_yes s = \<lparr>dtype_of = Int64, cells = map (\<lambda>c. N (I (if c = S ''Yes'' then 1 else 0))) (cells s)\<rparr>"

subsection \<open>Cleaning\<close>

text \<open>\<^verbatim>\<open>pd.to_numeric(s, errors="coerce")\<close>: a numeric column is returned as it is; in a
  text column every string that reads as a number becomes that number and every other string
  becomes missing. How a number is read from a string is a parameter. The result is an integer
  column when every cell became an integer, and a float column otherwise.\<close>

fun coerce_cell :: "(string \<Rightarrow> number option) \<Rightarrow> cell \<Rightarrow> cell" where
  "coerce_cell parse (S x) = (case parse x of None \<Rightarrow> NA | Some n \<Rightarrow> N n)"
| "coerce_cell parse (N n) = N n"
| "coerce_cell parse NA = NA"

fun is_int_cell :: "cell \<Rightarrow> bool" where
  "is_int_cell (N (I n)) = True"
| "is_int_cell c = False"

fun float_cell :: "cell \<Rightarrow> cell" where
  "float_cell (N n) = N (F (to_float n))"
| "float_cell c = c"

definition to_numeric :: "(string \<Rightarrow> number option) \<Rightarrow> series \<Rightarrow> series" where
  "to_numeric parse s =
     (if is_numeric (dtype_of s) then s
      else (let cs = map (coerce_cell parse) (cells s)
            in if list_all is_int_cell cs then \<lparr>dtype_of = Int64, cells = cs\<rparr>
               else \<lparr>dtype_of = Float64, cells = map float_cell cs\<rparr>))"

text \<open>\<^verbatim>\<open>s.median()\<close>: the middle of the sorted values that are not missing, the mean of
  the two middle ones when their number is even, NaN (here \<open>None\<close>) when there is none.\<close>

definition median_values :: "real list \<Rightarrow> real option" where
  "median_values xs =
     (let n = length xs
      in if n = 0 then None
         else if odd n then Some (xs ! (n div 2))
         else Some ((xs ! (n div 2 - 1) + xs ! (n div 2)) / 2))"

definition median :: "series \<Rightarrow> real option" where
  "median s = median_values (sort (List.map_filter cell_real (cells s)))"

text \<open>\<^verbatim>\<open>s.fillna(v)\<close>: the missing cells take the value; filling with NaN changes nothing.\<close>

definition fillna :: "series \<Rightarrow> real option \<Rightarrow> series" where
  "fillna s v =
     (case v of
        None \<Rightarrow> s
      | Some x \<Rightarrow> \<lparr>dtype_of = dtype_of s, cells = map (\<lambda>c. if c = NA then N (F x) else c) (cells s)\<rparr>)"

text \<open>\<^verbatim>\<open>load_and_clean_data\<close>, from the table that \<^verbatim>\<open>pd.read_csv\<close> returns; \<open>None\<close>
  stands for a path that does not exist.\<close>

definition load_and_clean_data :: "(string \<Rightarrow> number option) \<Rightarrow> dataframe option \<Rightarrow> error + dataframe" where
  "load_and_clean_data parse file =
     (case file of
        None \<Rightarrow> Inl FileNotFoundError
      | Some df \<Rightarrow>
          (let df1 = (if map_of df ''customerID'' \<noteq> None then AList.delete ''customerID'' df else df)
           in case map_of df1 ''TotalCharges'' of
                None \<Rightarrow> Inr df1
              | Some s \<Rightarrow>
                  (let num = to_numeric parse s;
                       median_total = median num
                   in Inr (AList.update ''TotalCharges'' (fillna num median_total) df1))))"

subsection \<open>Target encoding\<close>

definition encode_target :: "dataframe \<Rightarrow> error + dataframe" where
  "encode_target df =
     (case map_of df ''Churn'' of
        None \<Rightarrow> Inl ValueError
      | Some s \<Rightarrow> Inr (AList.update ''Churn'' (eq_yes s) df))"

subsection \<open>Feature engineering\<close>

text \<open>\<^verbatim>\<open>pd.cut(s, bins, labels, right)\<close>. The bin edges are numbers or
  \<^verbatim>\<open>\<plusminus>np.inf\<close>. A value falls in the bin between two consecutive edges, closed on
  the right when \<open>right\<close> holds (the default) and on the left otherwise; a value in no
  bin, and a missing value, give a missing cell. Edges that do not increase, or are not
  all different, raise \<^verbatim>\<open>ValueError\<close>, as does a number of labels that is not the
  number of bins; a column that is not numeric raises \<^verbatim>\<open>TypeError\<close>.\<close>

datatype edge = NegInf | Fin real | PosInf

fun edge_less :: "edge \<Rightarrow> edge \<Rightarrow> bool" where
  "edge_less NegInf NegInf = False"
| "edge_less NegInf e = True"
| "edge_less (Fin a) (Fin b) = (a < b)"
| "edge_less (Fin a) PosInf = True"
| "edge_less (Fin a) NegInf = False"
| "edge_less PosInf e = False"

fun strictly_increasing :: "edge list \<Rightarrow> bool" where
  "strictly_increasing (a # b # es) = (edge_less a b \<and> strictly_increasing (b # es))"
| "strictly_increasing es = True"

text \<open>\<open>below e x\<close> is \<open>e < x\<close> and \<open>below_eq e x\<close> is \<open>e \<le> x\<close>.\<close>

fun below :: "edge \<Rightarrow> real \<Rightarrow> bool" where
  "below NegInf x = True"
| "below (Fin a) x = (a < x)"
| "below PosInf x = False"

fun below_eq :: "edge \<Rightarrow> real \<Rightarrow> bool" where
  "below_eq NegInf x = True"
| "below_eq (Fin a) x = (a \<le> x)"
| "below_eq PosInf x = False"

definition in_bin :: "bool \<Rightarrow> edge \<Rightarrow> edge \<Rightarrow> real \<Rightarrow> bool" where
  "in_bin right lo hi x =
     (if right then below lo x \<and> \<not> below hi x else below_eq lo x \<and> \<not> below_eq hi x)"

fun find_bin :: "bool \<Rightarrow> edge list \<Rightarrow> string list \<Rightarrow> real \<Rightarrow> string option" where
  "find_bin right (lo # hi # es) (l # ls) x =
     (if in_bin right lo hi x then Some l else find_bin right (hi # es) ls x)"
| "find_bin right es ls x = None"

definition cut_cell :: "bool \<Rightarrow> edge list \<Rightarrow> string list \<Rightarrow> cell \<Rightarrow> cell" where
  "cut_cell right bins labels c =
     (case cell_real c of
        None \<Rightarrow> NA
      | Some x \<Rightarrow> (case find_bin right bins labels x of None \<Rightarrow> NA | Some l \<Rightarrow> S l))"

definition pd_cut :: "series \<Rightarrow> edge list \<Rightarrow> string list \<Rightarrow> bool \<Rightarrow> error + series" where
  "pd_cut s bins labels right =
     (if \<not> is_numeric (dtype_of s) then Inl TypeError
      else if \<not> strictly_increasing bins then Inl ValueError
      else if length labels + 1 \<noteq> length bins then Inl ValueError
      else Inr \<lparr>dtype_of = Category labels, cells = map (cut_cell right bins labels) (cells s)\<rparr>)"

text \<open>\<^verbatim>\<open>s.quantile(q)\<close> for \<open>q\<close> between 0 and 1: the missing cells are skipped, the
  values are sorted, and the result is interpolated linearly between the two values around
  position \<open>q * (n - 1)\<close>. A column without values gives NaN, here \<open>None\<close>.\<close>

definition quantile_values :: "real list \<Rightarrow> real \<Rightarrow> real option" where
  "quantile_values xs q =
     (if xs = [] then None
      else (let h = q * real (length xs - 1); lo = nat \<lfloor>h\<rfloor>; hi = nat \<lceil>h\<rceil>
            in Some (xs ! lo + (h - real lo) * (xs ! hi - xs ! lo))))"

definition quantile :: "series \<Rightarrow> real \<Rightarrow> error + real option" where
  "quantile s q =
     (if \<not> is_numeric (dtype_of s) then Inl TypeError
      else Inr (quantile_values (sort (List.map_filter cell_real (cells s))) q))"

text \<open>The product of two numeric columns, cell by cell: integer when both columns are, a
  float otherwise; missing where a factor is missing. The product of two 64-bit integers
  wraps around.\<close>

definition wrap_int64 :: "int \<Rightarrow> int" where
  "wrap_int64 n = (n + 2 ^ 63) mod 2 ^ 64 - 2 ^ 63"

fun mul_cell :: "bool \<Rightarrow> cell \<Rightarrow> cell \<Rightarrow> cell" where
  "mul_cell True (N (I a)) (N (I b)) = N (I (wrap_int64 (a * b)))"
| "mul_cell ints (N a) (N b) = N (F (to_float a * to_float b))"
| "mul_cell ints a b = NA"

definition mul_series :: "series \<Rightarrow> series \<Rightarrow> series" where
  "mul_series a b =
     (let ints = (dtype_of a = Int64 \<and> dtype_of b = Int64)
      in \<lparr>dtype_of = (if ints then Int64 else Float64),
          cells = map (\<lambda>(x, y). mul_cell ints x y) (zip (cells a) (cells b))\<rparr>)"

definition bins_tenure :: "edge list" where
  "bins_tenure = [Fin 0, Fin 13, Fin 25, Fin 49, Fin 61, PosInf]"

definition labels_tenure :: "string list" where
  "labels_tenure = [''0-12'', ''13-24'', ''25-48'', ''49-60'', ''60+'']"

definition labels_monthly :: "string list" where
  "labels_monthly = [''low'', ''medium'', ''high'']"

text \<open>The monthly-charge cut with its two fitted thresholds; a threshold that is NaN
  makes the edges invalid.\<close>

definition cut_monthly :: "series \<Rightarrow> real option \<Rightarrow> real option \<Rightarrow> error + series" where
  "cut_monthly s q33 q66 =
     (case (q33, q66) of
        (Some a, Some b) \<Rightarrow> pd_cut s [NegInf, Fin a, Fin b, PosInf] labels_monthly True
      | _ \<Rightarrow> Inl ValueError)"

definition add_engineered_features :: "dataframe \<Rightarrow> error + dataframe" where
  "add_engineered_features df =
     bind_err (get_col df ''tenure'') (\<lambda>ten.
     bind_err (pd_cut ten bins_tenure labels_tenure False) (\<lambda>tenure_group.
     let df1 = AList.update ''tenure_group'' tenure_group df in
     bind_err (get_col df1 ''MonthlyCharges'') (\<lambda>mc.
     bind_err (quantile mc (33 / 100)) (\<lambda>q33.
     bind_err (quantile mc (66 / 100)) (\<lambda>q66.
     bind_err (cut_monthly mc q33 q66) (\<lambda>bucket.
     let df2 = AList.update ''monthly_charges_bucket'' bucket df1 in
     bind_err (get_col df2 ''tenure'') (\<lambda>ten2.
     bind_err (get_col df2 ''MonthlyCharges'') (\<lambda>mc2.
     Inr (AList.update ''total_spend'' (mul_series ten2 mc2) df2)))))))))"

text \<open>The table that feature engineering returns when it returns, written out: the input
  with the tenure-group, monthly-charge-bucket and total-spend columns assigned in this order
  (lemma \<open>add_engineered_features_Inr\<close> below).\<close>

definition engineered :: "dataframe \<Rightarrow> series \<Rightarrow> series \<Rightarrow> real \<Rightarrow> real \<Rightarrow> dataframe" where
  "engineered df ten mc a b =
     AList.update ''total_spend'' (mul_series ten mc)
       (AList.update ''monthly_charges_bucket''
          \<lparr>dtype_of = Category labels_monthly,
           cells = map (cut_cell True [NegInf, Fin a, Fin b, PosInf] labels_monthly) (cells mc)\<rparr>
          (AList.update ''tenure_group''
             \<lparr>dtype_of = Category labels_tenure,
              cells = map (cut_cell False bins_tenure labels_tenure) (cells ten)\<rparr> df))"

subsection \<open>Binary and categorical encoding\<close>

definition binary_cols :: "string list" where
  "binary_cols = [''gender'', ''Partner'', ''Dependents'', ''PhoneService'', ''PaperlessBilling'',
     ''OnlineSecurity'', ''OnlineBackup'', ''DeviceProtection'', ''TechSupport'', ''StreamingTV'',
     ''StreamingMovies'']"

text \<open>Both branches of the loop body assign the same column, so the test on the column's
  unique values has no effect.\<close>

definition encode_binary_columns :: "dataframe \<Rightarrow> dataframe" where
  "encode_binary_columns df =
     fold (\<lambda>col d. case map_of d col of None \<Rightarrow> d | Some s \<Rightarrow> AList.update col (eq_yes s) d)
       binary_cols df"

definition categorical_cols :: "string list" where
  "categorical_cols = [''Contract'', ''InternetService'', ''PaymentMethod'', ''MultipleLines'',
     ''tenure_group'', ''monthly_charges_bucket'']"

text \<open>\<^verbatim>\<open>pd.get_dummies(df, columns, drop_first=False, dtype=int)\<close>: the named columns
  are removed and, after the columns that stay, each of them contributes one 0/1 column per
  level, named \<^verbatim>\<open>column_level\<close>. The levels of a text column are its distinct values in
  sorted order; the levels of a categorical column are all its categories, observed or not.
  A missing cell has 0 in every indicator.\<close>

definition levels :: "series \<Rightarrow> string list" where
  "levels s =
     (case dtype_of s of
        Category cats \<Rightarrow> cats
      | _ \<Rightarrow> sort (remdups (List.map_filter cell_label (cells s))))"

definition indicator :: "series \<Rightarrow> string \<Rightarrow> series" where
  "indicator s l = \<lparr>dtype_of = Int64, cells = map (\<lambda>c. N (I (if c = S l then 1 else 0))) (cells s)\<rparr>"

definition dummies :: "string \<Rightarrow> series \<Rightarrow> dataframe" where
  "dummies prefix s = map (\<lambda>l. (prefix @ ''_'' @ l, indicator s l)) (levels s)"

definition get_dummies :: "dataframe \<Rightarrow> string list \<Rightarrow> dataframe" where
  "get_dummies df columns =
     filter (\<lambda>p. fst p \<notin> set columns) df @
     concat (map (\<lambda>c. case map_of df c of None \<Rightarrow> [] | Some s \<Rightarrow> dummies c s) columns)"

definition is_object_or_category :: "dtype \<Rightarrow> bool" where
  "is_object_or_category d = (case d of Object \<Rightarrow> True | Category cats \<Rightarrow> True | _ \<Rightarrow> False)"

definition to_encode :: "dataframe \<Rightarrow> string list" where
  "to_encode df =
     filter (\<lambda>c. case map_of df c of None \<Rightarrow> False | Some s \<Rightarrow> is_object_or_category (dtype_of s))
       categorical_cols"

definition one_hot_encode_categorical :: "dataframe \<Rightarrow> dataframe" where
  "one_hot_encode_categorical df =
     (if to_encode df = [] then df else get_dummies df (to_encode df))"

text \<open>Steps 3 to 5 of \<^verbatim>\<open>preprocess\<close>: feature engineering, binary encoding and
  one-hot encoding, before any scaling.\<close>

definition engineer_and_encode :: "dataframe \<Rightarrow> error + dataframe" where
  "engineer_and_encode df =
     bind_err (add_engineered_features df) (\<lambda>d.
     Inr (one_hot_encode_categorical (encode_binary_columns d)))"

text \<open>The cell of the encoded table in a given column and row.\<close>

definition encoded_cell :: "dataframe \<Rightarrow> string \<Rightarrow> nat \<Rightarrow> error + cell option" where
  "encoded_cell df c i = bind_err (engineer_and_encode df) (\<lambda>out. Inr (cell_at out c i))"

subsection \<open>The bucket rules as the specification words them\<close>

text \<open>The five fixed half-open tenure bins [0,13), [13,25), [25,49), [49,61), [61,\<infinity>);
  a negative tenure is in none.\<close>

definition tenure_bin :: "int \<Rightarrow> string option" where
  "tenure_bin t =
     (if 0 \<le> t \<and> t < 13 then Some ''0-12''
      else if 13 \<le> t \<and> t < 25 then Some ''13-24''
      else if 25 \<le> t \<and> t < 49 then Some ''25-48''
      else if 49 \<le> t \<and> t < 61 then Some ''49-60''
      else if 61 \<le> t then Some ''60+''
      else None)"

text \<open>The order low < medium < high of the monthly-charge buckets.\<close>

definition bucket_rank :: "string \<Rightarrow> nat" where
  "bucket_rank b = (if b = ''low'' then 0 else if b = ''medium'' then 1 else 2)"

subsection \<open>A training-time row and the request that carries its values\<close>

text \<open>The columns of the cleaned dataset: the eleven binary columns, the four categorical
  columns and the three numeric columns the pipeline names, the 0/1 column
  \<^verbatim>\<open>SeniorCitizen\<close> and the label.\<close>

definition telco_columns :: "string list" where
  "telco_columns = [''gender'', ''SeniorCitizen'', ''Partner'', ''Dependents'', ''tenure'',
     ''PhoneService'', ''MultipleLines'', ''InternetService'', ''OnlineSecurity'', ''OnlineBackup'',
     ''DeviceProtection'', ''TechSupport'', ''StreamingTV'', ''StreamingMovies'', ''Contract'',
     ''PaperlessBilling'', ''PaymentMethod'', ''MonthlyCharges'', ''TotalCharges'', ''Churn'']"

definition has_dtype :: "dataframe \<Rightarrow> string \<Rightarrow> dtype \<Rightarrow> bool" where
  "has_dtype df c d = (map_option dtype_of (map_of df c) = Some d)"

text \<open>A table with no column beyond those of the dataset, whose tenure column holds
  integers, whose monthly-charge column holds floats, and whose four categorical columns hold
  text.\<close>

definition telco_table :: "dataframe \<Rightarrow> bool" where
  "telco_table df =
     (list_all (\<lambda>c. c \<in> set telco_columns) (map fst df)
      \<and> has_dtype df ''tenure'' Int64 \<and> has_dtype df ''MonthlyCharges'' Float64
      \<and> has_dtype df ''Contract'' Object \<and> has_dtype df ''InternetService'' Object
      \<and> has_dtype df ''PaymentMethod'' Object \<and> has_dtype df ''MultipleLines'' Object)"

text \<open>The request carries the attribute values of row \<open>i\<close> of the table.\<close>

definition same_attributes :: "dataframe \<Rightarrow> nat \<Rightarrow> PredictRequest \<Rightarrow> bool" where
  "same_attributes df i req =
     (cell_at df ''tenure'' i = Some (N (I (tenure req)))
      \<and> cell_at df ''MonthlyCharges'' i = Some (N (F (monthly_charges req)))
      \<and> cell_at df ''Contract'' i = Some (S (contract req))
      \<and> cell_at df ''InternetService'' i = Some (S (internet_service req))
      \<and> cell_at df ''PaymentMethod'' i = Some (S (payment_method req))
      \<and> cell_at df ''PaperlessBilling'' i = Some (S (paperless_billing req))
      \<and> cell_at df ''TechSupport'' i = Some (S (tech_support req))
      \<and> cell_at df ''OnlineSecurity'' i = Some (S (online_security req))
      \<and> cell_at df ''gender'' i = Some (S (gender req))
      \<and> cell_at df ''SeniorCitizen'' i = Some (N (I (senior_citizen req)))
      \<and> cell_at df ''Partner'' i = Some (S (partner req))
      \<and> cell_at df ''Dependents'' i = Some (S (dependents req))
      \<and> cell_at df ''PhoneService'' i = Some (S (phone_service req))
      \<and> cell_at df ''OnlineBackup'' i = Some (S (online_backup req))
      \<and> cell_at df ''DeviceProtection'' i = Some (S (device_protection req))
      \<and> cell_at df ''StreamingTV'' i = Some (S (streaming_tv req))
      \<and> cell_at df ''StreamingMovies'' i = Some (S (streaming_movies req))
      \<and> cell_at df ''MultipleLines'' i = Some (S (multiple_lines req)))"

text \<open>The fourteen feature columns of the encoded table other than the indicator columns,
  \<^verbatim>\<open>gender\<close> and \<^verbatim>\<open>TotalCharges\<close>.\<close>

definition plain_feature_columns :: "string list" where
  "plain_feature_columns = [''SeniorCitizen'', ''Partner'', ''Dependents'', ''tenure'',
     ''PhoneService'', ''OnlineSecurity'', ''OnlineBackup'', ''DeviceProtection'', ''TechSupport'',
     ''StreamingTV'', ''StreamingMovies'', ''PaperlessBilling'', ''MonthlyCharges'', ''total_spend'']"

text \<open>The values the categorical and yes/no attributes take in the dataset, as the request
  schema and the pipeline's comments list them.\<close>

definition yes_no_values :: "string list" where
  "yes_no_values = [''Yes'', ''No'', ''No internet service'']"

definition training_vocabulary :: "PredictRequest \<Rightarrow> bool" where
  "training_vocabulary req =
     (contract req \<in> set [''Month-to-month'', ''One year'', ''Two year'']
      \<and> internet_service req \<in> set [''DSL'', ''Fiber optic'', ''No'']
      \<and> payment_method req \<in> set [''Bank transfer (automatic)'', ''Credit card (automatic)'',
           ''Electronic check'', ''Mailed check'']
      \<and> multiple_lines req \<in> set [''No'', ''Yes'', ''No phone service'']
      \<and> list_all (\<lambda>v. v \<in> set yes_no_values)
           [partner req, dependents req, phone_service req, online_security req, online_backup req,
            device_protection req, tech_support req, streaming_tv req, streaming_movies req,
            paperless_billing req])"

subsection \<open>The documented payment-method policy\<close>

text \<open>The fallback policy as the specification words it, from the payment-method text to
  the indicator column it selects: "Bank transfer", or "automatic" together with "Bank",
  selects the bank-transfer column; "Credit card" the credit-card column; "Electronic" the
  electronic-check column; "Mailed" the mailed-check column; anything else the
  electronic-check column.\<close>

definition payment_policy :: "string \<Rightarrow> string" where
  "payment_policy pm =
     (if str_in ''Bank transfer'' pm \<or> (str_in ''automatic'' pm \<and> str_in ''Bank'' pm)
        then ''PaymentMethod_Bank transfer (automatic)''
      else if str_in ''Credit card'' pm then ''PaymentMethod_Credit card (automatic)''
      else if str_in ''Electronic'' pm then ''PaymentMethod_Electronic check''
      else if str_in ''Mailed'' pm then ''PaymentMethod_Mailed check''
      else ''PaymentMethod_Electronic check'')"

subsection \<open>Example inputs\<close>

text \<open>The request of the specification's end-to-end example, a request whose categorical
  values are all unknown to the service, a loaded state with a three-column manifest and
  a model that answers 0.496 whatever the vector, and the same state with a model that
  answers 0.873.\<close>

definition example_request :: PredictRequest where
  "example_request = request_with_defaults 5 70 ''Month-to-month'' ''Fiber optic'' ''Electronic check''"

definition unknown_request :: PredictRequest where
  "unknown_request = (request_with_defaults 5 70 ''Three year'' ''Satellite'' ''Direct Debit'')
     \<lparr>multiple_lines := ''Two lines''\<rparr>"

definition example_state :: app_state where
  "example_state =
     \<lparr>st_model = Some (\<lambda>X. Inr (62 / 125)),
      st_scaler = Some \<lparr>sc_mean = [30, 60, 2000, 2000], sc_scale = [20, 30, 2000, 2000]\<rparr>,
      st_feature_columns = Some [''tenure'', ''Contract_One year'', ''MultipleLines_No''],
      st_q33 = Some 30, st_q66 = Some 80\<rparr>"

definition confident_state :: app_state where
  "confident_state = example_state\<lparr>st_model := Some (\<lambda>X. Inr (873 / 1000))\<rparr>"

text \<open>A cleaned three-row table with the columns of the dataset, whose first row carries
  the values of the example request, and a two-column table whose monthly charges make the
  two fitted thresholds coincide.\<close>

definition text_column :: "string list \<Rightarrow> series" where
  "text_column vs = \<lparr>dtype_of = Object, cells = map S vs\<rparr>"

definition int_column :: "int list \<Rightarrow> series" where
  "int_column vs = \<lparr>dtype_of = Int64, cells = map (\<lambda>v. N (I v)) vs\<rparr>"

definition float_column :: "real list \<Rightarrow> series" where
  "float_column vs = \<lparr>dtype_of = Float64, cells = map (\<lambda>v. N (F v)) vs\<rparr>"

definition example_table :: dataframe where
  "example_table =
     [(''gender'', text_column [''Male'', ''Female'', ''Male'']),
      (''SeniorCitizen'', int_column [0, 1, 0]),
      (''Partner'', text_column [''No'', ''Yes'', ''No'']),
      (''Dependents'', text_column [''No'', ''No'', ''Yes'']),
      (''tenure'', int_column [5, 30, 72]),
      (''PhoneService'', text_column [''Yes'', ''No'', ''Yes'']),
      (''MultipleLines'', text_column [''No'', ''No phone service'', ''Yes'']),
      (''InternetService'', text_column [''Fiber optic'', ''DSL'', ''No'']),
      (''OnlineSecurity'', text_column [''No'', ''Yes'', ''No internet service'']),
      (''OnlineBackup'', text_column [''No'', ''No'', ''No internet service'']),
      (''DeviceProtection'', text_column [''No'', ''Yes'', ''No internet service'']),
      (''TechSupport'', text_column [''No'', ''No'', ''No internet service'']),
      (''StreamingTV'', text_column [''No'', ''No'', ''No internet service'']),
      (''StreamingMovies'', text_column [''No'', ''Yes'', ''No internet service'']),
      (''Contract'', text_column [''Month-to-month'', ''One year'', ''Two year'']),
      (''PaperlessBilling'', text_column [''Yes'', ''No'', ''No'']),
      (''PaymentMethod'', text_column [''Electronic check'', ''Mailed check'', ''Credit card (automatic)'']),
      (''MonthlyCharges'', float_column [70, 20, 100]),
      (''TotalCharges'', float_column [701 / 2, 610, 7000]),
      (''Churn'', text_column [''Yes'', ''No'', ''No''])]"

text \<open>A raw total-charge column with a blank cell, and a reader of the numbers that occur
  in it.\<close>

definition raw_charges_table :: dataframe where
  "raw_charges_table =
     [(''customerID'', text_column [''a'', ''b'', ''c'', ''d'']),
      (''TotalCharges'', text_column [''350.5'', '' '', ''610'', ''7000''])]"

definition example_parse :: "string \<Rightarrow> number option" where
  "example_parse x =
     (if x = ''350.5'' then Some (F (701 / 2))
      else if x = ''610'' then Some (I 610)
      else if x = ''7000'' then Some (I 7000)
      else None)"

definition tied_table :: dataframe where
  "tied_table =
     [(''tenure'', int_column [1, 2, 3, 4, 5]),
      (''MonthlyCharges'', float_column [20, 50, 50, 50, 90])]"

section \<open>Properties\<close>

subsection \<open>Looking a column up in the feature row\<close>

text \<open>Each encoding step of \<^verbatim>\<open>build_feature_row\<close> writes only columns that carry its
  own prefix, so a column's value is decided by the step that owns the prefix.\<close>

lemma zero_fill_apply: "zero_fill cs r k = (if k \<in> set cs then Some (I 0) else r k)"
  unfolding zero_fill_def by (induction cs arbitrary: r) auto

lemma startswith_iff: "startswith s p \<longleftrightarrow> (\<exists>t. s = p @ t)"
  by (induction s p rule: startswith.induct) auto

lemma encode_contract_apply:
  "encode_contract req r k =
     (if k = ''Contract_'' @ strip (contract req) \<and> (k \<in> set contract_columns \<or> r k \<noteq> None) then Some (I 1)
      else if k \<in> set contract_columns then Some (I 0) else r k)"
  by (simp add: encode_contract_def Let_def zero_fill_apply)

lemma encode_internet_apply:
  "encode_internet req r k =
     (if k = ''InternetService_'' @ strip (internet_service req) \<and> (k \<in> set internet_columns \<or> r k \<noteq> None) then Some (I 1)
      else if k \<in> set internet_columns then Some (I 0) else r k)"
  by (simp add: encode_internet_def Let_def zero_fill_apply)

lemma encode_tenure_group_apply:
  "encode_tenure_group g r k =
     (if k = ''tenure_group_'' @ g then Some (I 1)
      else if k \<in> set tenure_group_columns then Some (I 0) else r k)"
  by (simp add: encode_tenure_group_def zero_fill_apply)

lemma encode_bucket_apply:
  "encode_bucket b r k =
     (if k = ''monthly_charges_bucket_'' @ b then Some (I 1)
      else if k \<in> set bucket_columns then Some (I 0) else r k)"
  by (simp add: encode_bucket_def zero_fill_apply)

lemma encode_tenure_group_other:
  "\<not> startswith k ''tenure_group_'' \<Longrightarrow> encode_tenure_group g r k = r k"
  by (auto simp: encode_tenure_group_apply startswith_iff tenure_group_columns_def)

lemma encode_bucket_other:
  "\<not> startswith k ''monthly_charges_bucket_'' \<Longrightarrow> encode_bucket g r k = r k"
  by (auto simp: encode_bucket_apply startswith_iff bucket_columns_def)

lemma encode_contract_other:
  "\<not> startswith k ''Contract_'' \<Longrightarrow> encode_contract req r k = r k"
  by (auto simp: encode_contract_apply startswith_iff contract_columns_def)

lemma encode_internet_other:
  "\<not> startswith k ''InternetService_'' \<Longrightarrow> encode_internet req r k = r k"
  by (auto simp: encode_internet_apply startswith_iff internet_columns_def)

lemma encode_payment_notin: "k \<notin> set payment_columns \<Longrightarrow> encode_payment req r k = r k"
  by (simp add: encode_payment_def Let_def zero_fill_apply payment_columns_def)

lemma encode_lines_notin: "k \<notin> set lines_columns \<Longrightarrow> encode_lines req r k = r k"
  by (simp add: encode_lines_def Let_def zero_fill_apply lines_columns_def)

lemma encode_payment_other:
  "\<not> startswith k ''PaymentMethod_'' \<Longrightarrow> encode_payment req r k = r k"
  by (rule encode_payment_notin) (auto simp: startswith_iff payment_columns_def)

lemma encode_lines_other:
  "\<not> startswith k ''MultipleLines_'' \<Longrightarrow> encode_lines req r k = r k"
  by (rule encode_lines_notin) (auto simp: startswith_iff lines_columns_def)

lemmas encode_other = encode_tenure_group_other encode_bucket_other encode_contract_other
  encode_internet_other encode_payment_other encode_lines_other


lemma startswith_disjoint:
  "startswith k p \<Longrightarrow> \<not> startswith p q \<Longrightarrow> \<not> startswith q p \<Longrightarrow> \<not> startswith k q"
  unfolding startswith_iff by (metis append_eq_append_conv2)

lemma row_base:
  "\<not> startswith k ''Contract_'' \<Longrightarrow> \<not> startswith k ''InternetService_'' \<Longrightarrow>
   \<not> startswith k ''PaymentMethod_'' \<Longrightarrow> \<not> startswith k ''MultipleLines_'' \<Longrightarrow>
   \<not> startswith k ''tenure_group_'' \<Longrightarrow> \<not> startswith k ''monthly_charges_bucket_'' \<Longrightarrow>
   build_feature_row req q33 q66 k = base_row req k"
  by (simp add: build_feature_row_def Let_def encode_other)

lemma row_contract:
  assumes "startswith k ''Contract_''"
  shows "build_feature_row req q33 q66 k = encode_contract req (base_row req) k"
proof -
  have "\<not> startswith k ''InternetService_''" "\<not> startswith k ''PaymentMethod_''"
    "\<not> startswith k ''MultipleLines_''" "\<not> startswith k ''tenure_group_''"
    "\<not> startswith k ''monthly_charges_bucket_''"
    by (rule startswith_disjoint [OF assms]; simp)+
  then show ?thesis
    by (simp add: build_feature_row_def Let_def encode_other)
qed

lemma row_internet:
  assumes "startswith k ''InternetService_''"
  shows "build_feature_row req q33 q66 k = encode_internet req (encode_contract req (base_row req)) k"
proof -
  have "\<not> startswith k ''PaymentMethod_''"
    "\<not> startswith k ''MultipleLines_''" "\<not> startswith k ''tenure_group_''"
    "\<not> startswith k ''monthly_charges_bucket_''"
    by (rule startswith_disjoint [OF assms]; simp)+
  then show ?thesis
    by (simp add: build_feature_row_def Let_def encode_other)
qed

lemma row_payment:
  assumes "startswith k ''PaymentMethod_''"
  shows "build_feature_row req q33 q66 k =
    encode_payment req (encode_internet req (encode_contract req (base_row req))) k"
proof -
  have "\<not> startswith k ''MultipleLines_''" "\<not> startswith k ''tenure_group_''"
    "\<not> startswith k ''monthly_charges_bucket_''"
    by (rule startswith_disjoint [OF assms]; simp)+
  then show ?thesis
    by (simp add: build_feature_row_def Let_def encode_other)
qed

lemma row_lines:
  assumes "startswith k ''MultipleLines_''"
  shows "build_feature_row req q33 q66 k =
    encode_lines req (encode_payment req (encode_internet req (encode_contract req (base_row req)))) k"
proof -
  have "\<not> startswith k ''tenure_group_''" "\<not> startswith k ''monthly_charges_bucket_''"
    by (rule startswith_disjoint [OF assms]; simp)+
  then show ?thesis
    by (simp add: build_feature_row_def Let_def encode_other)
qed

lemma row_tenure_group:
  assumes "startswith k ''tenure_group_''"
  shows "build_feature_row req q33 q66 k =
    encode_tenure_group (bucket_tenure (tenure req))
      (encode_lines req (encode_payment req (encode_internet req (encode_contract req (base_row req))))) k"
proof -
  have "\<not> startswith k ''monthly_charges_bucket_''"
    by (rule startswith_disjoint [OF assms]; simp)+
  then show ?thesis
    by (simp add: build_feature_row_def Let_def encode_other)
qed

lemma row_bucket:
  "build_feature_row req q33 q66 k =
    encode_bucket (bucket_monthly (monthly_charges req) q33 q66)
      (encode_tenure_group (bucket_tenure (tenure req))
      (encode_lines req (encode_payment req (encode_internet req (encode_contract req (base_row req)))))) k"
  by (simp add: build_feature_row_def Let_def)


lemma row_total_charges:
  "build_feature_row req q33 q66 ''TotalCharges'' = Some (F (real_of_int (tenure req) * monthly_charges req))"
  by (simp add: row_base base_row_def Let_def)

lemma row_total_spend:
  "build_feature_row req q33 q66 ''total_spend'' = Some (F (real_of_int (tenure req) * monthly_charges req))"
  by (simp add: row_base base_row_def Let_def)

lemma row_tenure: "build_feature_row req q33 q66 ''tenure'' = Some (I (tenure req))"
  by (simp add: row_base base_row_def Let_def)

lemma row_monthly: "build_feature_row req q33 q66 ''MonthlyCharges'' = Some (F (monthly_charges req))"
  by (simp add: row_base base_row_def Let_def)


lemma base_row_prefix_None:
  "base_row req (''Contract_'' @ t) = None" "base_row req (''InternetService_'' @ t) = None"
  by (simp_all add: base_row_def Let_def)

lemma row_contract_columns:
  "map (build_feature_row req q33 q66) contract_columns =
     map (\<lambda>k. Some (I (if k = ''Contract_'' @ strip (contract req) then 1 else 0))) contract_columns"
  by (simp add: contract_columns_def row_contract encode_contract_apply)

lemma row_internet_columns:
  "map (build_feature_row req q33 q66) internet_columns =
     map (\<lambda>k. Some (I (if k = ''InternetService_'' @ strip (internet_service req) then 1 else 0))) internet_columns"
  by (simp add: internet_columns_def row_internet encode_internet_apply)

lemma row_lines_columns:
  "map (build_feature_row req q33 q66) lines_columns =
   (let ml = lower (strip (multiple_lines req))
    in if str_in ''no phone'' ml then [Some (I 0), Some (I 1), Some (I 0)]
       else if ml = ''yes'' then [Some (I 0), Some (I 0), Some (I 1)]
       else [Some (I 1), Some (I 0), Some (I 0)])"
  by (simp add: lines_columns_def row_lines encode_lines_def Let_def zero_fill_apply)

subsection \<open>The payment-method step\<close>

lemma startswith_append_left: "startswith s (p @ q) \<Longrightarrow> startswith s p"
  by (auto simp: startswith_iff)

lemma str_in_prefix: "str_in (p @ q) s \<Longrightarrow> str_in p s"
  by (induction s) (auto dest: startswith_append_left)

lemma credit_card_sub: "str_in ''Credit card (automatic)'' pm \<Longrightarrow> str_in ''Credit card'' pm"
  using str_in_prefix [of "''Credit card''" "'' (automatic)''" pm] by simp

lemma encode_payment_update:
  "encode_payment req r = (zero_fill payment_columns r)(payment_policy (strip (payment_method req)) \<mapsto> I 1)"
  using credit_card_sub [of "strip (payment_method req)"]
  by (simp add: encode_payment_def payment_policy_def Let_def)

lemma encode_payment_apply:
  "encode_payment req r k =
     (if k = payment_policy (strip (payment_method req)) then Some (I 1)
      else if k \<in> set payment_columns then Some (I 0) else r k)"
  by (simp add: encode_payment_update zero_fill_apply)

lemma payment_policy_in: "payment_policy pm \<in> set payment_columns"
  by (simp add: payment_policy_def payment_columns_def)


lemma row_payment_columns:
  "map (build_feature_row req q33 q66) payment_columns =
     map (\<lambda>k. Some (I (if k = payment_policy (strip (payment_method req)) then 1 else 0))) payment_columns"
proof -
  have "\<forall>k \<in> set payment_columns. startswith k ''PaymentMethod_''"
    by (simp add: payment_columns_def)
  then show ?thesis
    by (simp add: row_payment encode_payment_apply)
qed

lemma one_payment_column:
  "length (filter (\<lambda>k. build_feature_row req q33 q66 k = Some (I 1)) payment_columns) = 1"
proof -
  have "\<forall>k \<in> set payment_columns. startswith k ''PaymentMethod_''"
    by (simp add: payment_columns_def)
  then have "filter (\<lambda>k. build_feature_row req q33 q66 k = Some (I 1)) payment_columns
      = filter (\<lambda>k. k = payment_policy (strip (payment_method req))) payment_columns"
    by (intro filter_cong) (auto simp: row_payment encode_payment_apply)
  also have "length \<dots> = 1"
    by (simp add: payment_policy_def payment_columns_def)
  finally show ?thesis .
qed

lemma strip_direct_debit: "strip ''Direct Debit'' = ''Direct Debit''"
  by code_simp

lemma policy_direct_debit: "payment_policy ''Direct Debit'' = ''PaymentMethod_Electronic check''"
  by code_simp


lemma str_in_iff: "str_in p s \<longleftrightarrow> (\<exists>u v. s = u @ p @ v)"
proof (induction s)
  case Nil
  show ?case by auto
next
  case (Cons c cs)
  show ?case
  proof
    assume "str_in p (c # cs)"
    then consider "startswith (c # cs) p" | "str_in p cs" by auto
    then show "\<exists>u v. c # cs = u @ p @ v"
    proof cases
      case 1
      then obtain t where "c # cs = p @ t" by (auto simp: startswith_iff)
      then have "c # cs = [] @ p @ t" by simp
      then show ?thesis by blast
    next
      case 2
      with Cons obtain u v where "cs = u @ p @ v" by blast
      then have "c # cs = (c # u) @ p @ v" by simp
      then show ?thesis by blast
    qed
  next
    assume "\<exists>u v. c # cs = u @ p @ v"
    then obtain u v where uv: "c # cs = u @ p @ v" by blast
    show "str_in p (c # cs)"
    proof (cases u)
      case Nil
      with uv have "startswith (c # cs) p" by (auto simp: startswith_iff)
      then show ?thesis by simp
    next
      case (Cons a u')
      with uv have "cs = u' @ p @ v" by simp
      with Cons.IH have "str_in p cs" by blast
      then show ?thesis by simp
    qed
  qed
qed

lemma str_in_dropWhile:
  assumes "\<not> is_space c"
  shows "str_in (c # cs) (dropWhile is_space s) = str_in (c # cs) s"
proof (induction s)
  case Nil
  show ?case by simp
next
  case (Cons x xs)
  with assms show ?case by auto
qed

lemma str_in_rev: "str_in (rev p) (rev s) = str_in p s"
proof -
  have "str_in p s \<Longrightarrow> str_in (rev p) (rev s)" for p s
  proof -
    assume "str_in p s"
    then obtain u v where "s = u @ p @ v" by (auto simp: str_in_iff)
    then have "rev s = rev v @ rev p @ rev u" by simp
    then show "str_in (rev p) (rev s)" unfolding str_in_iff by blast
  qed
  from this [of p s] this [of "rev p" "rev s"] show ?thesis by auto
qed

lemma str_in_strip:
  assumes "p \<noteq> []" "\<not> is_space (hd p)" "\<not> is_space (last p)"
  shows "str_in p (strip s) = str_in p s"
proof -
  obtain c cs where p: "p = c # cs" using assms(1) by (cases p) auto
  obtain d ds where rp: "rev p = d # ds" using assms(1) by (cases "rev p") auto
  have d: "\<not> is_space d" using assms(1,3) rp by (simp add: last_rev [symmetric] hd_rev)
  have c: "\<not> is_space c" using assms(2) p by simp
  have "str_in p (strip s) = str_in (rev p) (dropWhile is_space (rev (dropWhile is_space s)))"
    unfolding strip_def using str_in_rev [of p "rev (dropWhile is_space (rev (dropWhile is_space s)))"]
    by simp
  also have "\<dots> = str_in (rev p) (rev (dropWhile is_space s))"
    unfolding rp by (rule str_in_dropWhile [OF d])
  also have "\<dots> = str_in p (dropWhile is_space s)"
    using str_in_rev [of p "dropWhile is_space s"] by simp
  also have "\<dots> = str_in p s"
    unfolding p by (rule str_in_dropWhile [OF c])
  finally show ?thesis .
qed

lemma payment_policy_strip: "payment_policy (strip s) = payment_policy s"
proof -
  have "str_in ''Bank transfer'' (strip s) = str_in ''Bank transfer'' s"
    by (rule str_in_strip) (simp_all add: is_space_def)
  moreover have "str_in ''automatic'' (strip s) = str_in ''automatic'' s"
    by (rule str_in_strip) (simp_all add: is_space_def)
  moreover have "str_in ''Bank'' (strip s) = str_in ''Bank'' s"
    by (rule str_in_strip) (simp_all add: is_space_def)
  moreover have "str_in ''Credit card'' (strip s) = str_in ''Credit card'' s"
    by (rule str_in_strip) (simp_all add: is_space_def)
  moreover have "str_in ''Electronic'' (strip s) = str_in ''Electronic'' s"
    by (rule str_in_strip) (simp_all add: is_space_def)
  moreover have "str_in ''Mailed'' (strip s) = str_in ''Mailed'' s"
    by (rule str_in_strip) (simp_all add: is_space_def)
  ultimately show ?thesis by (simp only: payment_policy_def)
qed


subsection \<open>The vector and the answer of the endpoint\<close>

lemma index_of_numerical: "c \<in> set numerical_cols \<Longrightarrow> index_of c numerical_cols < 4"
  by (auto simp: numerical_cols_def index_of_def)

lemma finite_float_small: "\<bar>x\<bar> \<le> 1 \<Longrightarrow> finite_float x"
  by (simp add: finite_float_def float_limit_def)

lemma np_array_length: "np_array vs = Inr xs \<Longrightarrow> length xs = length vs"
proof (induction vs arbitrary: xs)
  case Nil
  then show ?case by simp
next
  case (Cons v vs)
  then show ?case
    by (auto simp: bind_err_def split: sum.splits)
qed

lemma assemble_length: "assemble r scaled_num cs = Inr vs \<Longrightarrow> length vs = length cs"
proof (induction cs arbitrary: vs)
  case Nil
  then show ?case by simp
next
  case (Cons c cs)
  then show ?case
    by (auto simp: bind_err_def split: sum.splits)
qed

lemma np_array_map:
  assumes "\<forall>v \<in> set vs. np_float v = Inr (to_float v)"
  shows "np_array vs = Inr (map to_float vs)"
  using assms by (induction vs) (simp_all add: bind_err_def)

lemma np_float_F: "np_float (F x) = Inr (to_float (F x))"
  by (simp add: np_float_def)

lemma np_float_I: "finite_float (real_of_int n) \<Longrightarrow> np_float (I n) = Inr (to_float (I n))"
  by (simp add: np_float_def int_to_float_def)

lemma assemble_map:
  assumes "length scaled_num = 4"
  shows "assemble r scaled_num cs =
     Inr (map (\<lambda>c. if c \<in> set numerical_cols then F (scaled_num ! index_of c numerical_cols)
                      else row_get r c (I 0)) cs)"
proof (induction cs)
  case Nil
  show ?case by simp
next
  case (Cons c cs)
  show ?case
  proof (cases "c \<in> set numerical_cols")
    case True
    with assms index_of_numerical [of c]
    have "vector_entry r scaled_num c = Inr (F (scaled_num ! index_of c numerical_cols))"
      by (simp add: vector_entry_def Let_def)
    with True Cons show ?thesis by (simp add: bind_err_def)
  next
    case False
    then have "vector_entry r scaled_num c = Inr (row_get r c (I 0))"
      by (simp add: vector_entry_def)
    with False Cons show ?thesis by (simp add: bind_err_def)
  qed
qed

text \<open>Every encoding step writes 0 or 1 only, so a column of the row that is not one of the
  four numeric columns holds 0 or 1, for a request the schema accepts.\<close>

lemma small_simps: "small None" "small (Some (I 0))" "small (Some (I 1))"
  by (simp_all add: small_def)

lemma zero_fill_small: "small (r k) \<Longrightarrow> small (zero_fill cs r k)"
  by (simp add: zero_fill_apply small_simps)

lemma encode_contract_small: "small (r k) \<Longrightarrow> small (encode_contract req r k)"
  by (simp add: encode_contract_apply small_simps)

lemma encode_internet_small: "small (r k) \<Longrightarrow> small (encode_internet req r k)"
  by (simp add: encode_internet_apply small_simps)

lemma encode_payment_small: "small (r k) \<Longrightarrow> small (encode_payment req r k)"
  by (simp add: encode_payment_update zero_fill_apply small_simps)

lemma encode_lines_small: "small (r k) \<Longrightarrow> small (encode_lines req r k)"
  by (simp add: encode_lines_def Let_def zero_fill_apply small_simps lines_columns_def)

lemma encode_tenure_group_small: "small (r k) \<Longrightarrow> small (encode_tenure_group g r k)"
  by (simp add: encode_tenure_group_apply small_simps)

lemma encode_bucket_small: "small (r k) \<Longrightarrow> small (encode_bucket b r k)"
  by (simp add: encode_bucket_apply small_simps)

lemma base_row_small:
  assumes "valid_request req" "k \<notin> set numerical_cols"
  shows "small (base_row req k)"
proof -
  from assms(1) have "senior_citizen req = 0 \<or> senior_citizen req = 1"
    by (auto simp: valid_request_def)
  with assms(2) show ?thesis
    by (auto simp: base_row_def Let_def yes_no_def numerical_cols_def small_def)
qed

lemma row_small:
  assumes "valid_request req" "k \<notin> set numerical_cols"
  shows "small (build_feature_row req q33 q66 k)"
  unfolding build_feature_row_def Let_def
  by (intro encode_bucket_small encode_tenure_group_small encode_lines_small encode_payment_small
      encode_internet_small encode_contract_small base_row_small assms)

lemma row_get_small:
  assumes "valid_request req" "k \<notin> set numerical_cols"
  shows "np_float (row_get (build_feature_row req q33 q66) k (I 0)) =
     Inr (to_float (row_get (build_feature_row req q33 q66) k (I 0)))"
  using row_small [OF assms, of q33 q66]
  by (auto simp: small_def row_get_def np_float_I finite_float_small)

lemma build_feature_row_result_eq:
  "build_feature_row_result req q33 q66 =
     (if finite_float (real_of_int (tenure req)) then Inr (build_feature_row req q33 q66)
      else Inl OverflowError)"
  by (simp add: build_feature_row_result_def mul_int_float_def int_to_float_def bind_err_def)

lemma transform_four:
  assumes "length (sc_mean sc) = 4" "length (sc_scale sc) = 4"
  shows "transform sc [a, b, c, d] =
     (if finite_float a \<and> finite_float b \<and> finite_float c \<and> finite_float d
      then Inr (map (\<lambda>(x, m, s). (x - m) / s) (zip [a, b, c, d] (zip (sc_mean sc) (sc_scale sc))))
      else Inl ValueError)"
  using assms by (simp add: transform_def)

lemma transform_length: "transform sc xs = Inr ys \<Longrightarrow> length ys = length xs"
  by (auto simp: transform_def split: if_splits)

lemma feature_vector_length:
  assumes "feature_vector sc fc q33 q66 req = Inr X"
  shows "length X = length fc"
proof -
  from assms obtain r scaled_num X_list where
    "assemble r scaled_num fc = Inr X_list" "np_array X_list = Inr X"
    by (auto simp: feature_vector_def bind_err_def split: sum.splits)
  then show ?thesis
    using assemble_length np_array_length by fastforce
qed

lemma predict_vector_length:
  assumes "predict_vector st req = Inr X"
  shows "\<exists>fc. st_feature_columns st = Some fc \<and> length X = length fc"
  using assms feature_vector_length
  by (auto simp: predict_vector_def split: option.splits if_splits)

lemma feature_vector_cases:
  assumes "length (sc_mean sc) = 4" "length (sc_scale sc) = 4" and "valid_request req"
  shows "feature_vector sc fc q33 q66 req =
     (if \<not> finite_float (real_of_int (tenure req)) then Inl OverflowError
      else if \<not> finite_float (monthly_charges req)
              \<or> \<not> finite_float (real_of_int (tenure req) * monthly_charges req) then Inl ValueError
      else Inr (map (\<lambda>c. if c \<in> set numerical_cols
                 then map (\<lambda>(x, m, s). (x - m) / s)
                        (zip [real_of_int (tenure req), monthly_charges req,
                              real_of_int (tenure req) * monthly_charges req,
                              real_of_int (tenure req) * monthly_charges req]
                           (zip (sc_mean sc) (sc_scale sc))) ! index_of c numerical_cols
                 else to_float (row_get (build_feature_row req q33 q66) c (I 0))) fc))"
proof (cases "finite_float (real_of_int (tenure req))")
  case False
  then show ?thesis
    by (simp add: feature_vector_def build_feature_row_result_eq bind_err_def)
next
  case True
  let ?r = "build_feature_row req q33 q66"
  let ?xs = "[real_of_int (tenure req), monthly_charges req,
        real_of_int (tenure req) * monthly_charges req, real_of_int (tenure req) * monthly_charges req]"
  have arr: "np_array [I (tenure req), F (monthly_charges req),
       F (real_of_int (tenure req) * monthly_charges req),
       F (real_of_int (tenure req) * monthly_charges req)] = Inr ?xs"
    using True by (simp add: np_float_def int_to_float_def bind_err_def)
  have fv: "feature_vector sc fc q33 q66 req =
      bind_err (transform sc ?xs) (\<lambda>scaled_num.
      bind_err (assemble ?r scaled_num fc) np_array)"
    using True
    by (simp add: feature_vector_def build_feature_row_result_eq row_item_def row_tenure row_monthly
        row_total_charges row_total_spend arr bind_err_def del: np_array.simps)
  show ?thesis
  proof (cases "finite_float (monthly_charges req)
      \<and> finite_float (real_of_int (tenure req) * monthly_charges req)")
    case False
    with True show ?thesis
      unfolding fv transform_four [OF assms(1,2)] by (auto simp: bind_err_def)
  next
    case fin: True
    let ?ys = "map (\<lambda>(x, m, s). (x - m) / s) (zip ?xs (zip (sc_mean sc) (sc_scale sc)))"
    have t: "transform sc ?xs = Inr ?ys"
      using True fin unfolding transform_four [OF assms(1,2)] by simp
    have len: "length ?ys = 4"
      using assms(1,2) by simp
    let ?vs = "map (\<lambda>c. if c \<in> set numerical_cols then F (?ys ! index_of c numerical_cols)
                      else row_get ?r c (I 0)) fc"
    have "\<forall>v \<in> set ?vs. np_float v = Inr (to_float v)"
      using row_get_small [OF assms(3)] by (auto simp: np_float_F)
    then have "np_array ?vs = Inr (map to_float ?vs)"
      by (rule np_array_map)
    moreover have "map to_float ?vs =
        map (\<lambda>c. if c \<in> set numerical_cols then ?ys ! index_of c numerical_cols
                      else to_float (row_get ?r c (I 0))) fc"
      by simp
    ultimately show ?thesis
      using True fin unfolding fv t by (simp add: bind_err_def assemble_map [OF len])
  qed
qed


lemma round_half_even_bounds:
  "real_of_int (round_half_even x) - 1 / 2 \<le> x" "x \<le> real_of_int (round_half_even x) + 1 / 2"
proof -
  define f where "f = \<lfloor>x\<rfloor>"
  define d where "d = x - real_of_int f"
  have d: "0 \<le> d" "d < 1"
    unfolding d_def f_def by linarith+
  have r: "round_half_even x = (if d < 1 / 2 then f else if 1 / 2 < d then f + 1 else if even f then f else f + 1)"
    by (simp add: round_half_even_def Let_def f_def d_def)
  have x: "x = real_of_int f + d" by (simp add: d_def)
  consider (lo) "d < 1 / 2" | (hi) "1 / 2 < d" | (tie) "d = 1 / 2"
    by linarith
  then have "real_of_int (round_half_even x) - 1 / 2 \<le> x \<and> x \<le> real_of_int (round_half_even x) + 1 / 2"
  proof cases
    case lo
    then have "round_half_even x = f" by (simp add: r)
    with lo d x show ?thesis by linarith
  next
    case hi
    then have "round_half_even x = f + 1" by (simp add: r)
    with hi d x show ?thesis by simp
  next
    case tie
    then have "round_half_even x = f \<or> round_half_even x = f + 1" by (simp add: r)
    with tie x show ?thesis by auto
  qed
  then show "real_of_int (round_half_even x) - 1 / 2 \<le> x"
    and "x \<le> real_of_int (round_half_even x) + 1 / 2" by simp_all
qed

lemma round2_near: "\<bar>round2 x - x\<bar> \<le> 1 / 200"
proof -
  have h: "\<bar>real_of_int (round_half_even (x * 100)) - x * 100\<bar> \<le> 1 / 2"
    using round_half_even_bounds [of "x * 100"] by linarith
  have "round2 x - x = (real_of_int (round_half_even (x * 100)) - x * 100) / 100"
    by (simp add: round2_def diff_divide_distrib)
  then have "\<bar>round2 x - x\<bar> = \<bar>real_of_int (round_half_even (x * 100)) - x * 100\<bar> / 100"
    by (simp only: abs_divide abs_numeral)
  also have "\<dots> \<le> (1 / 2) / 100"
    by (rule divide_right_mono [OF h]) simp
  finally show ?thesis by simp
qed

lemma round_half_even_mono_int:
  assumes "real_of_int n \<le> x"
  shows "n \<le> round_half_even x"
proof -
  have "n \<le> \<lfloor>x\<rfloor>" using assms by (simp add: le_floor_iff)
  moreover have "\<lfloor>x\<rfloor> \<le> round_half_even x"
    by (simp add: round_half_even_def Let_def)
  ultimately show ?thesis by linarith
qed

lemma round_half_even_le_int:
  assumes "x \<le> real_of_int n"
  shows "round_half_even x \<le> n"
proof (cases "x = real_of_int n")
  case True
  then show ?thesis by (simp add: round_half_even_def Let_def)
next
  case False
  with assms have "x < real_of_int n" by simp
  then have "\<lfloor>x\<rfloor> < n" by (simp add: floor_less_iff)
  moreover have "round_half_even x \<le> \<lfloor>x\<rfloor> + 1"
    by (simp add: round_half_even_def Let_def)
  ultimately show ?thesis by linarith
qed

lemma round2_range:
  assumes "0 \<le> x" "x \<le> 1"
  shows "0 \<le> round2 x" "round2 x \<le> 1"
proof -
  have "0 \<le> round_half_even (x * 100)"
    using round_half_even_mono_int [of 0 "x * 100"] assms by simp
  then show "0 \<le> round2 x" by (simp add: round2_def)
  have "round_half_even (x * 100) \<le> 100"
    using round_half_even_le_int [of "x * 100" 100] assms by simp
  then have "real_of_int (round_half_even (x * 100)) \<le> 100" by linarith
  then show "round2 x \<le> 1" by (simp add: round2_def)
qed


section \<open>The claims\<close>

text \<open>C8. For every request the payment-method step sets exactly one of the four
  payment-method indicator columns to 1 and the other three to 0, and the column set is the
  one the documented fallback policy selects for the request's payment-method text; the text
  "Direct Debit" selects the electronic-check column.\<close>

theorem payment_method_encoding:
  "map (build_feature_row req q33 q66) payment_columns =
     map (\<lambda>k. Some (I (if k = payment_policy (payment_method req) then 1 else 0))) payment_columns
   \<and> payment_policy (payment_method req) \<in> set payment_columns
   \<and> length (filter (\<lambda>k. build_feature_row req q33 q66 k = Some (I 1)) payment_columns) = 1
   \<and> build_feature_row (req\<lparr>payment_method := ''Direct Debit''\<rparr>) q33 q66
        ''PaymentMethod_Electronic check'' = Some (I 1)"
proof -
  have "build_feature_row (req\<lparr>payment_method := ''Direct Debit''\<rparr>) q33 q66
        ''PaymentMethod_Electronic check'' = Some (I 1)"
    by (simp add: row_payment encode_payment_apply strip_direct_debit policy_direct_debit)
  then show ?thesis
    using row_payment_columns [of req q33 q66] payment_policy_in one_payment_column
    by (simp only: payment_policy_strip)
qed

theorem payment_method_encoding_witness:
  "map (build_feature_row unknown_request 30 80) payment_columns =
     [Some (I 0), Some (I 0), Some (I 1), Some (I 0)]"
proof -
  have "payment_policy (payment_method unknown_request) = ''PaymentMethod_Electronic check''"
    by code_simp
  then show ?thesis
    using payment_method_encoding [of unknown_request 30 80]
    by (simp add: payment_columns_def)
qed

text \<open>C7, as amended. A contract or internet-service value that names no known indicator
  column leaves the three indicator columns of that field at 0. The multiple-lines field is
  not zero-filled: exactly one of its three columns is always set to 1, "No phone service"
  when the stripped, lower-cased value contains "no phone", "Yes" when it is "yes", and the
  "No" column for every other value. The three steps have no error path: no value of these
  fields rejects the request.\<close>

theorem unknown_category_encoding:
  "(''Contract_'' @ strip (contract req) \<notin> set contract_columns \<longrightarrow>
      map (build_feature_row req q33 q66) contract_columns = [Some (I 0), Some (I 0), Some (I 0)])
   \<and> (''InternetService_'' @ strip (internet_service req) \<notin> set internet_columns \<longrightarrow>
      map (build_feature_row req q33 q66) internet_columns = [Some (I 0), Some (I 0), Some (I 0)])
   \<and> map (build_feature_row req q33 q66) lines_columns =
       (if str_in ''no phone'' (lower (strip (multiple_lines req)))
          then [Some (I 0), Some (I 1), Some (I 0)]
        else if lower (strip (multiple_lines req)) = ''yes''
          then [Some (I 0), Some (I 0), Some (I 1)]
        else [Some (I 1), Some (I 0), Some (I 0)])"
proof (intro conjI impI)
  assume "''Contract_'' @ strip (contract req) \<notin> set contract_columns"
  then show "map (build_feature_row req q33 q66) contract_columns = [Some (I 0), Some (I 0), Some (I 0)]"
    unfolding row_contract_columns by (auto simp: contract_columns_def)
next
  assume "''InternetService_'' @ strip (internet_service req) \<notin> set internet_columns"
  then show "map (build_feature_row req q33 q66) internet_columns = [Some (I 0), Some (I 0), Some (I 0)]"
    unfolding row_internet_columns by (auto simp: internet_columns_def)
next
  show "map (build_feature_row req q33 q66) lines_columns =
       (if str_in ''no phone'' (lower (strip (multiple_lines req)))
          then [Some (I 0), Some (I 1), Some (I 0)]
        else if lower (strip (multiple_lines req)) = ''yes''
          then [Some (I 0), Some (I 0), Some (I 1)]
        else [Some (I 1), Some (I 0), Some (I 0)])"
    using row_lines_columns [of req q33 q66] by (simp add: Let_def)
qed

theorem unknown_category_encoding_witness:
  "''Contract_'' @ strip (contract unknown_request) \<notin> set contract_columns
   \<and> ''InternetService_'' @ strip (internet_service unknown_request) \<notin> set internet_columns
   \<and> map (build_feature_row unknown_request 30 80) contract_columns = [Some (I 0), Some (I 0), Some (I 0)]
   \<and> map (build_feature_row unknown_request 30 80) internet_columns = [Some (I 0), Some (I 0), Some (I 0)]
   \<and> map (build_feature_row unknown_request 30 80) lines_columns = [Some (I 1), Some (I 0), Some (I 0)]"
proof -
  have c: "''Contract_'' @ strip (contract unknown_request) \<notin> set contract_columns"
    by code_simp
  have i: "''InternetService_'' @ strip (internet_service unknown_request) \<notin> set internet_columns"
    by code_simp
  have l: "\<not> str_in ''no phone'' (lower (strip (multiple_lines unknown_request)))"
    "lower (strip (multiple_lines unknown_request)) \<noteq> ''yes''"
    by code_simp+
  show ?thesis
    using unknown_category_encoding [of unknown_request 30 80] c i l by simp
qed

theorem zero_fill_lines_counterexample:
  "''MultipleLines_'' @ strip (multiple_lines unknown_request) \<notin> set lines_columns
   \<and> build_feature_row unknown_request 30 80 ''MultipleLines_No'' = Some (I 1)"
  by code_simp


lemma predict_vector_loaded:
  assumes "st_model st = Some m" "st_scaler st = Some sc" "st_feature_columns st = Some fc"
    "st_q33 st = Some q33" "st_q66 st = Some q66"
  shows "predict_vector st req = feature_vector sc fc q33 q66 req"
  using assms by (simp add: predict_vector_def)

lemma overflow_examples:
  "\<not> finite_float (real_of_int (2 ^ 1024))"
  "finite_float (real_of_int (2 ^ 1023))"
  "\<not> finite_float (real_of_int (2 ^ 1023) * 70)"
  "finite_float 70" "finite_float (real_of_int 5)" "finite_float (real_of_int 5 * 70)"
  by (simp_all add: finite_float_def float_limit_def)

lemma example_state_fields:
  "st_model example_state = Some (\<lambda>X. Inr (62 / 125))"
  "st_scaler example_state = Some \<lparr>sc_mean = [30, 60, 2000, 2000], sc_scale = [20, 30, 2000, 2000]\<rparr>"
  "st_feature_columns example_state = Some [''tenure'', ''Contract_One year'', ''MultipleLines_No'']"
  "st_q33 example_state = Some 30" "st_q66 example_state = Some 80"
  by (simp_all add: example_state_def)

text \<open>C2. In a loaded state whose scaler was fitted on the four numeric columns, and for a
  request the schema accepts: whenever \<^verbatim>\<open>predict\<close> assembles a vector, the vector is
  as long as the feature-column manifest. It assembles one for every request whose tenure,
  monthly charge and product of the two are finite floats, whatever the categorical values,
  and the entry at each position is then the value for the manifest column at that position:
  the scaled value for a numeric column, and otherwise the row's value, 0 when the row has no
  such column. For the other requests no vector is assembled: a tenure too large for a float
  raises \<^verbatim>\<open>OverflowError\<close> when the row is built, and an infinite charge or product
  raises \<^verbatim>\<open>ValueError\<close> in the scaler.\<close>

theorem vector_length_is_manifest_length:
  assumes "st_model st = Some m" "st_scaler st = Some sc" "st_feature_columns st = Some fc"
    and "st_q33 st = Some q33" "st_q66 st = Some q66"
    and "length (sc_mean sc) = 4" "length (sc_scale sc) = 4"
    and "valid_request req"
  shows "(\<forall>X. predict_vector st req = Inr X \<longrightarrow> length X = length fc)
     \<and> (if \<not> finite_float (real_of_int (tenure req))
          then predict_vector st req = Inl OverflowError
        else if \<not> finite_float (monthly_charges req)
                \<or> \<not> finite_float (real_of_int (tenure req) * monthly_charges req)
          then predict_vector st req = Inl ValueError
        else \<exists>X scaled_num.
          predict_vector st req = Inr X \<and> length X = length fc \<and>
          transform sc [real_of_int (tenure req), monthly_charges req,
             real_of_int (tenure req) * monthly_charges req,
             real_of_int (tenure req) * monthly_charges req] = Inr scaled_num \<and>
          (\<forall>i < length fc. X ! i =
             (if fc ! i \<in> set numerical_cols then scaled_num ! index_of (fc ! i) numerical_cols
              else to_float (row_get (build_feature_row req q33 q66) (fc ! i) (I 0)))))"
proof (intro conjI allI impI)
  fix X
  assume "predict_vector st req = Inr X"
  from predict_vector_length [OF this] assms(3) show "length X = length fc"
    by simp
next
  note pv = predict_vector_loaded [OF assms(1-5)]
  note fv = feature_vector_cases [OF assms(6-8), of fc q33 q66]
  let ?xs = "[real_of_int (tenure req), monthly_charges req,
             real_of_int (tenure req) * monthly_charges req,
             real_of_int (tenure req) * monthly_charges req]"
  let ?ys = "map (\<lambda>(x, m, s). (x - m) / s) (zip ?xs (zip (sc_mean sc) (sc_scale sc)))"
  show "if \<not> finite_float (real_of_int (tenure req))
          then predict_vector st req = Inl OverflowError
        else if \<not> finite_float (monthly_charges req)
                \<or> \<not> finite_float (real_of_int (tenure req) * monthly_charges req)
          then predict_vector st req = Inl ValueError
        else \<exists>X scaled_num.
          predict_vector st req = Inr X \<and> length X = length fc \<and>
          transform sc ?xs = Inr scaled_num \<and>
          (\<forall>i < length fc. X ! i =
             (if fc ! i \<in> set numerical_cols then scaled_num ! index_of (fc ! i) numerical_cols
              else to_float (row_get (build_feature_row req q33 q66) (fc ! i) (I 0))))"
  proof (cases "finite_float (real_of_int (tenure req)) \<and> finite_float (monthly_charges req)
      \<and> finite_float (real_of_int (tenure req) * monthly_charges req)")
    case False
    then show ?thesis
      unfolding pv fv by auto
  next
    case True
    then have t: "transform sc ?xs = Inr ?ys"
      unfolding transform_four [OF assms(6,7)] by simp
    from True have "predict_vector st req =
        Inr (map (\<lambda>c. if c \<in> set numerical_cols then ?ys ! index_of c numerical_cols
                 else to_float (row_get (build_feature_row req q33 q66) c (I 0))) fc)"
      unfolding pv fv by simp
    with t True show ?thesis
      by simp
  qed
qed

theorem vector_length_is_manifest_length_witness:
  "valid_request unknown_request
   \<and> predict_vector example_state unknown_request = Inr [- (5 / 4), 0, 1]
   \<and> valid_request (unknown_request\<lparr>tenure := 2 ^ 1024\<rparr>)
   \<and> predict_vector example_state (unknown_request\<lparr>tenure := 2 ^ 1024\<rparr>) = Inl OverflowError
   \<and> valid_request (unknown_request\<lparr>tenure := 2 ^ 1023\<rparr>)
   \<and> predict_vector example_state (unknown_request\<lparr>tenure := 2 ^ 1023\<rparr>) = Inl ValueError"
proof -
  have v: "valid_request unknown_request" "valid_request (unknown_request\<lparr>tenure := 2 ^ 1024\<rparr>)"
    "valid_request (unknown_request\<lparr>tenure := 2 ^ 1023\<rparr>)"
    by (simp_all add: valid_request_def unknown_request_def request_with_defaults_def)
  have row: "build_feature_row unknown_request 30 80 ''Contract_One year'' = Some (I 0)"
    "build_feature_row unknown_request 30 80 ''MultipleLines_No'' = Some (I 1)"
    by code_simp+
  have req: "tenure unknown_request = 5" "monthly_charges unknown_request = 70"
    by (simp_all add: unknown_request_def request_with_defaults_def)
  have len: "length (sc_mean \<lparr>sc_mean = [30, 60, 2000, 2000], sc_scale = [20, 30, 2000, 2000 :: real]\<rparr>) = 4"
    "length (sc_scale \<lparr>sc_mean = [30, 60, 2000, 2000 :: real], sc_scale = [20, 30, 2000, 2000]\<rparr>) = 4"
    by simp_all
  note vl = vector_length_is_manifest_length [OF example_state_fields len]
  from vl [OF v(1)] overflow_examples(4-6)
  obtain X scaled_num where X: "predict_vector example_state unknown_request = Inr X"
    "length X = 3"
    "transform \<lparr>sc_mean = [30, 60, 2000, 2000], sc_scale = [20, 30, 2000, 2000]\<rparr>
       [real_of_int (tenure unknown_request), monthly_charges unknown_request,
        real_of_int (tenure unknown_request) * monthly_charges unknown_request,
        real_of_int (tenure unknown_request) * monthly_charges unknown_request] = Inr scaled_num"
    "\<forall>i < 3. X ! i =
        (if [''tenure'', ''Contract_One year'', ''MultipleLines_No''] ! i \<in> set numerical_cols
         then scaled_num ! index_of ([''tenure'', ''Contract_One year'', ''MultipleLines_No''] ! i) numerical_cols
         else to_float (row_get (build_feature_row unknown_request 30 80)
                ([''tenure'', ''Contract_One year'', ''MultipleLines_No''] ! i) (I 0)))"
    by (auto simp: req)
  from X(3) have sn: "scaled_num ! 0 = - (5 / 4)"
    by (auto simp: transform_def req split: if_splits)
  from X(4) have "X ! 0 = - (5 / 4)" "X ! 1 = 0" "X ! 2 = 1"
    by (simp_all add: numerical_cols_def index_of_def sn row row_get_def)
  with X(2) have "X = [- (5 / 4), 0, 1]"
    by (cases X; simp; cases "tl X"; simp; cases "tl (tl X)"; simp)
  with X(1) have 1: "predict_vector example_state unknown_request = Inr [- (5 / 4), 0, 1]"
    by simp
  have 2: "predict_vector example_state (unknown_request\<lparr>tenure := 2 ^ 1024\<rparr>) = Inl OverflowError"
    using vl [OF v(2)] overflow_examples(1) by simp
  have 3: "predict_vector example_state (unknown_request\<lparr>tenure := 2 ^ 1023\<rparr>) = Inl ValueError"
    using vl [OF v(3)] overflow_examples(2,3) by (simp add: req)
  from v 1 2 3 show ?thesis by simp
qed


lemma predict_respond: "model_proba st req = Inr p \<Longrightarrow> predict st req = Inr (respond p)"
  by (simp add: predict_def bind_err_def)

lemma model_proba_loaded:
  assumes "predict_vector st req = Inr X" "st_model st = Some m"
  shows "model_proba st req = m X"
  using assms by (simp add: model_proba_def bind_err_def)

lemma example_request_valid: "valid_request example_request"
  by (simp add: valid_request_def example_request_def request_with_defaults_def)

lemma example_vector: "\<exists>X. predict_vector example_state example_request = Inr X"
proof -
  have len: "length (sc_mean \<lparr>sc_mean = [30, 60, 2000, 2000], sc_scale = [20, 30, 2000, 2000 :: real]\<rparr>) = 4"
    "length (sc_scale \<lparr>sc_mean = [30, 60, 2000, 2000 :: real], sc_scale = [20, 30, 2000, 2000]\<rparr>) = 4"
    by simp_all
  have req: "tenure example_request = 5" "monthly_charges example_request = 70"
    by (simp_all add: example_request_def request_with_defaults_def)
  show ?thesis
    unfolding predict_vector_loaded [OF example_state_fields]
      feature_vector_cases [OF len example_request_valid]
    using overflow_examples(4-6) by (simp add: req)
qed

lemma example_model_proba: "model_proba example_state example_request = Inr (62 / 125)"
  using example_vector model_proba_loaded [OF _ example_state_fields(1)] by auto

lemma confident_model_proba: "model_proba confident_state example_request = Inr (873 / 1000)"
proof -
  have "predict_vector confident_state example_request = predict_vector example_state example_request"
    by (simp add: predict_vector_def confident_state_def example_state_def)
  with example_vector obtain X where "predict_vector confident_state example_request = Inr X"
    by auto
  moreover have "st_model confident_state = Some (\<lambda>X. Inr (873 / 1000))"
    by (simp add: confident_state_def)
  ultimately show ?thesis
    by (simp add: model_proba_loaded)
qed

lemma round2_just_below_half:
  assumes "99 / 200 < p" "p < 1 / 2"
  shows "round2 p = 1 / 2"
proof -
  from assms have "\<lfloor>p * 100\<rfloor> = 49"
    by (intro floor_unique) simp_all
  with assms show ?thesis
    by (simp add: round2_def round_half_even_def Let_def)
qed

lemma round2_half_le:
  assumes "1 / 2 \<le> p"
  shows "1 / 2 \<le> round2 p"
proof -
  have "50 \<le> round_half_even (p * 100)"
    using round_half_even_mono_int [of 50 "p * 100"] assms by simp
  then have "50 \<le> real_of_int (round_half_even (p * 100))" by linarith
  then show ?thesis by (simp add: round2_def)
qed

lemma round2_le_half:
  assumes "p \<le> 1 / 2"
  shows "round2 p \<le> 1 / 2"
proof -
  have "round_half_even (p * 100) \<le> 50"
    using round_half_even_le_int [of "p * 100" 50] assms by simp
  then have "real_of_int (round_half_even (p * 100)) \<le> 50" by linarith
  then show ?thesis by (simp add: round2_def)
qed

lemma round2_examples: "round2 (62 / 125) = 1 / 2" "round2 (873 / 1000) = 87 / 100"
  by code_simp+

text \<open>C3, as amended. When the model gives a probability p in [0,1] for the request's
  vector, \<^verbatim>\<open>predict\<close> answers; the churn probability of the answer is in [0,1] and is
  p rounded to two decimals (a multiple of 1/100 at most 1/200 away from p). The label of the
  answer is taken from p before it is rounded: it is "Likely to Churn" exactly when p is at
  least 0.5 and "Not Likely" otherwise. Against the churn probability of the answer, a label
  "Likely to Churn" comes with a value of at least 0.5 and a value above 0.5 comes with the
  label "Likely to Churn", but the value 0.5 itself comes with "Not Likely" whenever p lies
  strictly between 0.495 and 0.5.\<close>

theorem response_probability_and_label:
  assumes "model_proba st req = Inr p" and "0 \<le> p" "p \<le> 1"
  shows "\<exists>resp. predict st req = Inr resp
     \<and> 0 \<le> churn_probability resp \<and> churn_probability resp \<le> 1
     \<and> churn_probability resp = round2 p
     \<and> churn_probability resp = real_of_int (round_half_even (p * 100)) / 100
     \<and> \<bar>churn_probability resp - p\<bar> \<le> 1 / 200
     \<and> (prediction resp = ''Likely to Churn'' \<longleftrightarrow> p \<ge> 0.5)
     \<and> (prediction resp = ''Not Likely'' \<longleftrightarrow> p < 0.5)
     \<and> (prediction resp = ''Likely to Churn'' \<longrightarrow> churn_probability resp \<ge> 0.5)
     \<and> (churn_probability resp > 0.5 \<longrightarrow> prediction resp = ''Likely to Churn'')
     \<and> (0.495 < p \<and> p < 0.5 \<longrightarrow>
           churn_probability resp = 0.5 \<and> prediction resp = ''Not Likely'')"
proof -
  have "predict st req = Inr (respond p)"
    using assms(1) by (rule predict_respond)
  moreover have c: "churn_probability (respond p) = round2 p"
    by (simp add: respond_def Let_def)
  moreover have l: "prediction (respond p) = ''Likely to Churn'' \<longleftrightarrow> p \<ge> 0.5"
    by (simp add: respond_def Let_def)
  moreover have n: "prediction (respond p) = ''Not Likely'' \<longleftrightarrow> p < 0.5"
    by (simp add: respond_def Let_def)
  moreover have "round2 p = real_of_int (round_half_even (p * 100)) / 100"
    by (simp only: round2_def)
  moreover have "prediction (respond p) = ''Likely to Churn'' \<longrightarrow> churn_probability (respond p) \<ge> 0.5"
    using round2_half_le [of p] unfolding l c by simp
  moreover have "churn_probability (respond p) > 0.5 \<longrightarrow> prediction (respond p) = ''Likely to Churn''"
    using round2_le_half [of p] unfolding l c by (cases "p < 1 / 2") simp_all
  moreover have "0.495 < p \<and> p < 0.5 \<longrightarrow>
      churn_probability (respond p) = 0.5 \<and> prediction (respond p) = ''Not Likely''"
    using round2_just_below_half [of p] unfolding n c by simp
  ultimately show ?thesis
    using round2_range [OF assms(2,3)] round2_near [of p]
    by (intro exI [of _ "respond p"]) (simp only: simp_thms)
qed

theorem response_probability_and_label_witness:
  "model_proba confident_state example_request = Inr (873 / 1000)
   \<and> predict confident_state example_request =
     Inr \<lparr>churn_probability = 87 / 100, prediction = ''Likely to Churn'', confidence = ''High''\<rparr>"
proof -
  from response_probability_and_label [OF confident_model_proba]
  obtain resp where resp: "predict confident_state example_request = Inr resp"
    "churn_probability resp = round2 (873 / 1000)"
    "prediction resp = ''Likely to Churn'' \<longleftrightarrow> (873 / 1000 :: real) \<ge> 0.5"
    by auto
  have "predict confident_state example_request = Inr (respond (873 / 1000))"
    using confident_model_proba by (rule predict_respond)
  with resp(1) have "resp = respond (873 / 1000)" by simp
  then have "resp = \<lparr>churn_probability = 87 / 100, prediction = ''Likely to Churn'', confidence = ''High''\<rparr>"
    using resp(2,3) round2_examples(2) by (simp add: respond_def Let_def)
  with resp(1) confident_model_proba show ?thesis by simp
qed

theorem label_before_rounding_counterexample:
  "valid_request example_request
   \<and> model_proba example_state example_request = Inr (62 / 125)
   \<and> (0 :: real) \<le> 62 / 125 \<and> (62 / 125 :: real) \<le> 1
   \<and> predict example_state example_request =
       Inr \<lparr>churn_probability = 1 / 2, prediction = ''Not Likely'', confidence = ''Low''\<rparr>
   \<and> (1 / 2 :: real) \<ge> 0.5"
proof -
  have "predict example_state example_request = Inr (respond (62 / 125))"
    using example_model_proba by (rule predict_respond)
  moreover have "respond (62 / 125) =
      \<lparr>churn_probability = 1 / 2, prediction = ''Not Likely'', confidence = ''Low''\<rparr>"
    by (simp add: respond_def Let_def round2_examples(1))
  ultimately show ?thesis
    using example_request_valid example_model_proba by simp
qed


text \<open>C4. For a model probability p in [0,1] the confidence of the answer is "High" exactly
  when p is at least 0.8 or at most 0.2, "Medium" exactly when p is at least 0.6 or at most
  0.4 without being in the High region (that is, 0.2 < p and p is at most 0.4, or p is at
  least 0.6 and below 0.8), and "Low" exactly in what remains, 0.4 < p < 0.6.\<close>

theorem confidence_tiers:
  assumes "model_proba st req = Inr p" and "0 \<le> p" "p \<le> 1"
  shows "\<exists>resp. predict st req = Inr resp
     \<and> (confidence resp = ''High'' \<longleftrightarrow> p \<ge> 0.8 \<or> p \<le> 0.2)
     \<and> (confidence resp = ''Medium'' \<longleftrightarrow> (p \<ge> 0.6 \<or> p \<le> 0.4) \<and> \<not> (p \<ge> 0.8 \<or> p \<le> 0.2))
     \<and> (confidence resp = ''Medium'' \<longleftrightarrow> (0.2 < p \<and> p \<le> 0.4) \<or> (0.6 \<le> p \<and> p < 0.8))
     \<and> (confidence resp = ''Low'' \<longleftrightarrow> 0.4 < p \<and> p < 0.6)"
proof -
  have "predict st req = Inr (respond p)"
    using assms(1) by (rule predict_respond)
  moreover have "confidence (respond p) =
      (if p \<ge> 0.8 \<or> p \<le> 0.2 then ''High'' else if p \<ge> 0.6 \<or> p \<le> 0.4 then ''Medium'' else ''Low'')"
    by (simp add: respond_def Let_def)
  ultimately show ?thesis by auto
qed

theorem confidence_tiers_witness:
  "\<exists>resp. predict example_state example_request = Inr resp \<and> confidence resp = ''Low''"
  using confidence_tiers [OF example_model_proba] by auto


section \<open>The training pipeline\<close>

subsection \<open>Columns of a table\<close>

lemma map_of_update: "map_of (AList.update k v al) c = (if c = k then Some v else map_of al c)"
  by (simp add: update_conv')

lemma map_of_None_iff: "map_of al k = None \<longleftrightarrow> k \<notin> fst ` set al"
  by (simp add: map_of_eq_None_iff)

lemma cell_at_update:
  "cell_at (AList.update k s al) c i =
     (if c = k then (if i < length (cells s) then Some (cells s ! i) else None) else cell_at al c i)"
  by (simp add: cell_at_def map_of_update)

subsection \<open>Target encoding is total on tables with a label\<close>

text \<open>C9. Target encoding raises its error exactly when the table has no label column.
  When the label column is there it succeeds: the label column becomes an integer column
  with 1 in the cells that hold exactly the string "Yes" and 0 in every other cell, the
  columns keep their names and order, and every other column is unchanged.\<close>

theorem target_encoding:
  "(encode_target df = Inl ValueError \<longleftrightarrow> ''Churn'' \<notin> fst ` set df)
   \<and> ((\<exists>e. encode_target df = Inl e) \<longleftrightarrow> ''Churn'' \<notin> fst ` set df)
   \<and> (\<forall>s. map_of df ''Churn'' = Some s \<longrightarrow>
        (\<exists>out. encode_target df = Inr out
           \<and> map fst out = map fst df
           \<and> map_of out ''Churn'' =
               Some \<lparr>dtype_of = Int64, cells = map (\<lambda>c. N (I (if c = S ''Yes'' then 1 else 0))) (cells s)\<rparr>
           \<and> (\<forall>c. c \<noteq> ''Churn'' \<longrightarrow> map_of out c = map_of df c)))"
proof (intro conjI allI impI)
  show "encode_target df = Inl ValueError \<longleftrightarrow> ''Churn'' \<notin> fst ` set df"
    by (cases "map_of df ''Churn''") (auto simp: encode_target_def map_of_None_iff [symmetric])
  show "(\<exists>e. encode_target df = Inl e) \<longleftrightarrow> ''Churn'' \<notin> fst ` set df"
    by (cases "map_of df ''Churn''") (auto simp: encode_target_def map_of_None_iff [symmetric])
next
  fix s assume s: "map_of df ''Churn'' = Some s"
  then have "''Churn'' \<in> set (map fst df)"
    by (metis map_of_None_iff option.distinct(1) set_map)
  then have "map fst (AList.update ''Churn'' (eq_yes s) df) = map fst df"
    by (simp add: update_keys)
  with s show "\<exists>out. encode_target df = Inr out
           \<and> map fst out = map fst df
           \<and> map_of out ''Churn'' =
               Some \<lparr>dtype_of = Int64, cells = map (\<lambda>c. N (I (if c = S ''Yes'' then 1 else 0))) (cells s)\<rparr>
           \<and> (\<forall>c. c \<noteq> ''Churn'' \<longrightarrow> map_of out c = map_of df c)"
    by (simp add: encode_target_def map_of_update eq_yes_def)
qed

theorem target_encoding_witness:
  "encode_target [(''tenure'', int_column [1, 2, 3, 4]),
                  (''Churn'', \<lparr>dtype_of = Object, cells = [S ''Yes'', S ''No'', S ''yes'', NA]\<rparr>)]
     = Inr [(''tenure'', int_column [1, 2, 3, 4]),
            (''Churn'', \<lparr>dtype_of = Int64, cells = [N (I 1), N (I 0), N (I 0), N (I 0)]\<rparr>)]
   \<and> encode_target [(''tenure'', int_column [1, 2, 3, 4])] = Inl ValueError"
proof -
  let ?churn = "\<lparr>dtype_of = Object, cells = [S ''Yes'', S ''No'', S ''yes'', NA]\<rparr>"
  let ?df = "[(''tenure'', int_column [1, 2, 3, 4]), (''Churn'', ?churn)]"
  have s: "map_of ?df ''Churn'' = Some ?churn" by simp
  from target_encoding [of ?df] s
  obtain out where out: "encode_target ?df = Inr out" "map fst out = map fst ?df"
    "map_of out ''Churn'' = Some \<lparr>dtype_of = Int64, cells = map (\<lambda>c. N (I (if c = S ''Yes'' then 1 else 0))) (cells ?churn)\<rparr>"
    "\<forall>c. c \<noteq> ''Churn'' \<longrightarrow> map_of out c = map_of ?df c"
    by blast
  from out(2) obtain a b where ab: "out = [(''tenure'', a), (''Churn'', b)]"
    by (auto simp: map_eq_Cons_conv)
  from out(4) have "map_of out ''tenure'' = map_of ?df ''tenure''" by simp
  with ab have a: "a = int_column [1, 2, 3, 4]" by simp
  from out(3) ab have b: "b = \<lparr>dtype_of = Int64, cells = [N (I 1), N (I 0), N (I 0), N (I 0)]\<rparr>"
    by simp
  have "''Churn'' \<notin> fst ` set [(''tenure'', int_column [1, 2, 3, 4])]" by simp
  with target_encoding [of "[(''tenure'', int_column [1, 2, 3, 4])]"]
  have "encode_target [(''tenure'', int_column [1, 2, 3, 4])] = Inl ValueError" by blast
  with out(1) ab a b show ?thesis by simp
qed

subsection \<open>Cutting into buckets\<close>

lemma cut_tenure_cell:
  "0 \<le> t \<Longrightarrow> cut_cell False bins_tenure labels_tenure (N (I t)) = S (bucket_tenure t)"
  by (simp add: cut_cell_def bins_tenure_def labels_tenure_def in_bin_def bucket_tenure_def)

lemma cut_tenure_cell_negative:
  "t < 0 \<Longrightarrow> cut_cell False bins_tenure labels_tenure (N (I t)) = NA"
  by (simp add: cut_cell_def bins_tenure_def labels_tenure_def in_bin_def)

lemma pd_cut_tenure:
  "is_numeric (dtype_of s) \<Longrightarrow>
   pd_cut s bins_tenure labels_tenure False =
     Inr \<lparr>dtype_of = Category labels_tenure, cells = map (cut_cell False bins_tenure labels_tenure) (cells s)\<rparr>"
  by (simp add: pd_cut_def bins_tenure_def labels_tenure_def)

lemma cut_monthly_cell:
  "a \<le> b \<Longrightarrow> cut_cell True [NegInf, Fin a, Fin b, PosInf] labels_monthly (N (F v)) = S (bucket_monthly v a b)"
  by (auto simp add: cut_cell_def labels_monthly_def in_bin_def bucket_monthly_def)

lemma cut_monthly_Inr:
  "is_numeric (dtype_of s) \<Longrightarrow> a < b \<Longrightarrow>
   cut_monthly s (Some a) (Some b) =
     Inr \<lparr>dtype_of = Category labels_monthly,
          cells = map (cut_cell True [NegInf, Fin a, Fin b, PosInf] labels_monthly) (cells s)\<rparr>"
  by (simp add: cut_monthly_def pd_cut_def labels_monthly_def)

lemma cut_monthly_tied: "is_numeric (dtype_of s) \<Longrightarrow> cut_monthly s (Some a) (Some a) = Inl ValueError"
  by (simp add: cut_monthly_def pd_cut_def)

lemma cut_monthly_Inr_iff:
  "cut_monthly s (Some a) (Some b) = Inr r \<Longrightarrow> is_numeric (dtype_of s) \<and> a < b"
  by (auto simp: cut_monthly_def pd_cut_def split: if_splits)

lemma add_engineered_features_Inr:
  assumes "map_of df ''tenure'' = Some ten" "is_numeric (dtype_of ten)"
    and "map_of df ''MonthlyCharges'' = Some mc"
    and "quantile mc (33 / 100) = Inr (Some a)" "quantile mc (66 / 100) = Inr (Some b)" "a < b"
  shows "add_engineered_features df = Inr (engineered df ten mc a b)"
proof -
  have num: "is_numeric (dtype_of mc)"
    using assms(4) by (auto simp: quantile_def split: if_splits)
  show ?thesis
    unfolding add_engineered_features_def engineered_def
    using assms(4,5)
    by (simp add: get_col_def assms(1,3) bind_err_def Let_def map_of_update
        pd_cut_tenure [OF assms(2)] cut_monthly_Inr [OF num assms(6)])
qed

lemma add_engineered_features_InrD:
  assumes "add_engineered_features df = Inr out"
  shows "\<exists>ten mc a b. map_of df ''tenure'' = Some ten \<and> is_numeric (dtype_of ten)
     \<and> map_of df ''MonthlyCharges'' = Some mc
     \<and> quantile mc (33 / 100) = Inr (Some a) \<and> quantile mc (66 / 100) = Inr (Some b) \<and> a < b
     \<and> out = engineered df ten mc a b"
proof -
  from assms obtain ten where ten: "map_of df ''tenure'' = Some ten"
    by (cases "map_of df ''tenure''") (auto simp: add_engineered_features_def get_col_def bind_err_def)
  from assms ten have nt: "is_numeric (dtype_of ten)"
    by (auto simp: add_engineered_features_def get_col_def bind_err_def pd_cut_def split: if_splits)
  note tg = pd_cut_tenure [OF nt]
  from assms ten obtain mc where mc: "map_of df ''MonthlyCharges'' = Some mc"
    by (cases "map_of df ''MonthlyCharges''")
       (auto simp: add_engineered_features_def get_col_def bind_err_def tg Let_def map_of_update)
  from assms ten mc obtain qa where qa: "quantile mc (33 / 100) = Inr qa"
    by (cases "quantile mc (33 / 100)")
       (auto simp: add_engineered_features_def get_col_def bind_err_def tg Let_def map_of_update)
  from assms ten mc qa obtain qb where qb: "quantile mc (66 / 100) = Inr qb"
    by (cases "quantile mc (66 / 100)")
       (auto simp: add_engineered_features_def get_col_def bind_err_def tg Let_def map_of_update)
  from assms ten mc qa qb obtain r where r: "cut_monthly mc qa qb = Inr r"
    by (cases "cut_monthly mc qa qb")
       (auto simp: add_engineered_features_def get_col_def bind_err_def tg Let_def map_of_update)
  then obtain a b where ab: "qa = Some a" "qb = Some b"
    by (cases qa; cases qb) (auto simp: cut_monthly_def)
  with r have lt: "a < b" using cut_monthly_Inr_iff by blast
  have "add_engineered_features df = Inr (engineered df ten mc a b)"
    using ten nt mc qa qb ab lt by (intro add_engineered_features_Inr) simp_all
  with assms have "out = engineered df ten mc a b" by simp
  with ten nt mc qa qb ab lt show ?thesis by blast
qed

lemma cell_at_engineered_tenure_group:
  "cell_at (engineered df ten mc a b) ''tenure_group'' i =
     (if i < length (cells ten) then Some (cut_cell False bins_tenure labels_tenure (cells ten ! i)) else None)"
  by (simp add: engineered_def cell_at_update)

lemma cell_at_engineered_bucket:
  "cell_at (engineered df ten mc a b) ''monthly_charges_bucket'' i =
     (if i < length (cells mc)
      then Some (cut_cell True [NegInf, Fin a, Fin b, PosInf] labels_monthly (cells mc ! i)) else None)"
  by (simp add: engineered_def cell_at_update)

lemma cell_at_Some:
  "cell_at df c i = Some v \<longleftrightarrow> (\<exists>s. map_of df c = Some s \<and> i < length (cells s) \<and> cells s ! i = v)"
  by (auto simp: cell_at_def split: option.splits)

lemma tied_quantiles:
  "quantile (float_column [20, 50, 50, 50, 90]) (33 / 100) = Inr (Some 50)"
  "quantile (float_column [20, 50, 50, 50, 90]) (66 / 100) = Inr (Some 50)"
  by code_simp+

lemma example_quantiles:
  "quantile (float_column [70, 20, 100]) (33 / 100) = Inr (Some 53)"
  "quantile (float_column [70, 20, 100]) (66 / 100) = Inr (Some (398 / 5))"
  by code_simp+

text \<open>C5. For every non-negative integer tenure the bucket is the one of the five fixed
  half-open bins [0,13), [13,25), [25,49), [49,61), [61,\<infinity>) that holds it, at inference
  (\<^verbatim>\<open>_bucket_tenure\<close>) and at training (the cut of the tenure column, cell by cell, and
  the tenure-group column of the table that feature engineering returns); in particular
  12 is in "0-12", 13 and 24 in "13-24", 25 in "25-48", 60 in "49-60" and 61 in "60+".\<close>

theorem tenure_buckets:
  "(0 \<le> t \<longrightarrow>
      tenure_bin t = Some (bucket_tenure t)
      \<and> cut_cell False bins_tenure labels_tenure (N (I t)) = S (bucket_tenure t)
      \<and> (\<forall>df out i. add_engineered_features df = Inr out \<longrightarrow>
            cell_at df ''tenure'' i = Some (N (I t)) \<longrightarrow>
            cell_at out ''tenure_group'' i = Some (S (bucket_tenure t))))
   \<and> (is_numeric (dtype_of s) \<longrightarrow>
        pd_cut s bins_tenure labels_tenure False =
          Inr \<lparr>dtype_of = Category labels_tenure,
               cells = map (cut_cell False bins_tenure labels_tenure) (cells s)\<rparr>)
   \<and> map bucket_tenure [12, 13, 24, 25, 60, 61] =
        [''0-12'', ''13-24'', ''13-24'', ''25-48'', ''49-60'', ''60+'']
   \<and> map (cut_cell False bins_tenure labels_tenure) (map (\<lambda>t. N (I t)) [12, 13, 24, 25, 60, 61]) =
        map S [''0-12'', ''13-24'', ''13-24'', ''25-48'', ''49-60'', ''60+'']"
proof (intro conjI impI allI)
  assume t: "0 \<le> t"
  then show "tenure_bin t = Some (bucket_tenure t)"
    by (simp add: tenure_bin_def bucket_tenure_def)
  from t show "cut_cell False bins_tenure labels_tenure (N (I t)) = S (bucket_tenure t)"
    by (rule cut_tenure_cell)
  fix df out i
  assume e: "add_engineered_features df = Inr out" and c: "cell_at df ''tenure'' i = Some (N (I t))"
  from add_engineered_features_InrD [OF e] obtain ten mc a b
    where ten: "map_of df ''tenure'' = Some ten" and out: "out = engineered df ten mc a b"
    by blast
  from c ten have "i < length (cells ten)" "cells ten ! i = N (I t)"
    by (simp_all add: cell_at_Some)
  then show "cell_at out ''tenure_group'' i = Some (S (bucket_tenure t))"
    by (simp add: out cell_at_engineered_tenure_group cut_tenure_cell [OF t])
next
  assume "is_numeric (dtype_of s)"
  then show "pd_cut s bins_tenure labels_tenure False =
          Inr \<lparr>dtype_of = Category labels_tenure,
               cells = map (cut_cell False bins_tenure labels_tenure) (cells s)\<rparr>"
    by (rule pd_cut_tenure)
next
  show "map bucket_tenure [12, 13, 24, 25, 60, 61] =
        [''0-12'', ''13-24'', ''13-24'', ''25-48'', ''49-60'', ''60+'']"
    by (simp add: bucket_tenure_def)
  show "map (cut_cell False bins_tenure labels_tenure) (map (\<lambda>t. N (I t)) [12, 13, 24, 25, 60, 61]) =
        map S [''0-12'', ''13-24'', ''13-24'', ''25-48'', ''49-60'', ''60+'']"
    by (simp add: cut_tenure_cell bucket_tenure_def)
qed

lemma example_table_engineered:
  "add_engineered_features example_table =
     Inr (engineered example_table (int_column [5, 30, 72]) (float_column [70, 20, 100]) 53 (398 / 5))"
proof (rule add_engineered_features_Inr)
  show "map_of example_table ''tenure'' = Some (int_column [5, 30, 72])"
    by (simp add: example_table_def)
  show "is_numeric (dtype_of (int_column [5, 30, 72]))"
    by (simp add: int_column_def is_numeric_def)
  show "map_of example_table ''MonthlyCharges'' = Some (float_column [70, 20, 100])"
    by (simp add: example_table_def)
  show "quantile (float_column [70, 20, 100]) (33 / 100) = Inr (Some 53)"
    by (rule example_quantiles)
  show "quantile (float_column [70, 20, 100]) (66 / 100) = Inr (Some (398 / 5))"
    by (rule example_quantiles)
  show "(53 :: real) < 398 / 5" by simp
qed

theorem tenure_buckets_witness:
  "cell_at example_table ''tenure'' 2 = Some (N (I 72))
   \<and> (\<exists>out. add_engineered_features example_table = Inr out
         \<and> cell_at out ''tenure_group'' 2 = Some (S ''60+''))
   \<and> tenure_bin 72 = Some ''60+''
   \<and> pd_cut (int_column [5, 30, 72]) bins_tenure labels_tenure False =
       Inr \<lparr>dtype_of = Category labels_tenure, cells = [S ''0-12'', S ''25-48'', S ''60+'']\<rparr>"
proof -
  have c: "cell_at example_table ''tenure'' 2 = Some (N (I 72))"
    by (simp add: example_table_def cell_at_def int_column_def)
  have b: "bucket_tenure 72 = ''60+''" "bucket_tenure 5 = ''0-12''" "bucket_tenure 30 = ''25-48''"
    by (simp_all add: bucket_tenure_def)
  have n: "is_numeric (dtype_of (int_column [5, 30, 72]))"
    by (simp add: int_column_def is_numeric_def)
  have cs: "map (cut_cell False bins_tenure labels_tenure) (cells (int_column [5, 30, 72])) =
     [S ''0-12'', S ''25-48'', S ''60+'']"
    by (simp add: int_column_def cut_tenure_cell b)
  note tb = tenure_buckets [of 72 "int_column [5, 30, 72]"]
  from tb have 1: "tenure_bin 72 = Some ''60+''" by (simp add: b)
  from tb example_table_engineered c
  have 2: "cell_at (engineered example_table (int_column [5, 30, 72]) (float_column [70, 20, 100]) 53 (398 / 5))
      ''tenure_group'' 2 = Some (S ''60+'')"
    by (simp add: b)
  from tb n have 3: "pd_cut (int_column [5, 30, 72]) bins_tenure labels_tenure False =
       Inr \<lparr>dtype_of = Category labels_tenure, cells = [S ''0-12'', S ''25-48'', S ''60+'']\<rparr>"
    by (simp add: cs)
  from c 1 2 3 example_table_engineered show ?thesis by simp
qed

lemma bucket_rank_mono:
  "a \<le> b \<Longrightarrow> v \<le> w \<Longrightarrow> bucket_rank (bucket_monthly v a b) \<le> bucket_rank (bucket_monthly w a b)"
  by (simp add: bucket_rank_def bucket_monthly_def)

text \<open>C6, as amended. At inference, for thresholds q33 \<le> q66, a monthly charge v is "low"
  when v \<le> q33, "medium" when q33 < v \<le> q66 and "high" when v > q66, and the assignment is
  monotonic in v. At training the same rule holds, cell by cell and in the bucket column of
  the table that feature engineering returns, when q33 < q66. When the two fitted thresholds
  are equal, the training-time cut raises \<^verbatim>\<open>ValueError\<close> and assigns no bucket.\<close>

theorem monthly_buckets:
  "(q33 \<le> q66 \<longrightarrow>
      (v \<le> q33 \<longrightarrow> bucket_monthly v q33 q66 = ''low'')
      \<and> (q33 < v \<and> v \<le> q66 \<longrightarrow> bucket_monthly v q33 q66 = ''medium'')
      \<and> (q66 < v \<longrightarrow> bucket_monthly v q33 q66 = ''high'')
      \<and> (\<forall>w. v \<le> w \<longrightarrow>
            bucket_rank (bucket_monthly v q33 q66) \<le> bucket_rank (bucket_monthly w q33 q66)))
   \<and> (q33 < q66 \<longrightarrow>
        cut_cell True [NegInf, Fin q33, Fin q66, PosInf] labels_monthly (N (F v)) =
          S (bucket_monthly v q33 q66)
        \<and> (is_numeric (dtype_of s) \<longrightarrow>
             cut_monthly s (Some q33) (Some q66) =
               Inr \<lparr>dtype_of = Category labels_monthly,
                    cells = map (cut_cell True [NegInf, Fin q33, Fin q66, PosInf] labels_monthly) (cells s)\<rparr>))
   \<and> (\<forall>df out mc i.
         add_engineered_features df = Inr out \<longrightarrow>
         map_of df ''MonthlyCharges'' = Some mc \<longrightarrow>
         quantile mc (33 / 100) = Inr (Some q33) \<longrightarrow>
         quantile mc (66 / 100) = Inr (Some q66) \<longrightarrow>
         cells mc ! i = N (F v) \<longrightarrow> i < length (cells mc) \<longrightarrow>
         q33 < q66 \<and> cell_at out ''monthly_charges_bucket'' i = Some (S (bucket_monthly v q33 q66)))
   \<and> (is_numeric (dtype_of s) \<longrightarrow> cut_monthly s (Some q33) (Some q33) = Inl ValueError)"
proof (intro conjI impI allI)
  assume "q33 \<le> q66" "v \<le> q33"
  then show "bucket_monthly v q33 q66 = ''low''" by (simp add: bucket_monthly_def)
next
  assume "q33 \<le> q66" "q33 < v \<and> v \<le> q66"
  then show "bucket_monthly v q33 q66 = ''medium''" by (simp add: bucket_monthly_def)
next
  assume "q33 \<le> q66" "q66 < v"
  then show "bucket_monthly v q33 q66 = ''high''" by (simp add: bucket_monthly_def)
next
  fix w assume "q33 \<le> q66" "v \<le> w"
  then show "bucket_rank (bucket_monthly v q33 q66) \<le> bucket_rank (bucket_monthly w q33 q66)"
    by (rule bucket_rank_mono)
next
  assume "q33 < q66"
  then show "cut_cell True [NegInf, Fin q33, Fin q66, PosInf] labels_monthly (N (F v)) =
          S (bucket_monthly v q33 q66)"
    by (simp add: cut_monthly_cell)
next
  assume "q33 < q66" "is_numeric (dtype_of s)"
  then show "cut_monthly s (Some q33) (Some q66) =
               Inr \<lparr>dtype_of = Category labels_monthly,
                    cells = map (cut_cell True [NegInf, Fin q33, Fin q66, PosInf] labels_monthly) (cells s)\<rparr>"
    by (simp add: cut_monthly_Inr)
next
  fix df out mc i
  assume e: "add_engineered_features df = Inr out"
    and mc: "map_of df ''MonthlyCharges'' = Some mc"
    and q: "quantile mc (33 / 100) = Inr (Some q33)" "quantile mc (66 / 100) = Inr (Some q66)"
    and c: "cells mc ! i = N (F v)" "i < length (cells mc)"
  from add_engineered_features_InrD [OF e] mc q obtain ten
    where lt: "q33 < q66" and out: "out = engineered df ten mc q33 q66"
    by auto
  from lt show "q33 < q66" .
  from c lt show "cell_at out ''monthly_charges_bucket'' i = Some (S (bucket_monthly v q33 q66))"
    by (simp add: out cell_at_engineered_bucket cut_monthly_cell)
next
  assume "is_numeric (dtype_of s)"
  then show "cut_monthly s (Some q33) (Some q33) = Inl ValueError"
    by (rule cut_monthly_tied)
qed

theorem monthly_buckets_witness:
  "(\<exists>out. add_engineered_features example_table = Inr out
      \<and> cell_at out ''monthly_charges_bucket'' 0 = Some (S ''medium''))
   \<and> bucket_monthly 70 53 (398 / 5) = ''medium''
   \<and> cut_cell True [NegInf, Fin 53, Fin (398 / 5), PosInf] labels_monthly (N (F 70)) = S ''medium''
   \<and> cut_monthly (float_column [70, 20, 100]) (Some 53) (Some 53) = Inl ValueError"
proof -
  note mb = monthly_buckets [of 53 "398 / 5" 70 "float_column [70, 20, 100]"]
  have n: "is_numeric (dtype_of (float_column [70, 20, 100]))"
    by (simp add: float_column_def is_numeric_def)
  have mc: "map_of example_table ''MonthlyCharges'' = Some (float_column [70, 20, 100])"
    by (simp add: example_table_def)
  have c: "cells (float_column [70, 20, 100]) ! 0 = N (F 70)" "0 < length (cells (float_column [70, 20, 100]))"
    by (simp_all add: float_column_def)
  from mb have 1: "bucket_monthly 70 53 (398 / 5) = ''medium''" by simp
  from mb have 2: "cut_cell True [NegInf, Fin 53, Fin (398 / 5), PosInf] labels_monthly (N (F 70)) =
      S (bucket_monthly 70 53 (398 / 5))" by simp
  from mb n have 3: "cut_monthly (float_column [70, 20, 100]) (Some 53) (Some 53) = Inl ValueError"
    by blast
  from mb example_table_engineered mc example_quantiles c
  have 4: "cell_at (engineered example_table (int_column [5, 30, 72]) (float_column [70, 20, 100]) 53 (398 / 5))
      ''monthly_charges_bucket'' 0 = Some (S (bucket_monthly 70 53 (398 / 5)))"
    by blast
  from 1 2 3 4 example_table_engineered show ?thesis by simp
qed

theorem equal_thresholds_counterexample:
  "quantile (float_column [20, 50, 50, 50, 90]) (33 / 100) = Inr (Some 50)
   \<and> quantile (float_column [20, 50, 50, 50, 90]) (66 / 100) = Inr (Some 50)
   \<and> map_of tied_table ''MonthlyCharges'' = Some (float_column [20, 50, 50, 50, 90])
   \<and> add_engineered_features tied_table = Inl ValueError"
proof -
  have mc: "map_of tied_table ''MonthlyCharges'' = Some (float_column [20, 50, 50, 50, 90])"
    and ten: "map_of tied_table ''tenure'' = Some (int_column [1, 2, 3, 4, 5])"
    by (simp_all add: tied_table_def)
  have n: "is_numeric (dtype_of (int_column [1, 2, 3, 4, 5]))"
    "is_numeric (dtype_of (float_column [20, 50, 50, 50, 90]))"
    by (simp_all add: int_column_def float_column_def is_numeric_def)
  have "add_engineered_features tied_table = Inl ValueError"
    unfolding add_engineered_features_def
    using tied_quantiles
    by (simp add: get_col_def ten mc bind_err_def Let_def map_of_update pd_cut_tenure n cut_monthly_tied)
  with tied_quantiles mc show ?thesis by simp
qed

section \<open>Training and inference compared\<close>

subsection \<open>Columns of the encoded table\<close>

lemma encode_binary_fold:
  assumes "distinct cs"
  shows "map_of (fold (\<lambda>col d. case map_of d col of None \<Rightarrow> d | Some s \<Rightarrow> AList.update col (eq_yes s) d) cs df) c =
     (if c \<in> set cs then map_option eq_yes (map_of df c) else map_of df c)"
  using assms
proof (induction cs arbitrary: df)
  case Nil
  show ?case by simp
next
  case (Cons a cs)
  show ?case
  proof (cases "map_of df a")
    case None
    with Cons show ?thesis by auto
  next
    case (Some s)
    with Cons show ?thesis by (auto simp: map_of_update)
  qed
qed

lemma map_of_encode_binary:
  "map_of (encode_binary_columns df) c =
     (if c \<in> set binary_cols then map_option eq_yes (map_of df c) else map_of df c)"
  unfolding encode_binary_columns_def
  by (rule encode_binary_fold) (simp add: binary_cols_def)

lemma map_of_engineered:
  "map_of (engineered df ten mc a b) c =
     (if c = ''total_spend'' then Some (mul_series ten mc)
      else if c = ''monthly_charges_bucket'' then
        Some \<lparr>dtype_of = Category labels_monthly,
              cells = map (cut_cell True [NegInf, Fin a, Fin b, PosInf] labels_monthly) (cells mc)\<rparr>
      else if c = ''tenure_group'' then
        Some \<lparr>dtype_of = Category labels_tenure,
              cells = map (cut_cell False bins_tenure labels_tenure) (cells ten)\<rparr>
      else map_of df c)"
  by (simp add: engineered_def map_of_update)

lemma map_of_dummies_None:
  "\<not> startswith k (c @ ''_'') \<Longrightarrow> map_of (dummies c s) k = None"
  by (auto simp: dummies_def map_of_eq_None_iff startswith_iff image_iff)

lemma map_of_dummies_level:
  "map_of (dummies c s) (c @ ''_'' @ l) = (if l \<in> set (levels s) then Some (indicator s l) else None)"
proof -
  have "map_of (map (\<lambda>l. (c @ ''_'' @ l, indicator s l)) ls) (c @ ''_'' @ l) =
     (if l \<in> set ls then Some (indicator s l) else None)" for ls
    by (induction ls) auto
  then show ?thesis by (simp add: dummies_def)
qed

lemma map_of_filter_notin:
  "map_of (filter (\<lambda>p. fst p \<notin> A) df) c = (if c \<in> A then None else map_of df c)"
  by (induction df) auto

text \<open>The indicator columns that the listed columns contribute, looked up by name.\<close>

lemma map_of_get_dummies:
  "map_of (get_dummies df cols) k =
     (case (if k \<in> set cols then None else map_of df k) of
        Some s \<Rightarrow> Some s
      | None \<Rightarrow> map_of (concat (map (\<lambda>c. case map_of df c of None \<Rightarrow> [] | Some s \<Rightarrow> dummies c s) cols)) k)"
  by (simp add: get_dummies_def map_add_def map_of_filter_notin split: option.splits)

lemma dummy_blocks_Cons:
  "map_of (concat (map (\<lambda>c. case map_of df c of None \<Rightarrow> [] | Some s \<Rightarrow> dummies c s) (c # cs))) k =
     (case (case map_of df c of None \<Rightarrow> None | Some s \<Rightarrow> map_of (dummies c s) k) of
        Some v \<Rightarrow> Some v
      | None \<Rightarrow> map_of (concat (map (\<lambda>c. case map_of df c of None \<Rightarrow> [] | Some s \<Rightarrow> dummies c s) cs)) k)"
  by (auto simp: map_add_def split: option.splits)

lemma dummy_blocks_skip:
  "\<not> startswith k (c @ ''_'') \<Longrightarrow>
   map_of (concat (map (\<lambda>c. case map_of df c of None \<Rightarrow> [] | Some s \<Rightarrow> dummies c s) (c # cs))) k =
   map_of (concat (map (\<lambda>c. case map_of df c of None \<Rightarrow> [] | Some s \<Rightarrow> dummies c s) cs)) k"
  by (subst dummy_blocks_Cons) (simp add: map_of_dummies_None split: option.splits)

lemma dummy_blocks_hit:
  "map_of df c = Some s \<Longrightarrow> l \<in> set (levels s) \<Longrightarrow>
   map_of (concat (map (\<lambda>c. case map_of df c of None \<Rightarrow> [] | Some s \<Rightarrow> dummies c s) (c # cs))) (c @ ''_'' @ l) =
   Some (indicator s l)"
  using map_of_dummies_level [of c s l] by (subst dummy_blocks_Cons) simp

lemma dummy_blocks_miss:
  "map_of df c = Some s \<Longrightarrow> l \<notin> set (levels s) \<Longrightarrow>
   map_of (concat (map (\<lambda>c. case map_of df c of None \<Rightarrow> [] | Some s \<Rightarrow> dummies c s) (c # cs))) (c @ ''_'' @ l) =
   map_of (concat (map (\<lambda>c. case map_of df c of None \<Rightarrow> [] | Some s \<Rightarrow> dummies c s) cs)) (c @ ''_'' @ l)"
  using map_of_dummies_level [of c s l] by (subst dummy_blocks_Cons) simp

lemma dummy_blocks_all_skip:
  "\<forall>c \<in> set cols. \<not> startswith k (c @ ''_'') \<Longrightarrow>
   map_of (concat (map (\<lambda>c. case map_of df c of None \<Rightarrow> [] | Some s \<Rightarrow> dummies c s) cols)) k = None"
proof (induction cols)
  case Nil
  show ?case by simp
next
  case (Cons c cs)
  then have "\<not> startswith k (c @ ''_'')" by simp
  from dummy_blocks_skip [OF this] Cons show ?case by simp
qed

lemma dummy_blocks_lookup:
  assumes "map_of df c = Some s"
    and "\<forall>c' \<in> set cols. c' \<noteq> c \<longrightarrow> \<not> startswith (c @ ''_'' @ l) (c' @ ''_'')"
    and "c \<in> set cols"
  shows "map_of (concat (map (\<lambda>c. case map_of df c of None \<Rightarrow> [] | Some s \<Rightarrow> dummies c s) cols)) (c @ ''_'' @ l) =
     (if l \<in> set (levels s) then Some (indicator s l) else None)"
  using assms(2,3)
proof (induction cols)
  case Nil
  then show ?case by simp
next
  case (Cons c' cs)
  show ?case
  proof (cases "c' = c")
    case True
    show ?thesis
    proof (cases "l \<in> set (levels s)")
      case True
      with \<open>c' = c\<close> dummy_blocks_hit [OF assms(1) True] show ?thesis by simp
    next
      case False
      note miss = dummy_blocks_miss [OF assms(1) False, of cs]
      show ?thesis
      proof (cases "c \<in> set cs")
        case True
        with Cons have "map_of (concat (map (\<lambda>c. case map_of df c of None \<Rightarrow> [] | Some s \<Rightarrow> dummies c s) cs)) (c @ ''_'' @ l) =
          (if l \<in> set (levels s) then Some (indicator s l) else None)"
          by simp
        with miss False \<open>c' = c\<close> show ?thesis by simp
      next
        case False
        with Cons.prems have "\<forall>c' \<in> set cs. \<not> startswith (c @ ''_'' @ l) (c' @ ''_'')"
          by auto
        from dummy_blocks_all_skip [OF this] miss \<open>l \<notin> set (levels s)\<close> \<open>c' = c\<close>
        show ?thesis by simp
      qed
    qed
  next
    case False
    with Cons.prems have skip: "\<not> startswith (c @ ''_'' @ l) (c' @ ''_'')" and "c \<in> set cs"
      by auto
    with Cons have "map_of (concat (map (\<lambda>c. case map_of df c of None \<Rightarrow> [] | Some s \<Rightarrow> dummies c s) cs)) (c @ ''_'' @ l) =
          (if l \<in> set (levels s) then Some (indicator s l) else None)"
      by simp
    with dummy_blocks_skip [OF skip, of df cs] show ?thesis by simp
  qed
qed

subsection \<open>The encoded table of a dataset with the expected columns\<close>

lemma telco_table_columns:
  assumes "telco_table df" "map_of df k = Some s"
  shows "k \<in> set telco_columns"
proof -
  from assms(2) have "k \<in> set (map fst df)"
    by (metis map_of_eq_None_iff option.distinct(1) set_map)
  with assms(1) show ?thesis
    by (auto simp add: telco_table_def list_all_iff)
qed

lemma telco_table_not_engineered:
  assumes "telco_table df"
  shows "map_of df ''tenure_group'' = None" "map_of df ''monthly_charges_bucket'' = None"
    "map_of df ''total_spend'' = None"
proof -
  have "k \<notin> set telco_columns \<Longrightarrow> map_of df k = None" for k
    using telco_table_columns [OF assms] by (cases "map_of df k") auto
  then show "map_of df ''tenure_group'' = None" "map_of df ''monthly_charges_bucket'' = None"
    "map_of df ''total_spend'' = None"
    by (simp_all add: telco_columns_def)
qed

lemma has_dtypeD: "has_dtype df c d \<Longrightarrow> \<exists>s. map_of df c = Some s \<and> dtype_of s = d"
  by (cases "map_of df c") (auto simp: has_dtype_def)

lemma to_encode_encoded:
  assumes "telco_table df"
  shows "to_encode (encode_binary_columns (engineered df ten mc a b)) = categorical_cols"
proof -
  from assms obtain s1 s2 s3 s4 where
    "map_of df ''Contract'' = Some s1" "dtype_of s1 = Object"
    "map_of df ''InternetService'' = Some s2" "dtype_of s2 = Object"
    "map_of df ''PaymentMethod'' = Some s3" "dtype_of s3 = Object"
    "map_of df ''MultipleLines'' = Some s4" "dtype_of s4 = Object"
    unfolding telco_table_def by (blast dest: has_dtypeD)
  then show ?thesis
    by (simp add: to_encode_def categorical_cols_def map_of_encode_binary map_of_engineered
        binary_cols_def is_object_or_category_def)
qed

lemma engineer_and_encode_Inr:
  assumes "telco_table df"
    and "map_of df ''tenure'' = Some ten" "map_of df ''MonthlyCharges'' = Some mc"
    and "quantile mc (33 / 100) = Inr (Some a)" "quantile mc (66 / 100) = Inr (Some b)" "a < b"
  shows "engineer_and_encode df =
     Inr (get_dummies (encode_binary_columns (engineered df ten mc a b)) categorical_cols)"
proof -
  from assms(1,2) have "is_numeric (dtype_of ten)"
    by (auto simp: telco_table_def has_dtype_def is_numeric_def)
  from add_engineered_features_Inr [OF assms(2) this assms(3-6)]
  show ?thesis
    by (simp add: engineer_and_encode_def bind_err_def one_hot_encode_categorical_def
        to_encode_encoded [OF assms(1)] categorical_cols_def)
qed

subsection \<open>The feature row of a request with training-time values\<close>

lemma strip_vocabulary:
  "strip ''Month-to-month'' = ''Month-to-month''" "strip ''One year'' = ''One year''"
  "strip ''Two year'' = ''Two year''"
  "strip ''DSL'' = ''DSL''" "strip ''Fiber optic'' = ''Fiber optic''" "strip ''No'' = ''No''"
  by code_simp+

lemma policy_vocabulary:
  "payment_policy ''Bank transfer (automatic)'' = ''PaymentMethod_Bank transfer (automatic)''"
  "payment_policy ''Credit card (automatic)'' = ''PaymentMethod_Credit card (automatic)''"
  "payment_policy ''Electronic check'' = ''PaymentMethod_Electronic check''"
  "payment_policy ''Mailed check'' = ''PaymentMethod_Mailed check''"
  by code_simp+

lemma lines_vocabulary:
  "lower (strip ''No'') = ''no''" "lower (strip ''Yes'') = ''yes''"
  "lower (strip ''No phone service'') = ''no phone service''"
  "lower (strip ''No internet service'') = ''no internet service''"
  by code_simp+

lemma yes_no_vocabulary:
  "v \<in> set yes_no_values \<Longrightarrow> yes_no v = I (if v = ''Yes'' then 1 else 0)"
  by (auto simp: yes_no_values_def yes_no_def lines_vocabulary)

lemma row_get_Some: "r k = Some v \<Longrightarrow> row_get r k d = v"
  by (simp add: row_get_def)

lemma row_get_None: "r k = None \<Longrightarrow> row_get r k d = d"
  by (simp add: row_get_def)

lemma inference_contract:
  assumes "contract req \<in> set [''Month-to-month'', ''One year'', ''Two year'']"
  shows "row_get (build_feature_row req q33 q66) (''Contract_'' @ l) (I 0) =
     I (if l = contract req then 1 else 0)"
proof -
  have s: "strip (contract req) = contract req"
    using assms strip_vocabulary by auto
  have c: "''Contract_'' @ contract req \<in> set contract_columns"
    using assms by (auto simp: contract_columns_def)
  have "startswith (''Contract_'' @ l) ''Contract_''" by simp
  from row_contract [OF this, of req q33 q66]
  have "build_feature_row req q33 q66 (''Contract_'' @ l) =
     (if l = contract req then Some (I 1)
      else if ''Contract_'' @ l \<in> set contract_columns then Some (I 0) else None)"
    using c by (simp only: encode_contract_apply s base_row_prefix_None) auto
  then show ?thesis by (simp add: row_get_def)
qed

lemma inference_internet:
  assumes "internet_service req \<in> set [''DSL'', ''Fiber optic'', ''No'']"
  shows "row_get (build_feature_row req q33 q66) (''InternetService_'' @ l) (I 0) =
     I (if l = internet_service req then 1 else 0)"
proof -
  have s: "strip (internet_service req) = internet_service req"
    using assms strip_vocabulary by auto
  have c: "''InternetService_'' @ internet_service req \<in> set internet_columns"
    using assms by (auto simp: internet_columns_def)
  have n: "encode_contract req (base_row req) (''InternetService_'' @ l) = None"
    using base_row_prefix_None(2) [of req l] by (simp add: encode_contract_other)
  have "startswith (''InternetService_'' @ l) ''InternetService_''" by simp
  from row_internet [OF this, of req q33 q66]
  have "build_feature_row req q33 q66 (''InternetService_'' @ l) =
     (if l = internet_service req then Some (I 1)
      else if ''InternetService_'' @ l \<in> set internet_columns then Some (I 0) else None)"
    using c by (simp only: encode_internet_apply s n) auto
  then show ?thesis by (simp add: row_get_def)
qed

lemma base_row_payment_None: "base_row req (''PaymentMethod_'' @ t) = None"
  by (simp add: base_row_def Let_def)

lemma base_row_lines_None: "base_row req (''MultipleLines_'' @ t) = None"
  by (simp add: base_row_def Let_def)

lemma inference_payment:
  assumes "payment_method req \<in> set [''Bank transfer (automatic)'', ''Credit card (automatic)'',
           ''Electronic check'', ''Mailed check'']"
  shows "row_get (build_feature_row req q33 q66) (''PaymentMethod_'' @ l) (I 0) =
     I (if l = payment_method req then 1 else 0)"
proof -
  have p: "payment_policy (strip (payment_method req)) = ''PaymentMethod_'' @ payment_method req"
    unfolding payment_policy_strip using assms policy_vocabulary by auto
  have c: "''PaymentMethod_'' @ payment_method req \<in> set payment_columns"
    using assms by (auto simp: payment_columns_def)
  have n: "encode_internet req (encode_contract req (base_row req)) (''PaymentMethod_'' @ l) = None"
    using base_row_payment_None [of req l] by (simp add: encode_contract_other encode_internet_other)
  have "startswith (''PaymentMethod_'' @ l) ''PaymentMethod_''" by simp
  from row_payment [OF this, of req q33 q66]
  have "build_feature_row req q33 q66 (''PaymentMethod_'' @ l) =
     (if l = payment_method req then Some (I 1)
      else if ''PaymentMethod_'' @ l \<in> set payment_columns then Some (I 0) else None)"
    by (simp only: encode_payment_apply p n) auto
  then show ?thesis by (simp add: row_get_def)
qed

lemma encode_lines_apply:
  "encode_lines req r k =
     (if k = (if str_in ''no phone'' (lower (strip (multiple_lines req))) then ''MultipleLines_No phone service''
              else if lower (strip (multiple_lines req)) = ''yes'' then ''MultipleLines_Yes''
              else ''MultipleLines_No'') then Some (I 1)
      else if k \<in> set lines_columns then Some (I 0) else r k)"
  by (simp add: encode_lines_def Let_def zero_fill_apply)

lemma lines_choice_vocabulary:
  assumes "multiple_lines req \<in> set [''No'', ''Yes'', ''No phone service'']"
  shows "(if str_in ''no phone'' (lower (strip (multiple_lines req))) then ''MultipleLines_No phone service''
              else if lower (strip (multiple_lines req)) = ''yes'' then ''MultipleLines_Yes''
              else ''MultipleLines_No'') = ''MultipleLines_'' @ multiple_lines req"
  using assms by (auto simp: lines_vocabulary)

lemma inference_lines:
  assumes "multiple_lines req \<in> set [''No'', ''Yes'', ''No phone service'']"
  shows "row_get (build_feature_row req q33 q66) (''MultipleLines_'' @ l) (I 0) =
     I (if l = multiple_lines req then 1 else 0)"
proof -
  have c: "''MultipleLines_'' @ multiple_lines req \<in> set lines_columns"
    using assms by (auto simp: lines_columns_def)
  have n: "encode_payment req (encode_internet req (encode_contract req (base_row req))) (''MultipleLines_'' @ l) = None"
    using base_row_lines_None [of req l]
    by (simp add: encode_contract_other encode_internet_other encode_payment_other)
  have "startswith (''MultipleLines_'' @ l) ''MultipleLines_''" by simp
  from row_lines [OF this, of req q33 q66]
  have "build_feature_row req q33 q66 (''MultipleLines_'' @ l) =
     (if l = multiple_lines req then Some (I 1)
      else if ''MultipleLines_'' @ l \<in> set lines_columns then Some (I 0) else None)"
    by (simp only: encode_lines_apply lines_choice_vocabulary [OF assms] n) auto
  then show ?thesis by (simp add: row_get_def)
qed

lemma inference_tenure_group:
  assumes "l \<in> set labels_tenure"
  shows "row_get (build_feature_row req q33 q66) (''tenure_group_'' @ l) (I 0) =
     I (if l = bucket_tenure (tenure req) then 1 else 0)"
proof -
  have c: "''tenure_group_'' @ l \<in> set tenure_group_columns"
    using assms by (auto simp: labels_tenure_def tenure_group_columns_def)
  have "startswith (''tenure_group_'' @ l) ''tenure_group_''" by simp
  from row_tenure_group [OF this, of req q33 q66] c
  have "build_feature_row req q33 q66 (''tenure_group_'' @ l) =
     Some (I (if l = bucket_tenure (tenure req) then 1 else 0))"
    by (simp only: encode_tenure_group_apply) auto
  then show ?thesis by (simp add: row_get_def)
qed

lemma inference_bucket:
  assumes "l \<in> set labels_monthly"
  shows "row_get (build_feature_row req q33 q66) (''monthly_charges_bucket_'' @ l) (I 0) =
     I (if l = bucket_monthly (monthly_charges req) q33 q66 then 1 else 0)"
proof -
  have c: "''monthly_charges_bucket_'' @ l \<in> set bucket_columns"
    using assms by (auto simp: labels_monthly_def bucket_columns_def)
  from row_bucket [of req q33 q66 "''monthly_charges_bucket_'' @ l"] c
  have "build_feature_row req q33 q66 (''monthly_charges_bucket_'' @ l) =
     Some (I (if l = bucket_monthly (monthly_charges req) q33 q66 then 1 else 0))"
    by (simp only: encode_bucket_apply) auto
  then show ?thesis by (simp add: row_get_def)
qed

lemma inference_base:
  "build_feature_row req q33 q66 ''SeniorCitizen'' = Some (I (senior_citizen req))"
  "build_feature_row req q33 q66 ''Partner'' = Some (yes_no (partner req))"
  "build_feature_row req q33 q66 ''Dependents'' = Some (yes_no (dependents req))"
  "build_feature_row req q33 q66 ''PhoneService'' = Some (yes_no (phone_service req))"
  "build_feature_row req q33 q66 ''OnlineSecurity'' = Some (yes_no (online_security req))"
  "build_feature_row req q33 q66 ''OnlineBackup'' = Some (yes_no (online_backup req))"
  "build_feature_row req q33 q66 ''DeviceProtection'' = Some (yes_no (device_protection req))"
  "build_feature_row req q33 q66 ''TechSupport'' = Some (yes_no (tech_support req))"
  "build_feature_row req q33 q66 ''StreamingTV'' = Some (yes_no (streaming_tv req))"
  "build_feature_row req q33 q66 ''StreamingMovies'' = Some (yes_no (streaming_movies req))"
  "build_feature_row req q33 q66 ''PaperlessBilling'' = Some (yes_no (paperless_billing req))"
  "build_feature_row req q33 q66 ''gender'' = Some (I (if lower (strip (gender req)) = ''male'' then 1 else 0))"
  by (simp_all add: row_base base_row_def Let_def)

subsection \<open>The encoded training row\<close>

lemma encoded_known:
  assumes "telco_table df"
    and "map_of (encode_binary_columns (engineered df ten mc a b)) k = Some s"
  shows "k \<in> set (telco_columns @ [''tenure_group'', ''monthly_charges_bucket'', ''total_spend''])"
proof -
  from assms(2) have "map_of (engineered df ten mc a b) k \<noteq> None"
    by (auto simp: map_of_encode_binary split: if_splits)
  then have "k \<in> set [''tenure_group'', ''monthly_charges_bucket'', ''total_spend''] \<or> map_of df k \<noteq> None"
    by (auto simp: map_of_engineered split: if_splits)
  then show ?thesis
    using telco_table_columns [OF assms(1), of k] by auto
qed

lemma known_not_dummy:
  assumes "k \<in> set (telco_columns @ [''tenure_group'', ''monthly_charges_bucket'', ''total_spend''])"
  shows "\<not> startswith k ''Contract_''" "\<not> startswith k ''InternetService_''"
    "\<not> startswith k ''PaymentMethod_''" "\<not> startswith k ''MultipleLines_''"
    "\<not> startswith k ''tenure_group_''" "\<not> startswith k ''monthly_charges_bucket_''"
  using assms by (auto simp: telco_columns_def)

lemma encoded_dummy_None:
  assumes "telco_table df"
    and "startswith k ''Contract_'' \<or> startswith k ''InternetService_'' \<or> startswith k ''PaymentMethod_''
      \<or> startswith k ''MultipleLines_'' \<or> startswith k ''tenure_group_''
      \<or> startswith k ''monthly_charges_bucket_''"
  shows "map_of (encode_binary_columns (engineered df ten mc a b)) k = None"
proof (cases "map_of (encode_binary_columns (engineered df ten mc a b)) k")
  case None
  then show ?thesis .
next
  case (Some s)
  from known_not_dummy [OF encoded_known [OF assms(1) Some]] assms(2)
  show ?thesis by blast
qed

lemma get_dummies_level:
  assumes "map_of B c = Some s" and "c \<in> set cols"
    and "\<forall>c' \<in> set cols. c' \<noteq> c \<longrightarrow> \<not> startswith (c @ ''_'' @ l) (c' @ ''_'')"
    and "c @ ''_'' @ l \<notin> set cols" and "map_of B (c @ ''_'' @ l) = None"
  shows "map_of (get_dummies B cols) (c @ ''_'' @ l) =
     (if l \<in> set (levels s) then Some (indicator s l) else None)"
  unfolding map_of_get_dummies
  using assms(4,5) dummy_blocks_lookup [OF assms(1,3,2)] by (simp only:) simp

lemma get_dummies_other:
  assumes "\<forall>c \<in> set cols. \<not> startswith k (c @ ''_'')"
  shows "map_of (get_dummies B cols) k = (if k \<in> set cols then None else map_of B k)"
  unfolding map_of_get_dummies
  using dummy_blocks_all_skip [OF assms, of B] by (simp split: option.splits)

lemma indicator_cell:
  "i < length (cells s) \<Longrightarrow> cells (indicator s l) ! i = N (I (if cells s ! i = S l then 1 else 0))"
  by (simp add: indicator_def)

lemma length_indicator: "length (cells (indicator s l)) = length (cells s)"
  by (simp add: indicator_def)

lemma dummy_prefixes_apart_all:
  "\<forall>c' \<in> set categorical_cols. c' \<noteq> ''Contract'' \<longrightarrow> \<not> startswith (''Contract'' @ ''_'' @ l) (c' @ ''_'')"
  "\<forall>c' \<in> set categorical_cols. c' \<noteq> ''InternetService'' \<longrightarrow> \<not> startswith (''InternetService'' @ ''_'' @ l) (c' @ ''_'')"
  "\<forall>c' \<in> set categorical_cols. c' \<noteq> ''PaymentMethod'' \<longrightarrow> \<not> startswith (''PaymentMethod'' @ ''_'' @ l) (c' @ ''_'')"
  "\<forall>c' \<in> set categorical_cols. c' \<noteq> ''MultipleLines'' \<longrightarrow> \<not> startswith (''MultipleLines'' @ ''_'' @ l) (c' @ ''_'')"
  "\<forall>c' \<in> set categorical_cols. c' \<noteq> ''tenure_group'' \<longrightarrow> \<not> startswith (''tenure_group'' @ ''_'' @ l) (c' @ ''_'')"
  "\<forall>c' \<in> set categorical_cols. c' \<noteq> ''monthly_charges_bucket'' \<longrightarrow> \<not> startswith (''monthly_charges_bucket'' @ ''_'' @ l) (c' @ ''_'')"
  by (simp_all add: categorical_cols_def)

lemma dummy_prefixes_apart:
  assumes "c \<in> set categorical_cols"
  shows "\<forall>c' \<in> set categorical_cols. c' \<noteq> c \<longrightarrow> \<not> startswith (c @ ''_'' @ l) (c' @ ''_'')"
proof -
  from assms have "c = ''Contract'' \<or> c = ''InternetService'' \<or> c = ''PaymentMethod''
     \<or> c = ''MultipleLines'' \<or> c = ''tenure_group'' \<or> c = ''monthly_charges_bucket''"
    by (simp add: categorical_cols_def)
  then show ?thesis
    using dummy_prefixes_apart_all [of l] by (elim disjE) (simp_all only:)
qed

text \<open>The cell of an indicator column of the encoded table, for each of the six encoded
  columns.\<close>

lemma encoded_indicator:
  assumes "telco_table df"
    and "c \<in> set categorical_cols"
    and "map_of (encode_binary_columns (engineered df ten mc a b)) c = Some s"
    and "cell_at (get_dummies (encode_binary_columns (engineered df ten mc a b)) categorical_cols)
           (c @ ''_'' @ l) i = Some v"
  shows "l \<in> set (levels s) \<and> i < length (cells s) \<and> v = N (I (if cells s ! i = S l then 1 else 0))"
proof -
  let ?B = "encode_binary_columns (engineered df ten mc a b)"
  have pre: "startswith (c @ ''_'' @ l) ''Contract_'' \<or> startswith (c @ ''_'' @ l) ''InternetService_''
      \<or> startswith (c @ ''_'' @ l) ''PaymentMethod_'' \<or> startswith (c @ ''_'' @ l) ''MultipleLines_''
      \<or> startswith (c @ ''_'' @ l) ''tenure_group_'' \<or> startswith (c @ ''_'' @ l) ''monthly_charges_bucket_''"
    using assms(2) by (auto simp: categorical_cols_def)
  have none: "map_of ?B (c @ ''_'' @ l) = None"
    by (rule encoded_dummy_None [OF assms(1) pre])
  have dis: "\<forall>c' \<in> set categorical_cols. c' \<noteq> c \<longrightarrow> \<not> startswith (c @ ''_'' @ l) (c' @ ''_'')"
    by (rule dummy_prefixes_apart [OF assms(2)])
  have notin: "c @ ''_'' @ l \<notin> set categorical_cols"
    using assms(2) by (auto simp: categorical_cols_def)
  have "map_of (get_dummies ?B categorical_cols) (c @ ''_'' @ l) =
     (if l \<in> set (levels s) then Some (indicator s l) else None)"
    by (rule get_dummies_level [OF assms(3,2) dis notin none])
  with assms(4) show ?thesis
    by (auto simp: cell_at_Some length_indicator indicator_cell split: if_splits)
qed

lemma eq_yes_cell:
  "i < length (cells s) \<Longrightarrow> cells s ! i = S x \<Longrightarrow>
   cell_at [(c, eq_yes s)] c i = Some (N (I (if x = ''Yes'' then 1 else 0)))"
  by (simp add: cell_at_def eq_yes_def)

text \<open>A column that is neither encoded nor an indicator keeps, in the encoded table, the
  cells that binary encoding gave it.\<close>

lemma encoded_plain_column:
  assumes "\<forall>c \<in> set categorical_cols. \<not> startswith k (c @ ''_'')" "k \<notin> set categorical_cols"
  shows "cell_at (get_dummies B categorical_cols) k i = cell_at B k i"
  using get_dummies_other [OF assms(1), of B] assms(2) by (simp add: cell_at_def)

lemma encoded_binary_cell:
  assumes "k \<in> set binary_cols"
    and "cell_at df k i = Some (S x)"
  shows "cell_at (get_dummies (encode_binary_columns (engineered df ten mc a b)) categorical_cols) k i =
     Some (N (I (if x = ''Yes'' then 1 else 0)))"
proof -
  from assms(2) obtain s where s: "map_of df k = Some s" "i < length (cells s)" "cells s ! i = S x"
    by (auto simp: cell_at_Some)
  have plain: "\<forall>c \<in> set categorical_cols. \<not> startswith k (c @ ''_'')" "k \<notin> set categorical_cols"
    using assms(1) by (auto simp: binary_cols_def categorical_cols_def)
  have "k \<noteq> ''total_spend''" "k \<noteq> ''monthly_charges_bucket''" "k \<noteq> ''tenure_group''"
    using assms(1) by (auto simp: binary_cols_def)
  then have "map_of (encode_binary_columns (engineered df ten mc a b)) k = Some (eq_yes s)"
    using assms(1) s(1) by (simp add: map_of_encode_binary map_of_engineered)
  then show ?thesis
    unfolding encoded_plain_column [OF plain]
    using s(2,3) by (simp add: cell_at_def eq_yes_def)
qed

lemma encoded_untouched_cell:
  assumes "k \<in> set [''SeniorCitizen'', ''tenure'', ''MonthlyCharges'', ''TotalCharges'', ''Churn'']"
  shows "cell_at (get_dummies (encode_binary_columns (engineered df ten mc a b)) categorical_cols) k i =
     cell_at df k i"
proof -
  have plain: "\<forall>c \<in> set categorical_cols. \<not> startswith k (c @ ''_'')" "k \<notin> set categorical_cols"
    using assms by (auto simp: categorical_cols_def)
  have "k \<noteq> ''total_spend''" "k \<noteq> ''monthly_charges_bucket''" "k \<noteq> ''tenure_group''"
    "k \<notin> set binary_cols"
    using assms by (auto simp: binary_cols_def)
  then have "map_of (encode_binary_columns (engineered df ten mc a b)) k = map_of df k"
    by (simp add: map_of_encode_binary map_of_engineered)
  then show ?thesis
    unfolding encoded_plain_column [OF plain] by (simp add: cell_at_def)
qed

lemma encoded_total_spend_cell:
  assumes "dtype_of mc = Float64"
    and "i < length (cells ten)" "cells ten ! i = N (I t)"
    and "i < length (cells mc)" "cells mc ! i = N (F m)"
  shows "cell_at (get_dummies (encode_binary_columns (engineered df ten mc a b)) categorical_cols)
     ''total_spend'' i = Some (N (F (real_of_int t * m)))"
proof -
  have plain: "\<forall>c \<in> set categorical_cols. \<not> startswith ''total_spend'' (c @ ''_'')"
    "''total_spend'' \<notin> set categorical_cols"
    by (simp_all add: categorical_cols_def)
  have "map_of (encode_binary_columns (engineered df ten mc a b)) ''total_spend'' = Some (mul_series ten mc)"
    by (simp add: map_of_encode_binary map_of_engineered binary_cols_def)
  then show ?thesis
    unfolding encoded_plain_column [OF plain]
    using assms by (simp add: cell_at_def mul_series_def Let_def)
qed

lemma same_attributesD:
  assumes "same_attributes df i req"
  shows "cell_at df ''tenure'' i = Some (N (I (tenure req)))"
    and "cell_at df ''MonthlyCharges'' i = Some (N (F (monthly_charges req)))"
    and "cell_at df ''Contract'' i = Some (S (contract req))"
    and "cell_at df ''InternetService'' i = Some (S (internet_service req))"
    and "cell_at df ''PaymentMethod'' i = Some (S (payment_method req))"
    and "cell_at df ''MultipleLines'' i = Some (S (multiple_lines req))"
    and "cell_at df ''SeniorCitizen'' i = Some (N (I (senior_citizen req)))"
    and "cell_at df ''Partner'' i = Some (S (partner req))"
    and "cell_at df ''Dependents'' i = Some (S (dependents req))"
    and "cell_at df ''PhoneService'' i = Some (S (phone_service req))"
    and "cell_at df ''OnlineSecurity'' i = Some (S (online_security req))"
    and "cell_at df ''OnlineBackup'' i = Some (S (online_backup req))"
    and "cell_at df ''DeviceProtection'' i = Some (S (device_protection req))"
    and "cell_at df ''TechSupport'' i = Some (S (tech_support req))"
    and "cell_at df ''StreamingTV'' i = Some (S (streaming_tv req))"
    and "cell_at df ''StreamingMovies'' i = Some (S (streaming_movies req))"
    and "cell_at df ''PaperlessBilling'' i = Some (S (paperless_billing req))"
    and "cell_at df ''gender'' i = Some (S (gender req))"
  using assms by (simp_all only: same_attributes_def)

lemma training_vocabularyD:
  assumes "training_vocabulary req"
  shows "contract req \<in> set [''Month-to-month'', ''One year'', ''Two year'']"
    and "internet_service req \<in> set [''DSL'', ''Fiber optic'', ''No'']"
    and "payment_method req \<in> set [''Bank transfer (automatic)'', ''Credit card (automatic)'',
           ''Electronic check'', ''Mailed check'']"
    and "multiple_lines req \<in> set [''No'', ''Yes'', ''No phone service'']"
    and "partner req \<in> set yes_no_values" "dependents req \<in> set yes_no_values"
    and "phone_service req \<in> set yes_no_values" "online_security req \<in> set yes_no_values"
    and "online_backup req \<in> set yes_no_values" "device_protection req \<in> set yes_no_values"
    and "tech_support req \<in> set yes_no_values" "streaming_tv req \<in> set yes_no_values"
    and "streaming_movies req \<in> set yes_no_values" "paperless_billing req \<in> set yes_no_values"
  using assms by (simp_all add: training_vocabulary_def)

text \<open>The fourteen columns that are neither encoded nor excluded.\<close>

lemma encoded_plain_cells:
  assumes A: "same_attributes df i req" and V: "training_vocabulary req"
    and ten: "map_of df ''tenure'' = Some ten" and mc: "map_of df ''MonthlyCharges'' = Some mc"
    and fl: "dtype_of mc = Float64"
  shows "\<forall>k \<in> set plain_feature_columns.
     cell_at (get_dummies (encode_binary_columns (engineered df ten mc a b)) categorical_cols) k i =
       Some (N (row_get (build_feature_row req q33 q66) k (I 0)))"
proof -
  let ?out = "get_dummies (encode_binary_columns (engineered df ten mc a b)) categorical_cols"
  let ?row = "build_feature_row req q33 q66"
  note a = same_attributesD [OF A]
  note v = training_vocabularyD [OF V]
  have bin: "cell_at ?out k i = Some (N (row_get ?row k (I 0)))"
    if "k \<in> set binary_cols" "cell_at df k i = Some (S x)" "x \<in> set yes_no_values"
      "?row k = Some (yes_no x)" for k x
    using encoded_binary_cell [OF that(1,2), of ten mc a b] yes_no_vocabulary [OF that(3)] that(4)
    by (simp add: row_get_def)
  have b: "''Partner'' \<in> set binary_cols" "''Dependents'' \<in> set binary_cols"
    "''PhoneService'' \<in> set binary_cols" "''OnlineSecurity'' \<in> set binary_cols"
    "''OnlineBackup'' \<in> set binary_cols" "''DeviceProtection'' \<in> set binary_cols"
    "''TechSupport'' \<in> set binary_cols" "''StreamingTV'' \<in> set binary_cols"
    "''StreamingMovies'' \<in> set binary_cols" "''PaperlessBilling'' \<in> set binary_cols"
    by (simp_all add: binary_cols_def)
  have 1: "cell_at ?out ''Partner'' i = Some (N (row_get ?row ''Partner'' (I 0)))"
    by (rule bin [OF b(1) a(8) v(5) inference_base(2)])
  have 2: "cell_at ?out ''Dependents'' i = Some (N (row_get ?row ''Dependents'' (I 0)))"
    by (rule bin [OF b(2) a(9) v(6) inference_base(3)])
  have 3: "cell_at ?out ''PhoneService'' i = Some (N (row_get ?row ''PhoneService'' (I 0)))"
    by (rule bin [OF b(3) a(10) v(7) inference_base(4)])
  have 4: "cell_at ?out ''OnlineSecurity'' i = Some (N (row_get ?row ''OnlineSecurity'' (I 0)))"
    by (rule bin [OF b(4) a(11) v(8) inference_base(5)])
  have 5: "cell_at ?out ''OnlineBackup'' i = Some (N (row_get ?row ''OnlineBackup'' (I 0)))"
    by (rule bin [OF b(5) a(12) v(9) inference_base(6)])
  have 6: "cell_at ?out ''DeviceProtection'' i = Some (N (row_get ?row ''DeviceProtection'' (I 0)))"
    by (rule bin [OF b(6) a(13) v(10) inference_base(7)])
  have 7: "cell_at ?out ''TechSupport'' i = Some (N (row_get ?row ''TechSupport'' (I 0)))"
    by (rule bin [OF b(7) a(14) v(11) inference_base(8)])
  have 8: "cell_at ?out ''StreamingTV'' i = Some (N (row_get ?row ''StreamingTV'' (I 0)))"
    by (rule bin [OF b(8) a(15) v(12) inference_base(9)])
  have 9: "cell_at ?out ''StreamingMovies'' i = Some (N (row_get ?row ''StreamingMovies'' (I 0)))"
    by (rule bin [OF b(9) a(16) v(13) inference_base(10)])
  have 10: "cell_at ?out ''PaperlessBilling'' i = Some (N (row_get ?row ''PaperlessBilling'' (I 0)))"
    by (rule bin [OF b(10) a(17) v(14) inference_base(11)])
  have 11: "cell_at ?out ''SeniorCitizen'' i = Some (N (row_get ?row ''SeniorCitizen'' (I 0)))"
    using encoded_untouched_cell [of "''SeniorCitizen''" df ten mc a b i] a(7)
    by (simp add: inference_base(1) row_get_def)
  have 12: "cell_at ?out ''tenure'' i = Some (N (row_get ?row ''tenure'' (I 0)))"
    using encoded_untouched_cell [of "''tenure''" df ten mc a b i] a(1)
    by (simp add: row_tenure row_get_def)
  have 13: "cell_at ?out ''MonthlyCharges'' i = Some (N (row_get ?row ''MonthlyCharges'' (I 0)))"
    using encoded_untouched_cell [of "''MonthlyCharges''" df ten mc a b i] a(2)
    by (simp add: row_monthly row_get_def)
  from a(1) ten have t: "i < length (cells ten)" "cells ten ! i = N (I (tenure req))"
    by (simp_all add: cell_at_Some)
  from a(2) mc have m: "i < length (cells mc)" "cells mc ! i = N (F (monthly_charges req))"
    by (simp_all add: cell_at_Some)
  have 14: "cell_at ?out ''total_spend'' i = Some (N (row_get ?row ''total_spend'' (I 0)))"
    using encoded_total_spend_cell [OF fl t m, of df a b]
    by (simp add: row_total_spend row_get_def)
  from 1 2 3 4 5 6 7 8 9 10 11 12 13 14 show ?thesis
    by (simp only: plain_feature_columns_def list.set ball_simps insert_iff empty_iff
        ball_Un Un_insert_left simp_thms)
qed

lemma encoded_indicator_cell:
  assumes "telco_table df"
    and "c \<in> set categorical_cols"
    and "map_of (encode_binary_columns (engineered df ten mc a b)) c = Some s"
  shows "cell_at (get_dummies (encode_binary_columns (engineered df ten mc a b)) categorical_cols)
           (c @ ''_'' @ l) i =
     (if l \<in> set (levels s) \<and> i < length (cells s)
      then Some (N (I (if cells s ! i = S l then 1 else 0))) else None)"
proof -
  let ?B = "encode_binary_columns (engineered df ten mc a b)"
  have pre: "startswith (c @ ''_'' @ l) ''Contract_'' \<or> startswith (c @ ''_'' @ l) ''InternetService_''
      \<or> startswith (c @ ''_'' @ l) ''PaymentMethod_'' \<or> startswith (c @ ''_'' @ l) ''MultipleLines_''
      \<or> startswith (c @ ''_'' @ l) ''tenure_group_'' \<or> startswith (c @ ''_'' @ l) ''monthly_charges_bucket_''"
    using assms(2) by (auto simp: categorical_cols_def)
  have none: "map_of ?B (c @ ''_'' @ l) = None"
    by (rule encoded_dummy_None [OF assms(1) pre])
  have notin: "c @ ''_'' @ l \<notin> set categorical_cols"
    using assms(2) by (auto simp: categorical_cols_def)
  have "map_of (get_dummies ?B categorical_cols) (c @ ''_'' @ l) =
     (if l \<in> set (levels s) then Some (indicator s l) else None)"
    by (rule get_dummies_level [OF assms(3,2) dummy_prefixes_apart [OF assms(2)] notin none])
  then show ?thesis
    by (simp add: cell_at_def length_indicator indicator_cell)
qed

lemma observed_level:
  assumes "dtype_of s = Object" "i < length (cells s)" "cells s ! i = S x"
  shows "x \<in> set (levels s)"
proof -
  from assms(2,3) have "S x \<in> set (cells s)"
    by (metis nth_mem)
  then have "x \<in> set (List.map_filter cell_label (cells s))"
    by (force simp: List.map_filter_def image_iff)
  with assms(1) show ?thesis by (simp add: levels_def)
qed

text \<open>The indicator columns of the four text columns.\<close>

lemma encoded_text_indicator:
  assumes T: "telco_table df"
    and c: "c \<in> set [''Contract'', ''InternetService'', ''PaymentMethod'', ''MultipleLines'']"
    and x: "cell_at df c i = Some (S x)"
  shows "cell_at (get_dummies (encode_binary_columns (engineered df ten mc a b)) categorical_cols)
           (c @ ''_'' @ l) i =
     (if l \<in> set (levels (the (map_of df c))) then Some (N (I (if l = x then 1 else 0))) else None)"
    and "x \<in> set (levels (the (map_of df c)))"
proof -
  from x obtain s where s: "map_of df c = Some s" "i < length (cells s)" "cells s ! i = S x"
    by (auto simp: cell_at_Some)
  have cat: "c \<in> set categorical_cols"
    using c by (auto simp: categorical_cols_def)
  have "c \<notin> set binary_cols" "c \<noteq> ''total_spend''" "c \<noteq> ''monthly_charges_bucket''"
    "c \<noteq> ''tenure_group''"
    using c by (auto simp: binary_cols_def)
  then have B: "map_of (encode_binary_columns (engineered df ten mc a b)) c = Some s"
    using s(1) by (simp add: map_of_encode_binary map_of_engineered)
  from T c s(1) have "dtype_of s = Object"
    by (auto simp: telco_table_def has_dtype_def)
  from observed_level [OF this s(2,3)] s(1)
  show "x \<in> set (levels (the (map_of df c)))" by simp
  from encoded_indicator_cell [OF T cat B, of l i] s
  show "cell_at (get_dummies (encode_binary_columns (engineered df ten mc a b)) categorical_cols)
           (c @ ''_'' @ l) i =
     (if l \<in> set (levels (the (map_of df c))) then Some (N (I (if l = x then 1 else 0))) else None)"
    by auto
qed

lemma encoded_tenure_group_indicator:
  assumes T: "telco_table df"
    and t: "i < length (cells ten)" "cells ten ! i = N (I t)" "0 \<le> t"
  shows "cell_at (get_dummies (encode_binary_columns (engineered df ten mc a b)) categorical_cols)
           (''tenure_group'' @ ''_'' @ l) i =
     (if l \<in> set labels_tenure then Some (N (I (if l = bucket_tenure t then 1 else 0))) else None)"
proof -
  have cat: "''tenure_group'' \<in> set categorical_cols"
    by (simp add: categorical_cols_def)
  have B: "map_of (encode_binary_columns (engineered df ten mc a b)) ''tenure_group'' =
      Some \<lparr>dtype_of = Category labels_tenure,
            cells = map (cut_cell False bins_tenure labels_tenure) (cells ten)\<rparr>"
    by (simp add: map_of_encode_binary map_of_engineered binary_cols_def)
  from encoded_indicator_cell [OF T cat B, of l i] t
  show ?thesis
    by (auto simp: levels_def cut_tenure_cell)
qed

lemma encoded_bucket_indicator:
  assumes T: "telco_table df"
    and m: "i < length (cells mc)" "cells mc ! i = N (F v)" "a < b"
  shows "cell_at (get_dummies (encode_binary_columns (engineered df ten mc a b)) categorical_cols)
           (''monthly_charges_bucket'' @ ''_'' @ l) i =
     (if l \<in> set labels_monthly then Some (N (I (if l = bucket_monthly v a b then 1 else 0))) else None)"
proof -
  have cat: "''monthly_charges_bucket'' \<in> set categorical_cols"
    by (simp add: categorical_cols_def)
  have B: "map_of (encode_binary_columns (engineered df ten mc a b)) ''monthly_charges_bucket'' =
      Some \<lparr>dtype_of = Category labels_monthly,
            cells = map (cut_cell True [NegInf, Fin a, Fin b, PosInf] labels_monthly) (cells mc)\<rparr>"
    by (simp add: map_of_encode_binary map_of_engineered binary_cols_def)
  from m(3) have "a \<le> b" by simp
  from encoded_indicator_cell [OF T cat B, of l i] m(1,2) cut_monthly_cell [OF this, of v]
  show ?thesis
    by (auto simp: levels_def)
qed

lemma plain_feature_columns_filter:
  "filter (\<lambda>k. k \<notin> set categorical_cols \<and> k \<notin> set [''gender'', ''TotalCharges'', ''Churn''])
     (telco_columns @ [''tenure_group'', ''monthly_charges_bucket'', ''total_spend'']) =
   plain_feature_columns"
  by (simp add: telco_columns_def categorical_cols_def plain_feature_columns_def)

lemma plain_feature_columnsI:
  assumes "k \<in> set (telco_columns @ [''tenure_group'', ''monthly_charges_bucket'', ''total_spend''])"
    and "k \<notin> set categorical_cols" "k \<notin> set [''gender'', ''TotalCharges'', ''Churn'']"
  shows "k \<in> set plain_feature_columns"
proof -
  from assms have "k \<in> set (filter (\<lambda>k. k \<notin> set categorical_cols \<and> k \<notin> set [''gender'', ''TotalCharges'', ''Churn''])
     (telco_columns @ [''tenure_group'', ''monthly_charges_bucket'', ''total_spend'']))"
    by (simp only: set_filter mem_Collect_eq simp_thms)
  then show ?thesis by (simp only: plain_feature_columns_filter)
qed

lemma bucket_labels:
  "bucket_tenure t \<in> set labels_tenure" "bucket_monthly v a b \<in> set labels_monthly"
  by (simp_all add: bucket_tenure_def labels_tenure_def bucket_monthly_def labels_monthly_def)

text \<open>Every cell of row \<open>i\<close> of the encoded table, but those of the three excluded
  columns, is the value the feature row has for the column.\<close>

lemma encoded_row_cells:
  assumes T: "telco_table df" and A: "same_attributes df i req" and V: "training_vocabulary req"
    and t0: "0 \<le> tenure req"
    and ten: "map_of df ''tenure'' = Some ten" and mc: "map_of df ''MonthlyCharges'' = Some mc"
    and lt: "q33 < q66"
    and c: "cell_at (get_dummies (encode_binary_columns (engineered df ten mc q33 q66)) categorical_cols) k i = Some v"
    and ex: "k \<notin> set [''gender'', ''TotalCharges'', ''Churn'']"
  shows "v = N (row_get (build_feature_row req q33 q66) k (I 0))"
proof -
  let ?B = "encode_binary_columns (engineered df ten mc q33 q66)"
  let ?out = "get_dummies ?B categorical_cols"
  let ?row = "build_feature_row req q33 q66"
  note a = same_attributesD [OF A]
  note voc = training_vocabularyD [OF V]
  from a(1) ten have t: "i < length (cells ten)" "cells ten ! i = N (I (tenure req))"
    by (simp_all add: cell_at_Some)
  from a(2) mc have m: "i < length (cells mc)" "cells mc ! i = N (F (monthly_charges req))"
    by (simp_all add: cell_at_Some)
  from T mc have fl: "dtype_of mc = Float64"
    by (simp add: telco_table_def has_dtype_def)
  consider (contract) "startswith k ''Contract_''" | (internet) "startswith k ''InternetService_''"
    | (payment) "startswith k ''PaymentMethod_''" | (lines) "startswith k ''MultipleLines_''"
    | (tenure_group) "startswith k ''tenure_group_''" | (bucket) "startswith k ''monthly_charges_bucket_''"
    | (plain) "\<not> startswith k ''Contract_''" "\<not> startswith k ''InternetService_''"
        "\<not> startswith k ''PaymentMethod_''" "\<not> startswith k ''MultipleLines_''"
        "\<not> startswith k ''tenure_group_''" "\<not> startswith k ''monthly_charges_bucket_''"
    by blast
  then show ?thesis
  proof cases
    case contract
    then obtain l where k: "k = ''Contract'' @ ''_'' @ l" by (auto simp: startswith_iff)
    have "''Contract'' \<in> set [''Contract'', ''InternetService'', ''PaymentMethod'', ''MultipleLines'']"
      by simp
    from encoded_text_indicator(1) [OF T this a(3), where ten=ten and mc=mc and a=q33 and b=q66 and l=l] c
    have "v = N (I (if l = contract req then 1 else 0))"
      unfolding k by (simp split: if_splits)
    with inference_contract [OF voc(1), of q33 q66 l] show ?thesis
      unfolding k by simp
  next
    case internet
    then obtain l where k: "k = ''InternetService'' @ ''_'' @ l" by (auto simp: startswith_iff)
    have "''InternetService'' \<in> set [''Contract'', ''InternetService'', ''PaymentMethod'', ''MultipleLines'']"
      by simp
    from encoded_text_indicator(1) [OF T this a(4), where ten=ten and mc=mc and a=q33 and b=q66 and l=l] c
    have "v = N (I (if l = internet_service req then 1 else 0))"
      unfolding k by (simp split: if_splits)
    with inference_internet [OF voc(2), of q33 q66 l] show ?thesis
      unfolding k by simp
  next
    case payment
    then obtain l where k: "k = ''PaymentMethod'' @ ''_'' @ l" by (auto simp: startswith_iff)
    have "''PaymentMethod'' \<in> set [''Contract'', ''InternetService'', ''PaymentMethod'', ''MultipleLines'']"
      by simp
    from encoded_text_indicator(1) [OF T this a(5), where ten=ten and mc=mc and a=q33 and b=q66 and l=l] c
    have "v = N (I (if l = payment_method req then 1 else 0))"
      unfolding k by (simp split: if_splits)
    with inference_payment [OF voc(3), of q33 q66 l] show ?thesis
      unfolding k by simp
  next
    case lines
    then obtain l where k: "k = ''MultipleLines'' @ ''_'' @ l" by (auto simp: startswith_iff)
    have "''MultipleLines'' \<in> set [''Contract'', ''InternetService'', ''PaymentMethod'', ''MultipleLines'']"
      by simp
    from encoded_text_indicator(1) [OF T this a(6), where ten=ten and mc=mc and a=q33 and b=q66 and l=l] c
    have "v = N (I (if l = multiple_lines req then 1 else 0))"
      unfolding k by (simp split: if_splits)
    with inference_lines [OF voc(4), of q33 q66 l] show ?thesis
      unfolding k by simp
  next
    case tenure_group
    then obtain l where k: "k = ''tenure_group'' @ ''_'' @ l" by (auto simp: startswith_iff)
    from encoded_tenure_group_indicator [OF T t t0, where mc=mc and a=q33 and b=q66 and l=l] c
    have "l \<in> set labels_tenure" "v = N (I (if l = bucket_tenure (tenure req) then 1 else 0))"
      unfolding k by (simp_all split: if_splits)
    with inference_tenure_group [of l req q33 q66] show ?thesis
      unfolding k by simp
  next
    case bucket
    then obtain l where k: "k = ''monthly_charges_bucket'' @ ''_'' @ l" by (auto simp: startswith_iff)
    from encoded_bucket_indicator [OF T m lt, where ten=ten and l=l] c
    have "l \<in> set labels_monthly"
      "v = N (I (if l = bucket_monthly (monthly_charges req) q33 q66 then 1 else 0))"
      unfolding k by (simp_all split: if_splits)
    with inference_bucket [of l req q33 q66] show ?thesis
      unfolding k by simp
  next
    case plain
    then have "\<forall>c \<in> set categorical_cols. \<not> startswith k (c @ ''_'')"
      by (simp add: categorical_cols_def)
    from get_dummies_other [OF this, of ?B] c
    obtain s where "k \<notin> set categorical_cols" "map_of ?B k = Some s"
      by (auto simp: cell_at_Some split: if_splits)
    with encoded_known [OF T this(2)] ex have "k \<in> set plain_feature_columns"
      by (intro plain_feature_columnsI)
    with encoded_plain_cells [OF A V ten mc fl, where a=q33 and b=q66 and ?q33.0=q33 and ?q66.0=q66] c show ?thesis
      by auto
  qed
qed

subsection \<open>The total-charges column\<close>

lemma to_encode_subset: "set (to_encode B) \<subseteq> set categorical_cols"
  by (auto simp: to_encode_def)

lemma total_charges_not_dummy: "\<forall>c \<in> set categorical_cols. \<not> startswith ''TotalCharges'' (c @ ''_'')"
  by (simp add: categorical_cols_def)

lemma one_hot_keeps_total_charges:
  "map_of (one_hot_encode_categorical B) ''TotalCharges'' = map_of B ''TotalCharges''"
proof -
  have skip: "\<forall>c \<in> set (to_encode B). \<not> startswith ''TotalCharges'' (c @ ''_'')"
    using to_encode_subset [of B] total_charges_not_dummy by blast
  have "''TotalCharges'' \<notin> set categorical_cols"
    by (simp add: categorical_cols_def)
  then have "''TotalCharges'' \<notin> set (to_encode B)"
    using to_encode_subset [of B] by blast
  with get_dummies_other [OF skip, of B] show ?thesis
    by (simp add: one_hot_encode_categorical_def)
qed

lemma engineer_and_encode_keeps_total_charges:
  assumes "engineer_and_encode df = Inr out"
  shows "map_of out ''TotalCharges'' = map_of df ''TotalCharges''"
proof -
  from assms obtain d where d: "add_engineered_features df = Inr d"
    and out: "out = one_hot_encode_categorical (encode_binary_columns d)"
    by (cases "add_engineered_features df") (auto simp: engineer_and_encode_def bind_err_def)
  from add_engineered_features_InrD [OF d] obtain ten mc a b
    where "d = engineered df ten mc a b" by blast
  then show ?thesis
    unfolding out one_hot_keeps_total_charges
    by (simp add: map_of_encode_binary map_of_engineered binary_cols_def)
qed

lemma example_attributes:
  "telco_table example_table" "same_attributes example_table 0 example_request"
  "training_vocabulary example_request" "valid_request example_request"
  "map_of example_table ''MonthlyCharges'' = Some (float_column [70, 20, 100])"
  "map_of example_table ''tenure'' = Some (int_column [5, 30, 72])"
  by code_simp+

lemma example_encoded:
  "engineer_and_encode example_table =
     Inr (get_dummies (encode_binary_columns
       (engineered example_table (int_column [5, 30, 72]) (float_column [70, 20, 100]) 53 (398 / 5)))
       categorical_cols)"
proof (rule engineer_and_encode_Inr)
  show "quantile (float_column [70, 20, 100]) (33 / 100) = Inr (Some 53)"
    by (rule example_quantiles)
  show "quantile (float_column [70, 20, 100]) (66 / 100) = Inr (Some (398 / 5))"
    by (rule example_quantiles)
  show "(53 :: real) < 398 / 5" by simp
qed (rule example_attributes)+

text \<open>C10. For every request the feature row built at inference has both its TotalCharges
  value and its total_spend value equal to tenure times monthly_charges, so the two are
  equal; the request record has no total-charge field that could be read. At training the
  engineering and encoding steps leave the TotalCharges column of the cleaned table as it is,
  whatever it holds.\<close>

theorem inference_total_charges:
  "build_feature_row req q33 q66 ''TotalCharges'' =
     Some (F (real_of_int (tenure req) * monthly_charges req))
   \<and> build_feature_row req q33 q66 ''total_spend'' =
     Some (F (real_of_int (tenure req) * monthly_charges req))
   \<and> build_feature_row req q33 q66 ''TotalCharges'' = build_feature_row req q33 q66 ''total_spend''
   \<and> (\<forall>df out. engineer_and_encode df = Inr out \<longrightarrow>
         map_of out ''TotalCharges'' = map_of df ''TotalCharges'')"
  by (simp add: row_total_charges row_total_spend engineer_and_encode_keeps_total_charges)

theorem inference_total_charges_witness:
  "build_feature_row example_request 53 (398 / 5) ''TotalCharges'' = Some (F 350)
   \<and> build_feature_row example_request 53 (398 / 5) ''total_spend'' = Some (F 350)
   \<and> encoded_cell example_table ''TotalCharges'' 0 = Inr (Some (N (F (701 / 2))))"
proof -
  have r: "tenure example_request = 5" "monthly_charges example_request = 70"
    by (simp_all add: example_request_def request_with_defaults_def)
  note tc = inference_total_charges [of example_request 53 "398 / 5"]
  from tc r have 1: "build_feature_row example_request 53 (398 / 5) ''TotalCharges'' = Some (F 350)"
    "build_feature_row example_request 53 (398 / 5) ''total_spend'' = Some (F 350)"
    by simp_all
  from tc example_encoded
  have "map_of (get_dummies (encode_binary_columns
       (engineered example_table (int_column [5, 30, 72]) (float_column [70, 20, 100]) 53 (398 / 5)))
       categorical_cols) ''TotalCharges'' = map_of example_table ''TotalCharges''"
    by blast
  moreover have "map_of example_table ''TotalCharges'' = Some (float_column [701 / 2, 610, 7000])"
    by (simp add: example_table_def)
  ultimately have "encoded_cell example_table ''TotalCharges'' 0 = Inr (Some (N (F (701 / 2))))"
    by (simp add: encoded_cell_def example_encoded bind_err_def cell_at_def float_column_def)
  with 1 show ?thesis by simp
qed

subsection \<open>The row built at inference against the encoded training row\<close>

lemma encoded_own_indicators:
  assumes T: "telco_table df" and A: "same_attributes df i req" and t0: "0 \<le> tenure req"
    and ten: "map_of df ''tenure'' = Some ten" and mc: "map_of df ''MonthlyCharges'' = Some mc"
    and lt: "q33 < q66"
  shows "map (\<lambda>k. cell_at (get_dummies (encode_binary_columns (engineered df ten mc q33 q66))
                    categorical_cols) k i)
       [''Contract_'' @ contract req, ''InternetService_'' @ internet_service req,
        ''PaymentMethod_'' @ payment_method req, ''MultipleLines_'' @ multiple_lines req,
        ''tenure_group_'' @ bucket_tenure (tenure req),
        ''monthly_charges_bucket_'' @ bucket_monthly (monthly_charges req) q33 q66] =
     replicate 6 (Some (N (I 1)))"
proof -
  let ?out = "get_dummies (encode_binary_columns (engineered df ten mc q33 q66)) categorical_cols"
  note a = same_attributesD [OF A]
  from a(1) ten have t: "i < length (cells ten)" "cells ten ! i = N (I (tenure req))"
    by (simp_all add: cell_at_Some)
  from a(2) mc have m: "i < length (cells mc)" "cells mc ! i = N (F (monthly_charges req))"
    by (simp_all add: cell_at_Some)
  have mem: "''Contract'' \<in> set [''Contract'', ''InternetService'', ''PaymentMethod'', ''MultipleLines'']"
    "''InternetService'' \<in> set [''Contract'', ''InternetService'', ''PaymentMethod'', ''MultipleLines'']"
    "''PaymentMethod'' \<in> set [''Contract'', ''InternetService'', ''PaymentMethod'', ''MultipleLines'']"
    "''MultipleLines'' \<in> set [''Contract'', ''InternetService'', ''PaymentMethod'', ''MultipleLines'']"
    by simp_all
  have 1: "cell_at ?out (''Contract'' @ ''_'' @ contract req) i = Some (N (I 1))"
    using encoded_text_indicator(1) [OF T mem(1) a(3), where ten=ten and mc=mc and a=q33 and b=q66
        and l="contract req"] encoded_text_indicator(2) [OF T mem(1) a(3)] by simp
  have 2: "cell_at ?out (''InternetService'' @ ''_'' @ internet_service req) i = Some (N (I 1))"
    using encoded_text_indicator(1) [OF T mem(2) a(4), where ten=ten and mc=mc and a=q33 and b=q66
        and l="internet_service req"] encoded_text_indicator(2) [OF T mem(2) a(4)] by simp
  have 3: "cell_at ?out (''PaymentMethod'' @ ''_'' @ payment_method req) i = Some (N (I 1))"
    using encoded_text_indicator(1) [OF T mem(3) a(5), where ten=ten and mc=mc and a=q33 and b=q66
        and l="payment_method req"] encoded_text_indicator(2) [OF T mem(3) a(5)] by simp
  have 4: "cell_at ?out (''MultipleLines'' @ ''_'' @ multiple_lines req) i = Some (N (I 1))"
    using encoded_text_indicator(1) [OF T mem(4) a(6), where ten=ten and mc=mc and a=q33 and b=q66
        and l="multiple_lines req"] encoded_text_indicator(2) [OF T mem(4) a(6)] by simp
  have 5: "cell_at ?out (''tenure_group'' @ ''_'' @ bucket_tenure (tenure req)) i = Some (N (I 1))"
    using encoded_tenure_group_indicator [OF T t t0, where mc=mc and a=q33 and b=q66
        and l="bucket_tenure (tenure req)"] bucket_labels(1) [of "tenure req"]
    by simp
  have 6: "cell_at ?out (''monthly_charges_bucket'' @ ''_'' @ bucket_monthly (monthly_charges req) q33 q66) i
      = Some (N (I 1))"
    using encoded_bucket_indicator [OF T m lt, where ten=ten
        and l="bucket_monthly (monthly_charges req) q33 q66"]
      bucket_labels(2) [of "monthly_charges req" q33 q66]
    by simp
  from 1 2 3 4 5 6 show ?thesis
    by (simp add: numeral_eq_Suc)
qed

text \<open>C1, as amended. Take a cleaned table with the columns of the dataset, a row \<open>i\<close> of
  it, and a valid request that carries the attribute values of that row, values the dataset
  uses; let q33 < q66 be the thresholds fitted on the table. Then the engineering and
  encoding steps of training return a table, and every cell of row \<open>i\<close> of that table,
  in whatever column but \<^verbatim>\<open>gender\<close>, \<^verbatim>\<open>TotalCharges\<close> and the label, is the value
  the row built at inference has for that column (0 when it has no such column). The fourteen
  plain feature columns and the six indicator columns of the row's own categories are there,
  the latter at 1. \<^verbatim>\<open>TotalCharges\<close> is the table's own value at training and
  tenure times monthly_charges at inference; nothing is stated about \<^verbatim>\<open>gender\<close>.\<close>

theorem inference_row_matches_training:
  assumes "telco_table df" and "same_attributes df i req"
    and "valid_request req" and "training_vocabulary req"
    and "map_of df ''MonthlyCharges'' = Some mc"
    and "quantile mc (33 / 100) = Inr (Some q33)" "quantile mc (66 / 100) = Inr (Some q66)"
    and "q33 < q66"
  shows "\<exists>out. engineer_and_encode df = Inr out
     \<and> (\<forall>k v. cell_at out k i = Some v \<longrightarrow> k \<notin> set [''gender'', ''TotalCharges'', ''Churn''] \<longrightarrow>
            v = N (row_get (build_feature_row req q33 q66) k (I 0)))
     \<and> (\<forall>k \<in> set plain_feature_columns.
            cell_at out k i = Some (N (row_get (build_feature_row req q33 q66) k (I 0))))
     \<and> map (\<lambda>k. cell_at out k i)
          [''Contract_'' @ contract req, ''InternetService_'' @ internet_service req,
           ''PaymentMethod_'' @ payment_method req, ''MultipleLines_'' @ multiple_lines req,
           ''tenure_group_'' @ bucket_tenure (tenure req),
           ''monthly_charges_bucket_'' @ bucket_monthly (monthly_charges req) q33 q66] =
         replicate 6 (Some (N (I 1)))
     \<and> cell_at out ''TotalCharges'' i = cell_at df ''TotalCharges'' i
     \<and> build_feature_row req q33 q66 ''TotalCharges'' =
         Some (F (real_of_int (tenure req) * monthly_charges req))"
proof -
  from assms(2) obtain ten where ten: "map_of df ''tenure'' = Some ten"
    by (auto simp: same_attributes_def cell_at_Some)
  from assms(3) have t0: "0 \<le> tenure req"
    by (simp add: valid_request_def)
  from assms(1,5) have fl: "dtype_of mc = Float64"
    by (simp add: telco_table_def has_dtype_def)
  let ?out = "get_dummies (encode_binary_columns (engineered df ten mc q33 q66)) categorical_cols"
  have enc: "engineer_and_encode df = Inr ?out"
    by (rule engineer_and_encode_Inr [OF assms(1) ten assms(5-8)])
  have cells: "\<forall>k v. cell_at ?out k i = Some v \<longrightarrow> k \<notin> set [''gender'', ''TotalCharges'', ''Churn''] \<longrightarrow>
            v = N (row_get (build_feature_row req q33 q66) k (I 0))"
    using encoded_row_cells [OF assms(1,2,4) t0 ten assms(5,8)] by blast
  have plain: "\<forall>k \<in> set plain_feature_columns.
            cell_at ?out k i = Some (N (row_get (build_feature_row req q33 q66) k (I 0)))"
    by (rule encoded_plain_cells [OF assms(2,4) ten assms(5) fl])
  have own: "map (\<lambda>k. cell_at ?out k i)
          [''Contract_'' @ contract req, ''InternetService_'' @ internet_service req,
           ''PaymentMethod_'' @ payment_method req, ''MultipleLines_'' @ multiple_lines req,
           ''tenure_group_'' @ bucket_tenure (tenure req),
           ''monthly_charges_bucket_'' @ bucket_monthly (monthly_charges req) q33 q66] =
         replicate 6 (Some (N (I 1)))"
    by (rule encoded_own_indicators [OF assms(1,2) t0 ten assms(5,8)])
  have tc: "cell_at ?out ''TotalCharges'' i = cell_at df ''TotalCharges'' i"
    by (rule encoded_untouched_cell) simp
  from enc cells plain own tc row_total_charges [of req q33 q66] show ?thesis
    by blast
qed

lemma example_request_fields:
  "tenure example_request = 5" "monthly_charges example_request = 70"
  "contract example_request = ''Month-to-month''" "gender example_request = ''Male''"
  by (simp_all add: example_request_def request_with_defaults_def)

theorem inference_row_matches_training_witness:
  "telco_table example_table \<and> same_attributes example_table 0 example_request
   \<and> valid_request example_request \<and> training_vocabulary example_request
   \<and> quantile (float_column [70, 20, 100]) (33 / 100) = Inr (Some 53)
   \<and> quantile (float_column [70, 20, 100]) (66 / 100) = Inr (Some (398 / 5))
   \<and> (\<exists>out. engineer_and_encode example_table = Inr out
         \<and> cell_at out ''Contract_Month-to-month'' 0 = Some (N (I 1))
         \<and> cell_at out ''total_spend'' 0 = Some (N (F 350))
         \<and> cell_at out ''TotalCharges'' 0 = Some (N (F (701 / 2))))"
proof -
  have lt: "(53 :: real) < 398 / 5" by simp
  from inference_row_matches_training [OF example_attributes(1,2,4,3,5) example_quantiles lt]
  obtain out where out: "engineer_and_encode example_table = Inr out"
    and plain: "\<forall>k \<in> set plain_feature_columns.
        cell_at out k 0 = Some (N (row_get (build_feature_row example_request 53 (398 / 5)) k (I 0)))"
    and own: "map (\<lambda>k. cell_at out k 0)
          [''Contract_'' @ contract example_request,
           ''InternetService_'' @ internet_service example_request,
           ''PaymentMethod_'' @ payment_method example_request,
           ''MultipleLines_'' @ multiple_lines example_request,
           ''tenure_group_'' @ bucket_tenure (tenure example_request),
           ''monthly_charges_bucket_'' @ bucket_monthly (monthly_charges example_request) 53 (398 / 5)] =
         replicate 6 (Some (N (I 1)))"
    and tc: "cell_at out ''TotalCharges'' 0 = cell_at example_table ''TotalCharges'' 0"
    by blast
  from own have 1: "cell_at out ''Contract_Month-to-month'' 0 = Some (N (I 1))"
    by (simp add: example_request_fields numeral_eq_Suc)
  have "''total_spend'' \<in> set plain_feature_columns"
    by (simp add: plain_feature_columns_def)
  with plain have 2: "cell_at out ''total_spend'' 0 = Some (N (F 350))"
    by (simp add: row_total_spend row_get_def example_request_fields)
  have "cell_at example_table ''TotalCharges'' 0 = Some (N (F (701 / 2)))"
    by (simp add: example_table_def cell_at_def float_column_def)
  with tc have 3: "cell_at out ''TotalCharges'' 0 = Some (N (F (701 / 2)))"
    by simp
  from out 1 2 3 example_attributes(1,2,4,3) example_quantiles show ?thesis
    by blast
qed

lemma lower_male: "lower (strip ''Male'') = ''male''"
  by code_simp

theorem gender_encoding_counterexample:
  "telco_table example_table \<and> same_attributes example_table 0 example_request
   \<and> valid_request example_request
   \<and> quantile (float_column [70, 20, 100]) (33 / 100) = Inr (Some 53)
   \<and> quantile (float_column [70, 20, 100]) (66 / 100) = Inr (Some (398 / 5))
   \<and> encoded_cell example_table ''gender'' 0 = Inr (Some (N (I 0)))
   \<and> build_feature_row example_request 53 (398 / 5) ''gender'' = Some (I 1)
   \<and> encoded_cell example_table ''TotalCharges'' 0 = Inr (Some (N (F (701 / 2))))
   \<and> build_feature_row example_request 53 (398 / 5) ''TotalCharges'' = Some (F 350)"
proof -
  have g: "cell_at example_table ''gender'' 0 = Some (S ''Male'')"
    by (simp add: example_table_def cell_at_def text_column_def)
  have b: "''gender'' \<in> set binary_cols"
    by (simp add: binary_cols_def)
  from encoded_binary_cell [OF b g, of "int_column [5, 30, 72]" "float_column [70, 20, 100]" 53 "398 / 5"]
  have 1: "encoded_cell example_table ''gender'' 0 = Inr (Some (N (I 0)))"
    by (simp add: encoded_cell_def example_encoded bind_err_def)
  have 2: "build_feature_row example_request 53 (398 / 5) ''gender'' = Some (I 1)"
    by (simp add: inference_base(12) example_request_fields lower_male)
  have "map_of (get_dummies (encode_binary_columns
       (engineered example_table (int_column [5, 30, 72]) (float_column [70, 20, 100]) 53 (398 / 5)))
       categorical_cols) ''TotalCharges'' = map_of example_table ''TotalCharges''"
    by (rule engineer_and_encode_keeps_total_charges [OF example_encoded])
  moreover have "map_of example_table ''TotalCharges'' = Some (float_column [701 / 2, 610, 7000])"
    by (simp add: example_table_def)
  ultimately have 3: "encoded_cell example_table ''TotalCharges'' 0 = Inr (Some (N (F (701 / 2))))"
    by (simp add: encoded_cell_def example_encoded bind_err_def cell_at_def float_column_def)
  have 4: "build_feature_row example_request 53 (398 / 5) ''TotalCharges'' = Some (F 350)"
    by (simp add: row_total_charges example_request_fields)
  from 1 2 3 4 example_attributes(1,2,4) example_quantiles show ?thesis
    by blast
qed

end
